theory Spec2Isabelle
  imports Main "HOL-Library.Word" "HOL-Library.List_Lexorder" "HOL-Library.Char_ord"
begin

section \<open>Port allocator\<close>

text \<open>
  Go's \<open>int\<close> is modelled as a 64-bit word read as two's complement: \<open>+\<close>, \<open>-\<close> and
  \<open>*\<close> wrap, comparisons are the signed ones.
\<close>

type_synonym goint = "64 word"

text \<open>
  \<open>findAvailablePort\<close> talks to two things outside the program: the random source behind
  \<open>rand.Int(rand.Reader, max)\<close> and the host's TCP stack behind \<open>net.Listen\<close>.  Both are
  inputs of the model, indexed by the loop counter: \<open>rand_src env i\<close> is the entropy read in
  iteration \<open>i\<close> (\<open>None\<close> when the reader fails), \<open>listen_ok env i p\<close> says whether binding
  port \<open>p\<close> succeeds in iteration \<open>i\<close>.
\<close>

record port_env =
  rand_src :: "nat \<Rightarrow> nat option"
  listen_ok :: "nat \<Rightarrow> goint \<Rightarrow> bool"

datatype rand_result = RandPanic | RandErr | RandOk nat

text \<open>
  \<open>rand.Int\<close> panics when \<open>max \<le> 0\<close>; otherwise it returns the reader's error or a value
  in \<open>[0, max)\<close>.  Every value of that interval is \<open>r mod max\<close> for some \<open>r\<close>.
\<close>

definition rand_Int :: "nat option \<Rightarrow> int \<Rightarrow> rand_result" where
  "rand_Int raw mx =
     (if mx \<le> 0 then RandPanic
      else case raw of None \<Rightarrow> RandErr | Some r \<Rightarrow> RandOk (r mod nat mx))"

definition isPortAvailable :: "port_env \<Rightarrow> nat \<Rightarrow> goint \<Rightarrow> bool" where
  "isPortAvailable env i port = listen_ok env i port"

datatype port_error = InvalidPortRange | NoAvailablePort goint goint

datatype 'a outcome = Returned 'a | Panicked

datatype port_event = DrawRandom | Probe goint

type_synonym port_result = "(port_error + goint) outcome \<times> (goint \<rightharpoonup> bool) \<times> port_event list"

text \<open>
  The \<open>for i := 0; i < maxAttempts; i++\<close> loop.  It returns what the function returns (or
  that it panicked), the \<open>usedPorts\<close> map as the caller finds it afterwards, and the trace
  of calls to \<open>rand.Int\<close> and \<open>isPortAvailable\<close>.
\<close>

function findAvailablePort_loop ::
  "port_env \<Rightarrow> goint \<Rightarrow> goint \<Rightarrow> goint \<Rightarrow> goint \<Rightarrow> (goint \<rightharpoonup> bool) \<Rightarrow> port_event list \<Rightarrow> port_result"
where
  "findAvailablePort_loop env startPort endPort maxAttempts i usedPorts tr =
     (if i <s maxAttempts then
        (case rand_Int (rand_src env (unat i)) (sint (endPort - startPort + 1)) of
           RandPanic \<Rightarrow> (Panicked, usedPorts, tr @ [DrawRandom])
         | RandErr \<Rightarrow>
             findAvailablePort_loop env startPort endPort maxAttempts (i + 1) usedPorts
               (tr @ [DrawRandom])
         | RandOk v \<Rightarrow>
             (let port = word_of_nat v + startPort in
              case usedPorts port of
                Some _ \<Rightarrow>
                  findAvailablePort_loop env startPort endPort maxAttempts (i + 1) usedPorts
                    (tr @ [DrawRandom])
              | None \<Rightarrow>
                  if isPortAvailable env (unat i) port
                  then (Returned (Inr port), usedPorts, tr @ [DrawRandom, Probe port])
                  else findAvailablePort_loop env startPort endPort maxAttempts (i + 1)
                         (usedPorts(port \<mapsto> True)) (tr @ [DrawRandom, Probe port])))
      else (Returned (Inl (NoAvailablePort startPort endPort)), usedPorts, tr))"
  by pat_completeness auto

termination
proof (relation "measure (\<lambda>(env, s, e, m, i, u, tr). nat (sint m - sint i))", goal_cases)
  have dec: "nat (sint m - sint (i + 1)) < nat (sint m - sint i)" if "i <s m" for i m :: goint
  proof -
    have "sint m < 2 ^ 63" using sint_lt [of m] by simp
    moreover have "- (2 ^ 63) \<le> sint i" using sint_ge [of i] by simp
    moreover have lt: "sint i < sint m" using that by (simp add: word_sless_alt)
    ultimately have "signed_take_bit 63 (sint i + 1) = sint i + 1"
      by (simp add: signed_take_bit_int_eq_self)
    then have "sint (i + 1) = sint i + 1" by (simp add: sint_word_ariths)
    with lt show ?thesis by simp
  qed
  {
    case 1
    show ?case by simp
  }
  {
    case (2 env s e m i u tr)
    from dec [OF this(1)] show ?case by simp
  }
  {
    case (3 env s e m i u tr)
    from dec [OF this(1)] show ?case by simp
  }
  {
    case (4 env s e m i u tr)
    from dec [OF this(1)] show ?case by simp
  }
qed

declare findAvailablePort_loop.simps [simp del]

definition findAvailablePort :: "port_env \<Rightarrow> goint \<Rightarrow> goint \<Rightarrow> (goint \<rightharpoonup> bool) \<Rightarrow> port_result" where
  "findAvailablePort env startPort endPort usedPorts =
     (if endPort <s startPort then (Returned (Inl InvalidPortRange), usedPorts, [])
      else findAvailablePort_loop env startPort endPort ((endPort - startPort + 1) * 2) 0 usedPorts [])"

definition attempts :: "port_event list \<Rightarrow> nat" where
  "attempts tr = length (filter (\<lambda>ev. ev = DrawRandom) tr)"

text \<open>
  What a run of the loop with \<open>b\<close> iterations left guarantees: no panic, at most \<open>b\<close>
  draws, the no-port error only after all \<open>b\<close> draws, a port only after its probe.
\<close>

definition budget_ok :: "port_env \<Rightarrow> goint \<Rightarrow> goint \<Rightarrow> nat \<Rightarrow> port_result \<Rightarrow> bool" where
  "budget_ok env s e b res \<longleftrightarrow>
     fst res \<noteq> Panicked \<and> attempts (snd (snd res)) \<le> b \<and>
     (\<forall>err. fst res = Returned (Inl err) \<longrightarrow>
        err = NoAvailablePort s e \<and> attempts (snd (snd res)) = b) \<and>
     (\<forall>p. fst res = Returned (Inr p) \<longrightarrow>
        (\<exists>k. listen_ok env k p) \<and> last (snd (snd res)) = Probe p)"

text \<open>
  The scenario of the specification: range \<open>[8000, 8005]\<close>, ports 8000 and 8001 already
  claimed, ports 8002 and 8003 busy on the host.  The random source draws the offsets
  2, 3, 4, ... in turn.
\<close>

definition scenario_env :: port_env where
  "scenario_env = \<lparr>rand_src = (\<lambda>i. Some (i + 2)), listen_ok = (\<lambda>i p. p \<noteq> 8002 \<and> p \<noteq> 8003)\<rparr>"

definition scenario_claimed :: "goint \<rightharpoonup> bool" where
  "scenario_claimed = [8000 \<mapsto> True, 8001 \<mapsto> True]"

text \<open>A host on which every port is busy.\<close>

definition busy_env :: port_env where
  "busy_env = \<lparr>rand_src = (\<lambda>i. Some i), listen_ok = (\<lambda>i p. False)\<rparr>"

section \<open>Files, errors and the operating system\<close>

type_synonym path = string
type_synonym bytes = string

datatype os_error = ErrNotExist | ErrExist | ErrPermission | ErrIO

text \<open>
  A Go \<open>error\<close> value: an error of the operating system, an error of \<open>encoding/json\<close>,
  or \<open>fmt.Errorf("<message>: %w", err)\<close>, kept as the message and the wrapped error.
\<close>

datatype error = Os os_error | JsonError | Wrap string error

text \<open>\<open>errors.Is(err, os.ErrNotExist)\<close> looks through the \<open>%w\<close> wrappers.\<close>

fun is_not_exist :: "error \<Rightarrow> bool" where
  "is_not_exist (Os e) = (e = ErrNotExist)"
| "is_not_exist JsonError = False"
| "is_not_exist (Wrap msg e) = is_not_exist e"

text \<open>
  What the program leaves behind: the regular files it reads and writes, as a map from path
  to contents, and a log of what it did (the warnings printed by \<open>printWarning\<close>, by
  title, and every change made to a file).
\<close>

datatype event =
    Warning string
  | Created path
  | Wrote path bytes
  | Closed path
  | Renamed path path
  | Removed path

record world =
  files :: "path \<rightharpoonup> bytes"
  log :: "event list"

text \<open>
  What the operating system decides.  A fault is an error that the state of \<open>files\<close> does
  not explain (permissions, a full disk, an I/O error); each is asked by path.
  \<open>user_config_dir\<close> is the result of \<open>os.UserConfigDir()\<close>, \<open>dir_stat p\<close> the error of
  \<open>os.Stat(p)\<close> on an instance directory (\<open>None\<close> when the directory is there),
  \<open>temp_names\<close> the random strings \<open>os.CreateTemp\<close> tries in turn, \<open>docker_ps p\<close> the output
  of \<open>docker compose ps --services --filter status=running\<close> run in \<open>p\<close>, and
  \<open>dotenv_port p\<close> the value of \<open>WORDPRESS_PORT\<close> that \<open>strconv.Atoi\<close> reads from the
  \<open>.env\<close> file of \<open>p\<close> (\<open>None\<close> when the file cannot be read or the value is no integer).
  \<open>remove_fault p\<close> is the error that keeps the deferred clean-up of a writer from removing
  the temporary file \<open>p\<close> (its \<open>os.Stat\<close> or its \<open>os.Remove\<close> fails; the program drops
  both errors).  The \<open>os.Remove\<close> of the lock's sentinel succeeds when the sentinel is
  there.
\<close>

record os_env =
  user_config_dir :: "os_error + string"
  mkdir_fault :: "path \<Rightarrow> os_error option"
  dir_stat :: "path \<Rightarrow> os_error option"
  read_fault :: "path \<Rightarrow> os_error option"
  open_fault :: "path \<Rightarrow> os_error option"
  create_fault :: "path \<Rightarrow> os_error option"
  temp_names :: "string list"
  write_fault :: "path \<Rightarrow> (nat \<times> os_error) option"
  close_fault :: "path \<Rightarrow> os_error option"
  rename_fault :: "path \<Rightarrow> os_error option"
  remove_fault :: "path \<Rightarrow> os_error option"
  docker_ps :: "path \<Rightarrow> string"
  dotenv_port :: "path \<Rightarrow> goint option"

definition printWarning :: "string \<Rightarrow> world \<Rightarrow> world" where
  "printWarning title w = w\<lparr>log := log w @ [Warning title]\<rparr>"

subsection \<open>Paths\<close>

text \<open>
  \<open>filepath.Join\<close>, \<open>filepath.Dir\<close> and \<open>filepath.Base\<close> on clean paths (no empty element, no
  trailing separator, no \<open>.\<close> or \<open>..\<close> element), which is what the program builds.
\<close>

definition filepath_Join :: "path \<Rightarrow> string \<Rightarrow> path" where
  "filepath_Join dir name = dir @ ''/'' @ name"

definition filepath_Base :: "path \<Rightarrow> string" where
  "filepath_Base p = rev (takeWhile (\<lambda>c. c \<noteq> CHR ''/'') (rev p))"

definition filepath_Dir :: "path \<Rightarrow> path" where
  "filepath_Dir p =
     (if CHR ''/'' \<notin> set p then ''.''
      else let d = rev (tl (dropWhile (\<lambda>c. c \<noteq> CHR ''/'') (rev p)))
           in if d = [] then ''/'' else d)"

text \<open>\<open>strings.HasSuffix\<close> and \<open>strings.Contains\<close>.\<close>

definition HasSuffix :: "string \<Rightarrow> string \<Rightarrow> bool" where
  "HasSuffix s suffix \<longleftrightarrow>
     length suffix \<le> length s \<and> drop (length s - length suffix) s = suffix"

fun Contains :: "string \<Rightarrow> string \<Rightarrow> bool" where
  "Contains [] substr = (substr = [])"
| "Contains (c # cs) substr = (take (length substr) (c # cs) = substr \<or> Contains cs substr)"

subsection \<open>File operations\<close>

definition os_ReadFile :: "os_env \<Rightarrow> path \<Rightarrow> world \<Rightarrow> os_error + bytes" where
  "os_ReadFile env p w =
     (case read_fault env p of
        Some e \<Rightarrow> Inl e
      | None \<Rightarrow> (case files w p of None \<Rightarrow> Inl ErrNotExist | Some data \<Rightarrow> Inr data))"

text \<open>\<open>os.OpenFile(p, os.O_CREATE|os.O_EXCL, 0600)\<close>: fails when the file is there.\<close>

definition os_OpenFile_excl :: "os_env \<Rightarrow> path \<Rightarrow> world \<Rightarrow> os_error option \<times> world" where
  "os_OpenFile_excl env p w =
     (case files w p of
        Some _ \<Rightarrow> (Some ErrExist, w)
      | None \<Rightarrow>
          (case open_fault env p of
             Some e \<Rightarrow> (Some e, w)
           | None \<Rightarrow> (None, w\<lparr>files := (files w)(p \<mapsto> []), log := log w @ [Created p]\<rparr>)))"

definition file_Close :: "os_env \<Rightarrow> path \<Rightarrow> world \<Rightarrow> os_error option \<times> world" where
  "file_Close env p w = (close_fault env p, w\<lparr>log := log w @ [Closed p]\<rparr>)"

text \<open>
  \<open>f.Write(data)\<close> on a file just created: all of \<open>data\<close> reaches the file, or the
  first \<open>k\<close> bytes do and the error is returned.
\<close>

definition file_Write :: "os_env \<Rightarrow> path \<Rightarrow> bytes \<Rightarrow> world \<Rightarrow> os_error option \<times> world" where
  "file_Write env p data w =
     (case write_fault env p of
        Some (k, e) \<Rightarrow>
          (Some e, w\<lparr>files := (files w)(p \<mapsto> take k data), log := log w @ [Wrote p (take k data)]\<rparr>)
      | None \<Rightarrow> (None, w\<lparr>files := (files w)(p \<mapsto> data), log := log w @ [Wrote p data]\<rparr>))"

definition os_Stat_ok :: "path \<Rightarrow> world \<Rightarrow> bool" where
  "os_Stat_ok p w \<longleftrightarrow> files w p \<noteq> None"

definition os_Remove :: "path \<Rightarrow> world \<Rightarrow> os_error option \<times> world" where
  "os_Remove p w =
     (case files w p of
        None \<Rightarrow> (Some ErrNotExist, w)
      | Some _ \<Rightarrow> (None, w\<lparr>files := (files w)(p := None), log := log w @ [Removed p]\<rparr>))"

definition os_Rename :: "os_env \<Rightarrow> path \<Rightarrow> path \<Rightarrow> world \<Rightarrow> os_error option \<times> world" where
  "os_Rename env src dst w =
     (case files w src of
        None \<Rightarrow> (Some ErrNotExist, w)
      | Some data \<Rightarrow>
          (case rename_fault env dst of
             Some e \<Rightarrow> (Some e, w)
           | None \<Rightarrow>
               if src = dst then (None, w)
               else (None, w\<lparr>files := (files w)(dst \<mapsto> data, src := None),
                              log := log w @ [Renamed src dst]\<rparr>)))"

text \<open>
  \<open>os.CreateTemp(dir, pattern)\<close>: the last \<open>*\<close> of the pattern is replaced by a random
  string; a name that is taken is skipped and the next random string tried.
\<close>

definition temp_name :: "string \<Rightarrow> string \<Rightarrow> string" where
  "temp_name pattern r =
     (if CHR ''*'' \<in> set pattern
      then let suffix = rev (takeWhile (\<lambda>c. c \<noteq> CHR ''*'') (rev pattern));
               prefix = take (length pattern - length suffix - 1) pattern
           in prefix @ r @ suffix
      else pattern @ r)"

fun CreateTemp_try :: "path \<Rightarrow> string \<Rightarrow> string list \<Rightarrow> world \<Rightarrow> (os_error + path) \<times> world" where
  "CreateTemp_try dir pattern [] w = (Inl ErrExist, w)"
| "CreateTemp_try dir pattern (r # rs) w =
     (let name = filepath_Join dir (temp_name pattern r) in
      case files w name of
        Some _ \<Rightarrow> CreateTemp_try dir pattern rs w
      | None \<Rightarrow> (Inr name, w\<lparr>files := (files w)(name \<mapsto> []), log := log w @ [Created name]\<rparr>))"

definition os_CreateTemp :: "os_env \<Rightarrow> path \<Rightarrow> string \<Rightarrow> world \<Rightarrow> (os_error + path) \<times> world" where
  "os_CreateTemp env dir pattern w =
     (case create_fault env dir of
        Some e \<Rightarrow> (Inl e, w)
      | None \<Rightarrow> CreateTemp_try dir pattern (temp_names env) w)"

text \<open>
  \<open>os.WriteFile(p, data, 0644)\<close>: opens (creating or truncating) and writes; not atomic.
\<close>

definition os_WriteFile :: "os_env \<Rightarrow> path \<Rightarrow> bytes \<Rightarrow> world \<Rightarrow> os_error option \<times> world" where
  "os_WriteFile env p data w =
     (case open_fault env p of
        Some e \<Rightarrow> (Some e, w)
      | None \<Rightarrow> file_Write env p data w)"

section \<open>The persistent store\<close>

record InstanceMeta =
  Directory :: string
  CreationDate :: string
  WordPressVersion :: string
  DBVersion :: string
  WordPressPort :: goint
  Status :: string

record GlobalManagerConfig =
  SitesBaseDirectory :: string
  Theme :: string

type_synonym ManagerMeta = "string \<rightharpoonup> InstanceMeta"

definition globalConfigFileName :: string where
  "globalConfigFileName = ''.wpid-config.json''"

definition metaFileName :: string where
  "metaFileName = ''.wordpress-meta.json''"

definition managerMetaFileName :: string where
  "managerMetaFileName = ''.wpid-instances.json''"

text \<open>The zero values \<open>InstanceMeta{}\<close> and \<open>GlobalManagerConfig{}\<close>.\<close>

definition InstanceMeta_zero :: InstanceMeta where
  "InstanceMeta_zero =
     \<lparr>Directory = [], CreationDate = [], WordPressVersion = [], DBVersion = [],
      WordPressPort = 0, Status = []\<rparr>"

definition GlobalManagerConfig_zero :: GlobalManagerConfig where
  "GlobalManagerConfig_zero = \<lparr>SitesBaseDirectory = [], Theme = []\<rparr>"

text \<open>
  \<open>encoding/json\<close> is not part of the repository: it is a parameter of the model.
  \<open>marshal_*\<close> is \<open>json.MarshalIndent(v, "", "  ")\<close>.  \<open>unmarshal_*\<close> is
  \<open>json.Unmarshal(data, &v)\<close> into an empty value: it returns what \<open>v\<close> holds afterwards
  (the decoder may have filled part of it before it met the error) and the error.
  \<open>unmarshal_empty_object data\<close> says that \<open>json.Unmarshal(data, &emptyCheck)\<close> into an
  \<open>interface{}\<close> succeeds with a \<open>map[string]interface{}\<close> of length 0.
\<close>

record codec =
  marshal_meta :: "ManagerMeta \<Rightarrow> error + bytes"
  unmarshal_meta :: "bytes \<Rightarrow> ManagerMeta \<times> error option"
  unmarshal_empty_object :: "bytes \<Rightarrow> bool"
  marshal_config :: "GlobalManagerConfig \<Rightarrow> error + bytes"
  unmarshal_config :: "bytes \<Rightarrow> GlobalManagerConfig \<times> error option"
  marshal_instance :: "InstanceMeta \<Rightarrow> error + bytes"
  unmarshal_instance :: "bytes \<Rightarrow> InstanceMeta \<times> error option"

subsection \<open>Where the files are\<close>

definition getConfigStorageDir :: "os_env \<Rightarrow> world \<Rightarrow> (string \<times> error option) \<times> world" where
  "getConfigStorageDir env w =
     (case user_config_dir env of
        Inl err \<Rightarrow>
          (let fallbackDir = ''.wpid-data'';
               w1 = (if dir_stat env fallbackDir = Some ErrNotExist
                     then printWarning
                            ''User config directory not found, using fallback directory in current path.'' w
                     else w)
           in case mkdir_fault env fallbackDir of
                Some errMk \<Rightarrow>
                  (([], Some (Wrap ''could not create fallback data directory'' (Os errMk))), w1)
              | None \<Rightarrow> ((fallbackDir, None), w1))
      | Inr configDir \<Rightarrow>
          (let wpidDataDir = filepath_Join configDir ''wpid'' in
           case mkdir_fault env wpidDataDir of
             Some err \<Rightarrow> (([], Some (Wrap ''could not create data directory'' (Os err))), w)
           | None \<Rightarrow> ((wpidDataDir, None), w)))"

definition getGlobalConfigPath :: "os_env \<Rightarrow> world \<Rightarrow> (error + path) \<times> world" where
  "getGlobalConfigPath env w =
     (case getConfigStorageDir env w of
        ((storageDir, Some err), w1) \<Rightarrow>
          (Inl (Wrap ''failed to get storage directory for global config'' err), w1)
      | ((storageDir, None), w1) \<Rightarrow> (Inr (filepath_Join storageDir globalConfigFileName), w1))"

definition getManagerMetaPath :: "os_env \<Rightarrow> world \<Rightarrow> (error + path) \<times> world" where
  "getManagerMetaPath env w =
     (case getConfigStorageDir env w of
        ((storageDir, Some err), w1) \<Rightarrow>
          if (\<not> HasSuffix storageDir ''.wpid-data'' \<and> storageDir \<noteq> []) \<or> storageDir = []
          then (Inl (Wrap ''failed to get storage directory for manager meta'' err), w1)
          else (Inr (filepath_Join storageDir managerMetaFileName), w1)
      | ((storageDir, None), w1) \<Rightarrow> (Inr (filepath_Join storageDir managerMetaFileName), w1))"

subsection \<open>Reading\<close>

definition readGlobalManagerConfig ::
  "os_env \<Rightarrow> codec \<Rightarrow> world \<Rightarrow> (GlobalManagerConfig \<times> error option) \<times> world" where
  "readGlobalManagerConfig env cd w =
     (case getGlobalConfigPath env w of
        (Inl err, w1) \<Rightarrow> ((GlobalManagerConfig_zero, Some err), w1)
      | (Inr configPath, w1) \<Rightarrow>
          (case os_ReadFile env configPath w1 of
             Inl err \<Rightarrow>
               if is_not_exist (Os err) then ((GlobalManagerConfig_zero, None), w1)
               else ((GlobalManagerConfig_zero,
                      Some (Wrap ''failed to read global config file'' (Os err))), w1)
           | Inr data \<Rightarrow>
               if length data = 0 then ((GlobalManagerConfig_zero, None), w1)
               else (case unmarshal_config cd data of
                       (config, Some err) \<Rightarrow>
                         ((GlobalManagerConfig_zero, None),
                          printWarning ''Global configuration file might be corrupt.'' w1)
                     | (config, None) \<Rightarrow> ((config, None), w1))))"

text \<open>
  \<open>readManagerMeta\<close> returns \<open>(nil, err)\<close> on an error and \<open>(meta, nil)\<close> otherwise: a sum.
\<close>

definition readManagerMeta :: "os_env \<Rightarrow> codec \<Rightarrow> world \<Rightarrow> (error + ManagerMeta) \<times> world" where
  "readManagerMeta env cd w =
     (case getManagerMetaPath env w of
        (Inl err, w1) \<Rightarrow> (Inl (Wrap ''could not determine manager meta path'' err), w1)
      | (Inr metaPath, w1) \<Rightarrow>
          (case os_ReadFile env metaPath w1 of
             Inl err \<Rightarrow>
               if is_not_exist (Os err) then (Inr Map.empty, w1)
               else (Inl (Wrap ''failed to read manager meta file'' (Os err)), w1)
           | Inr data \<Rightarrow>
               if length data = 0 then (Inr Map.empty, w1)
               else (case unmarshal_meta cd data of
                       (meta, Some err) \<Rightarrow>
                         if unmarshal_empty_object cd data then (Inr meta, w1)
                         else (Inr Map.empty,
                               printWarning ''Manager metadata file might be corrupt.'' w1)
                     | (meta, None) \<Rightarrow> (Inr meta, w1))))"

subsection \<open>The lock\<close>

record FileLock =
  lock_path :: path

definition NewFileLock :: "path \<Rightarrow> FileLock" where
  "NewFileLock p = \<lparr>lock_path = p\<rparr>"

definition Lock :: "os_env \<Rightarrow> FileLock \<Rightarrow> world \<Rightarrow> error option \<times> world" where
  "Lock env fl w =
     (case os_OpenFile_excl env (lock_path fl) w of
        (Some err, w1) \<Rightarrow> (Some (Wrap ''lock exists or creation failed'' (Os err)), w1)
      | (None, w1) \<Rightarrow>
          (case file_Close env (lock_path fl) w1 of
             (Some err, w2) \<Rightarrow> (Some (Os err), w2)
           | (None, w2) \<Rightarrow> (None, w2)))"

definition Unlock :: "FileLock \<Rightarrow> world \<Rightarrow> error option \<times> world" where
  "Unlock fl w = (case os_Remove (lock_path fl) w of (err, w1) \<Rightarrow> (map_option Os err, w1))"

subsection \<open>Writing\<close>

text \<open>
  A \<open>defer\<close> runs when the function returns, the last one registered first.  Each function
  below is cut where a \<open>defer\<close> is registered: the part after it computes the value to be
  returned, then the deferred call runs on the world it left.
\<close>

text \<open>
  The deferred clean-up of both writers: remove the temporary file if it is still there.
  The error of \<open>os.Remove\<close> is dropped: when the removal fails the file stays.
\<close>

definition remove_temp :: "os_env \<Rightarrow> path \<Rightarrow> world \<Rightarrow> world" where
  "remove_temp env tempPath w =
     (if os_Stat_ok tempPath w then
        (case remove_fault env tempPath of
           Some err \<Rightarrow> w
         | None \<Rightarrow> snd (os_Remove tempPath w))
      else w)"

text \<open>An operating system on which no file operation of the writers faults.\<close>

definition fault_free :: "os_env \<Rightarrow> bool" where
  "fault_free env \<longleftrightarrow>
     (\<forall>p. open_fault env p = None \<and> close_fault env p = None \<and> create_fault env p = None \<and>
          write_fault env p = None \<and> rename_fault env p = None \<and> remove_fault env p = None)"

definition writeGlobalManagerConfig_temp ::
  "os_env \<Rightarrow> path \<Rightarrow> path \<Rightarrow> bytes \<Rightarrow> world \<Rightarrow> error option \<times> world" where
  "writeGlobalManagerConfig_temp env configPath tempPath data w =
     (case file_Write env tempPath data w of
        (Some err, w1) \<Rightarrow>
          (Some (Wrap ''failed to write data to temp global config file'' (Os err)),
           snd (file_Close env tempPath w1))
      | (None, w1) \<Rightarrow>
          (case file_Close env tempPath w1 of
             (Some err, w2) \<Rightarrow>
               (Some (Wrap ''failed to close temp global config file'' (Os err)), w2)
           | (None, w2) \<Rightarrow>
               (case os_Rename env tempPath configPath w2 of
                  (err, w3) \<Rightarrow> (map_option Os err, w3))))"

definition writeGlobalManagerConfig ::
  "os_env \<Rightarrow> codec \<Rightarrow> GlobalManagerConfig \<Rightarrow> world \<Rightarrow> error option \<times> world" where
  "writeGlobalManagerConfig env cd config w =
     (case getGlobalConfigPath env w of
        (Inl err, w1) \<Rightarrow>
          (Some (Wrap ''could not determine global config path for writing'' err), w1)
      | (Inr configPath, w1) \<Rightarrow>
          (case marshal_config cd config of
             Inl err \<Rightarrow> (Some (Wrap ''failed to marshal global config data'' err), w1)
           | Inr data \<Rightarrow>
               (case os_CreateTemp env (filepath_Dir configPath)
                       (filepath_Base configPath @ ''.*.tmp'') w1 of
                  (Inl err, w2) \<Rightarrow>
                    (Some (Wrap ''could not create temp file for global config'' (Os err)), w2)
                | (Inr tempPath, w2) \<Rightarrow>
                    (case writeGlobalManagerConfig_temp env configPath tempPath data w2 of
                       (res, w3) \<Rightarrow> (res, remove_temp env tempPath w3)))))"

definition writeManagerMeta_temp ::
  "os_env \<Rightarrow> path \<Rightarrow> path \<Rightarrow> bytes \<Rightarrow> world \<Rightarrow> error option \<times> world" where
  "writeManagerMeta_temp env metaPath tempPath data w =
     (case file_Write env tempPath data w of
        (Some err, w1) \<Rightarrow>
          (Some (Wrap ''failed to write data to temp metadata file'' (Os err)),
           snd (file_Close env tempPath w1))
      | (None, w1) \<Rightarrow>
          (case file_Close env tempPath w1 of
             (Some err, w2) \<Rightarrow> (Some (Wrap ''failed to close temp metadata file'' (Os err)), w2)
           | (None, w2) \<Rightarrow>
               (case os_Rename env tempPath metaPath w2 of
                  (Some err, w3) \<Rightarrow>
                    (Some (Wrap ''failed to rename temp metadata file'' (Os err)), w3)
                | (None, w3) \<Rightarrow> (None, w3))))"

definition writeManagerMeta_locked ::
  "os_env \<Rightarrow> codec \<Rightarrow> ManagerMeta \<Rightarrow> path \<Rightarrow> world \<Rightarrow> error option \<times> world" where
  "writeManagerMeta_locked env cd meta metaPath w =
     (case marshal_meta cd meta of
        Inl err \<Rightarrow> (Some (Wrap ''failed to marshal manager meta data'' err), w)
      | Inr data \<Rightarrow>
          (case os_CreateTemp env (filepath_Dir metaPath) (managerMetaFileName @ ''.*.tmp'') w of
             (Inl err, w1) \<Rightarrow> (Some (Wrap ''could not create temp file for metadata'' (Os err)), w1)
           | (Inr tempPath, w1) \<Rightarrow>
               (case writeManagerMeta_temp env metaPath tempPath data w1 of
                  (res, w2) \<Rightarrow> (res, remove_temp env tempPath w2))))"

definition writeManagerMeta :: "os_env \<Rightarrow> codec \<Rightarrow> ManagerMeta \<Rightarrow> world \<Rightarrow> error option \<times> world" where
  "writeManagerMeta env cd meta w =
     (case getManagerMetaPath env w of
        (Inl err, w1) \<Rightarrow> (Some (Wrap ''could not determine manager meta path'' err), w1)
      | (Inr metaPath, w1) \<Rightarrow>
          (let lockPath = metaPath @ ''.lock'';
               fileLock = NewFileLock lockPath
           in case Lock env fileLock w1 of
                (Some err, w2) \<Rightarrow>
                  (Some (Wrap ''could not acquire lock on metadata file'' err), w2)
              | (None, w2) \<Rightarrow>
                  (case writeManagerMeta_locked env cd meta metaPath w2 of
                     (res, w3) \<Rightarrow> (res, snd (Unlock fileLock w3)))))"

subsection \<open>The marker file of one instance\<close>

definition readInstanceMeta :: "os_env \<Rightarrow> codec \<Rightarrow> path \<Rightarrow> world \<Rightarrow> error + InstanceMeta" where
  "readInstanceMeta env cd instancePath w =
     (let metaFilePath = filepath_Join instancePath metaFileName in
      case os_ReadFile env metaFilePath w of
        Inl err \<Rightarrow> Inl (Wrap ''failed to read meta file'' (Os err))
      | Inr data \<Rightarrow>
          (case unmarshal_instance cd data of
             (meta, Some err) \<Rightarrow> Inl (Wrap ''failed to unmarshal meta file'' err)
           | (meta, None) \<Rightarrow> Inr meta))"

definition writeInstanceMeta ::
  "os_env \<Rightarrow> codec \<Rightarrow> path \<Rightarrow> InstanceMeta \<Rightarrow> world \<Rightarrow> error option \<times> world" where
  "writeInstanceMeta env cd instancePath meta w =
     (let metaFilePath = filepath_Join instancePath metaFileName in
      case marshal_instance cd meta of
        Inl err \<Rightarrow> (Some (Wrap ''failed to marshal meta data'' err), w)
      | Inr data \<Rightarrow>
          (case os_WriteFile env metaFilePath data w of (err, w1) \<Rightarrow> (map_option Os err, w1)))"

section \<open>The JSON codec\<close>

text \<open>
  The registry file is written by \<open>json.MarshalIndent(meta, "", "  ")\<close> and read by
  \<open>json.Unmarshal(data, &meta)\<close>, on the type \<open>ManagerMeta\<close>, a \<open>map[string]InstanceMeta\<close>.
  The package \<open>encoding/json\<close> belongs to the Go standard library, not to the repository:
  this section models what it does on this one type, with the member names that the struct
  tags of \<open>InstanceMeta\<close> give (\<open>directory\<close>, \<open>creation_date\<close>, \<open>wordpress_version\<close>,
  \<open>db_version\<close>, \<open>wordpress_port\<close>, \<open>status\<close>).  A Go string is a sequence of bytes, meant
  to be UTF-8 but not bound to be; a \<open>string\<close> of the model is the list of these bytes.
\<close>

subsection \<open>UTF-8\<close>

text \<open>
  \<open>utf8_size s\<close> is the number of bytes of the code point at the head of \<open>s\<close> when \<open>s\<close>
  starts with a well-formed encoding of two bytes or more, and 0 when it does not (where
  \<open>utf8.DecodeRune\<close> answers \<open>RuneError\<close> with size 1).  \<open>utf8_first\<close> is the table of the
  leading bytes: the size, and the range allowed to the second byte; every later byte lies
  between 0x80 and 0xBF.  \<open>utf8_EncodeRune\<close> writes a code point, the replacement character
  U+FFFD for a surrogate or a value beyond U+10FFFF.  \<open>utf8_ValidString\<close> is
  \<open>utf8.ValidString\<close>.
\<close>

definition in_range :: "nat \<Rightarrow> nat \<Rightarrow> char \<Rightarrow> bool" where
  "in_range lo hi c \<longleftrightarrow> lo \<le> of_char c \<and> of_char c \<le> hi"

definition utf8_first :: "char \<Rightarrow> (nat \<times> nat \<times> nat) option" where
  "utf8_first c =
     (if in_range 0xC2 0xDF c then Some (2, 0x80, 0xBF)
      else if in_range 0xE0 0xE0 c then Some (3, 0xA0, 0xBF)
      else if in_range 0xED 0xED c then Some (3, 0x80, 0x9F)
      else if in_range 0xE1 0xEF c then Some (3, 0x80, 0xBF)
      else if in_range 0xF0 0xF0 c then Some (4, 0x90, 0xBF)
      else if in_range 0xF1 0xF3 c then Some (4, 0x80, 0xBF)
      else if in_range 0xF4 0xF4 c then Some (4, 0x80, 0x8F)
      else None)"

definition utf8_size :: "string \<Rightarrow> nat" where
  "utf8_size s =
     (case s of
        [] \<Rightarrow> 0
      | c # cs \<Rightarrow>
          (case utf8_first c of
             None \<Rightarrow> 0
           | Some (n, lo, hi) \<Rightarrow>
               (case cs of
                  [] \<Rightarrow> 0
                | c1 # cs1 \<Rightarrow>
                    if n \<le> length s \<and> in_range lo hi c1 \<and> list_all (in_range 0x80 0xBF) (take (n - 2) cs1)
                    then n else 0)))"

definition utf8_EncodeRune :: "nat \<Rightarrow> string" where
  "utf8_EncodeRune r =
     (if r < 0x80 then [char_of r]
      else if r < 0x800 then [char_of (0xC0 + r div 64), char_of (0x80 + r mod 64)]
      else if 0x10FFFF < r \<or> (0xD800 \<le> r \<and> r < 0xE000) then [CHR 0xEF, CHR 0xBF, CHR 0xBD]
      else if r < 0x10000 then
        [char_of (0xE0 + r div 4096), char_of (0x80 + r div 64 mod 64), char_of (0x80 + r mod 64)]
      else [char_of (0xF0 + r div 262144), char_of (0x80 + r div 4096 mod 64),
            char_of (0x80 + r div 64 mod 64), char_of (0x80 + r mod 64)])"

function utf8_ValidString :: "string \<Rightarrow> bool" where
  "utf8_ValidString [] = True"
| "utf8_ValidString (c # cs) =
     (if of_char c < (0x80 :: nat) then utf8_ValidString cs
      else if utf8_size (c # cs) = 0 then False
      else utf8_ValidString (drop (utf8_size (c # cs)) (c # cs)))"
  by pat_completeness auto
termination
  by (relation "measure length") auto

subsection \<open>String literals\<close>

text \<open>
  \<open>appendString\<close> is the encoder of a string, with the escaping of HTML characters on, as
  \<open>Marshal\<close> and \<open>MarshalIndent\<close> have it: the quote and the backslash get a backslash;
  backspace, form feed, line feed, carriage return and tab get their letter (for the first
  two, from Go 1.22 on; older versions write them as the other control characters); every
  other byte below 0x20 and \<open><\<close>, \<open>>\<close>, \<open>&\<close> are written as a \<open>u00XX\<close> escape; a byte that starts
  no well-formed encoding is written as the escape of U+FFFD; U+2028 and U+2029 are
  escaped; every other code point is copied.

  \<open>unquote\<close> reads a string literal from behind its opening quote to its closing quote and
  returns the string it denotes and the text behind it, or \<open>None\<close> where the scanner of the
  decoder reports a syntax error (a control character, an unknown escape, no closing
  quote).  It joins the two escapes of a surrogate pair, reads a lone surrogate as U+FFFD
  and replaces a byte that starts no well-formed encoding by U+FFFD.
\<close>

definition htmlSafeSet :: "char \<Rightarrow> bool" where
  "htmlSafeSet c \<longleftrightarrow>
     in_range 0x20 0x7F c \<and> c \<noteq> CHR 0x22 \<and> c \<noteq> CHR 0x5C \<and> c \<noteq> CHR ''<'' \<and> c \<noteq> CHR ''>'' \<and> c \<noteq> CHR ''&''"

definition hex :: "nat \<Rightarrow> char" where
  "hex n = ''0123456789abcdef'' ! n"

definition escape :: "char \<Rightarrow> string" where
  "escape c =
     (if c = CHR 0x5C \<or> c = CHR 0x22 then [CHR 0x5C, c]
      else if c = CHR 0x08 then [CHR 0x5C, CHR ''b'']
      else if c = CHR 0x0C then [CHR 0x5C, CHR ''f'']
      else if c = CHR 0x0A then [CHR 0x5C, CHR ''n'']
      else if c = CHR 0x0D then [CHR 0x5C, CHR ''r'']
      else if c = CHR 0x09 then [CHR 0x5C, CHR ''t'']
      else [CHR 0x5C, CHR ''u'', CHR ''0'', CHR ''0'', hex (of_char c div 16), hex (of_char c mod 16)])"

function appendString_body :: "string \<Rightarrow> string" where
  "appendString_body [] = []"
| "appendString_body (c # cs) =
     (if of_char c < (0x80 :: nat) then
        (if htmlSafeSet c then [c] else escape c) @ appendString_body cs
      else if utf8_size (c # cs) = 0 then CHR 0x5C # ''ufffd'' @ appendString_body cs
      else if take 3 (c # cs) = [CHR 0xE2, CHR 0x80, CHR 0xA8] then
        CHR 0x5C # ''u2028'' @ appendString_body (drop (utf8_size (c # cs)) (c # cs))
      else if take 3 (c # cs) = [CHR 0xE2, CHR 0x80, CHR 0xA9] then
        CHR 0x5C # ''u2029'' @ appendString_body (drop (utf8_size (c # cs)) (c # cs))
      else take (utf8_size (c # cs)) (c # cs) @
           appendString_body (drop (utf8_size (c # cs)) (c # cs)))"
  by pat_completeness auto
termination
  by (relation "measure length") auto

definition appendString :: "string \<Rightarrow> string" where
  "appendString s = CHR 0x22 # appendString_body s @ [CHR 0x22]"

definition hex_value :: "char \<Rightarrow> nat option" where
  "hex_value c =
     (if in_range 0x30 0x39 c then Some (of_char c - 0x30)
      else if in_range 0x61 0x66 c then Some (of_char c - 0x61 + 10)
      else if in_range 0x41 0x46 c then Some (of_char c - 0x41 + 10)
      else None)"

definition getu4 :: "string \<Rightarrow> nat option" where
  "getu4 s =
     (case s of
        a # b # c # d # rest \<Rightarrow>
          (case (hex_value a, hex_value b, hex_value c, hex_value d) of
             (Some x3, Some x2, Some x1, Some x0) \<Rightarrow> Some (((x3 * 16 + x2) * 16 + x1) * 16 + x0)
           | _ \<Rightarrow> None)
      | _ \<Rightarrow> None)"

definition utf16_DecodeRune :: "nat \<Rightarrow> string \<Rightarrow> nat option" where
  "utf16_DecodeRune r1 s =
     (case s of
        b # u # rest \<Rightarrow>
          if b = CHR 0x5C \<and> u = CHR ''u'' then
            (case getu4 rest of
               Some r2 \<Rightarrow>
                 if 0xD800 \<le> r1 \<and> r1 < 0xDC00 \<and> 0xDC00 \<le> r2 \<and> r2 < 0xE000
                 then Some ((r1 - 0xD800) * 1024 + (r2 - 0xDC00) + 0x10000) else None
             | None \<Rightarrow> None)
          else None
      | _ \<Rightarrow> None)"

definition unescape :: "char \<Rightarrow> char option" where
  "unescape e =
     (if e = CHR 0x22 \<or> e = CHR 0x5C \<or> e = CHR ''/'' then Some e
      else if e = CHR ''b'' then Some (CHR 0x08)
      else if e = CHR ''f'' then Some (CHR 0x0C)
      else if e = CHR ''n'' then Some (CHR 0x0A)
      else if e = CHR ''r'' then Some (CHR 0x0D)
      else if e = CHR ''t'' then Some (CHR 0x09)
      else None)"

definition emit :: "string \<Rightarrow> (string \<times> string) option \<Rightarrow> (string \<times> string) option" where
  "emit out r = (case r of None \<Rightarrow> None | Some (s, rest) \<Rightarrow> Some (out @ s, rest))"

function unquote :: "string \<Rightarrow> (string \<times> string) option" where
  "unquote [] = None"
| "unquote (c # cs) =
     (if c = CHR 0x22 then Some ([], cs)
      else if c = CHR 0x5C then
        (case cs of
           [] \<Rightarrow> None
         | e # r \<Rightarrow>
             if e = CHR ''u'' then
               (case getu4 r of
                  None \<Rightarrow> None
                | Some rr \<Rightarrow>
                    if 0xD800 \<le> rr \<and> rr < 0xE000 then
                      (case utf16_DecodeRune rr (drop 4 r) of
                         Some dec \<Rightarrow> emit (utf8_EncodeRune dec) (unquote (drop 10 r))
                       | None \<Rightarrow> emit (utf8_EncodeRune 0xFFFD) (unquote (drop 4 r)))
                    else emit (utf8_EncodeRune rr) (unquote (drop 4 r)))
             else (case unescape e of
                     None \<Rightarrow> None
                   | Some x \<Rightarrow> emit [x] (unquote r)))
      else if of_char c < (0x20 :: nat) then None
      else if of_char c < (0x80 :: nat) then emit [c] (unquote cs)
      else if utf8_size (c # cs) = 0 then emit (utf8_EncodeRune 0xFFFD) (unquote cs)
      else emit (take (utf8_size (c # cs)) (c # cs)) (unquote (drop (utf8_size (c # cs)) (c # cs))))"
  by pat_completeness auto
termination
  by (relation "measure length") auto

subsection \<open>Integer literals\<close>

text \<open>
  \<open>strconv_FormatInt\<close> is \<open>strconv.FormatInt(i, 10)\<close>, which writes a field of type \<open>int\<close>.
  \<open>scan_integer\<close> reads a JSON number that is an integer: an optional minus sign, then
  \<open>0\<close> or a digit from 1 to 9 followed by digits.  A fraction or an exponent behind it makes
  the decoder fail on a field of type \<open>int\<close> (\<open>strconv.ParseInt\<close> refuses the literal), and
  so does a value outside 64 bits (\<open>decode_int\<close> below).
\<close>

definition is_digit :: "char \<Rightarrow> bool" where
  "is_digit c \<longleftrightarrow> in_range 0x30 0x39 c"

definition digit :: "nat \<Rightarrow> char" where
  "digit n = ''0123456789'' ! n"

function formatBits :: "nat \<Rightarrow> string" where
  "formatBits n = (if n < 10 then [digit n] else formatBits (n div 10) @ [digit (n mod 10)])"
  by pat_completeness auto
termination
  by (relation "measure id") auto

declare formatBits.simps [simp del]

definition strconv_FormatInt :: "int \<Rightarrow> string" where
  "strconv_FormatInt i =
     (if i < 0 then CHR ''-'' # formatBits (nat (- i)) else formatBits (nat i))"

fun scan_digits :: "nat \<Rightarrow> string \<Rightarrow> nat \<times> string" where
  "scan_digits acc [] = (acc, [])"
| "scan_digits acc (c # cs) =
     (if is_digit c then scan_digits (10 * acc + (of_char c - 0x30)) cs else (acc, c # cs))"

definition scan_integer :: "string \<Rightarrow> (int \<times> string) option" where
  "scan_integer s =
     (let neg = (case s of [] \<Rightarrow> False | c # r \<Rightarrow> c = CHR ''-'');
          s1 = (if neg then tl s else s)
      in case s1 of
           [] \<Rightarrow> None
         | c # r \<Rightarrow>
             if \<not> is_digit c then None
             else (case (if c = CHR ''0'' then (0, r) else scan_digits 0 s1) of
                     (n, rest) \<Rightarrow>
                       if (case rest of
                             [] \<Rightarrow> False
                           | x # xs \<Rightarrow> is_digit x \<or> x = CHR ''.'' \<or> x = CHR ''e'' \<or> x = CHR ''E'')
                       then None
                       else Some (if neg then - int n else int n, rest)))"

subsection \<open>Values and objects\<close>

text \<open>
  A field of type \<open>string\<close> takes a string literal and a field of type \<open>int\<close> an integer
  literal; \<open>null\<close> leaves the field as it is.  \<open>decode_object\<close> reads an object, member by
  member, or \<open>null\<close>; \<open>member key s v\<close> stores into \<open>v\<close> the value that the text \<open>s\<close> starts
  with, under the name \<open>key\<close>.  White space may stand between any two tokens.  The loop over
  the members counts down a fuel: \<open>Unmarshal_ManagerMeta\<close> starts it with the length of the
  document, which is more than the document has members.
\<close>

definition is_space :: "char \<Rightarrow> bool" where
  "is_space c \<longleftrightarrow> c = CHR '' '' \<or> c = CHR 0x09 \<or> c = CHR 0x0D \<or> c = CHR 0x0A"

definition skip_space :: "string \<Rightarrow> string" where
  "skip_space s = dropWhile is_space s"

definition literal_null :: "string \<Rightarrow> string option" where
  "literal_null s = (if take 4 s = ''null'' then Some (drop 4 s) else None)"

definition decode_string :: "string \<Rightarrow> string \<Rightarrow> (string \<times> string) option" where
  "decode_string old s =
     (case s of
        [] \<Rightarrow> None
      | c # r \<Rightarrow>
          if c = CHR 0x22 then unquote r
          else (case literal_null s of None \<Rightarrow> None | Some rest \<Rightarrow> Some (old, rest)))"

definition decode_int :: "goint \<Rightarrow> string \<Rightarrow> (goint \<times> string) option" where
  "decode_int old s =
     (case s of
        [] \<Rightarrow> None
      | c # r \<Rightarrow>
          if c = CHR ''n'' then
            (case literal_null s of None \<Rightarrow> None | Some rest \<Rightarrow> Some (old, rest))
          else (case scan_integer s of
                  None \<Rightarrow> None
                | Some (i, rest) \<Rightarrow>
                    if - (2 ^ 63) \<le> i \<and> i < 2 ^ 63 then Some (word_of_int i, rest) else None))"

fun object_members ::
  "nat \<Rightarrow> (string \<Rightarrow> string \<Rightarrow> 'a \<Rightarrow> ('a \<times> string) option) \<Rightarrow> string \<Rightarrow> 'a \<Rightarrow> ('a \<times> string) option"
  where
  "object_members 0 member s v = None"
| "object_members (Suc n) member s v =
     (case skip_space s of
        [] \<Rightarrow> None
      | c # s1 \<Rightarrow>
          if c \<noteq> CHR 0x22 then None
          else (case unquote s1 of
                  None \<Rightarrow> None
                | Some (key, s2) \<Rightarrow>
                    (case skip_space s2 of
                       [] \<Rightarrow> None
                     | c2 # s3 \<Rightarrow>
                         if c2 \<noteq> CHR '':'' then None
                         else (case member key (skip_space s3) v of
                                 None \<Rightarrow> None
                               | Some (v', s4) \<Rightarrow>
                                   (case skip_space s4 of
                                      [] \<Rightarrow> None
                                    | c3 # s5 \<Rightarrow>
                                        if c3 = CHR '','' then object_members n member s5 v'
                                        else if c3 = CHR ''}'' then Some (v', s5)
                                        else None)))))"

definition decode_object ::
  "nat \<Rightarrow> (string \<Rightarrow> string \<Rightarrow> 'a \<Rightarrow> ('a \<times> string) option) \<Rightarrow> 'a \<Rightarrow> string \<Rightarrow> ('a \<times> string) option"
  where
  "decode_object fuel member init s =
     (case s of
        [] \<Rightarrow> None
      | c # r \<Rightarrow>
          if c = CHR ''{'' then
            (case skip_space r of
               [] \<Rightarrow> None
             | c1 # r1 \<Rightarrow> if c1 = CHR ''}'' then Some (init, r1) else object_members fuel member r init)
          else (case literal_null s of None \<Rightarrow> None | Some rest \<Rightarrow> Some (init, rest)))"

subsection \<open>The registry document\<close>

text \<open>
  \<open>MarshalIndent\<close> writes a map as an object with its keys sorted as byte strings, and a
  struct as an object with its fields in the order of their declaration; with the indent
  of two spaces, every member stands on a line of its own and a colon is followed by one
  space; the empty map is \<open>{}\<close>.  No value of type \<open>ManagerMeta\<close> makes it fail.  (A nil
  map, which Go writes as \<open>null\<close> and reads back as a nil map, is not told apart from the
  empty map here.)

  \<open>Unmarshal\<close> into a \<open>map[string]InstanceMeta\<close> adds one entry for each member of the
  object, a later member of the same name replacing an earlier one, each record starting
  from \<open>InstanceMeta{}\<close>.  The decoder is modelled on the documents whose records have
  members of the six names only, written exactly so, each with a string, an integer or
  \<open>null\<close> as its field asks, in any order and with any white space.  On every other text
  the model answers \<open>JsonError\<close> and the empty registry.  For a text that is not JSON, or
  holds a value of the wrong type, the real decoder returns an error as well (after it may
  have filled part of the map); a member of another name it skips, and it also accepts a
  name that differs from a tag by the case of its letters: on these documents the model
  and the decoder differ.
\<close>

definition encode_field :: "string \<Rightarrow> string \<Rightarrow> string" where
  "encode_field name v = ''    '' @ appendString name @ '': '' @ v"

definition encode_InstanceMeta :: "InstanceMeta \<Rightarrow> string" where
  "encode_InstanceMeta r =
     ''{'' @ [CHR 0x0A] @
     encode_field ''directory'' (appendString (Directory r)) @ '','' @ [CHR 0x0A] @
     encode_field ''creation_date'' (appendString (CreationDate r)) @ '','' @ [CHR 0x0A] @
     encode_field ''wordpress_version'' (appendString (WordPressVersion r)) @ '','' @ [CHR 0x0A] @
     encode_field ''db_version'' (appendString (DBVersion r)) @ '','' @ [CHR 0x0A] @
     encode_field ''wordpress_port'' (strconv_FormatInt (sint (WordPressPort r))) @ '','' @ [CHR 0x0A] @
     encode_field ''status'' (appendString (Status r)) @ [CHR 0x0A] @
     ''  }''"

definition encode_entry :: "ManagerMeta \<Rightarrow> string \<Rightarrow> string" where
  "encode_entry m k = ''  '' @ appendString k @ '': '' @ encode_InstanceMeta (the (m k))"

fun encode_entries :: "ManagerMeta \<Rightarrow> string list \<Rightarrow> string" where
  "encode_entries m [] = []"
| "encode_entries m [k] = encode_entry m k"
| "encode_entries m (k # k' # ks) = encode_entry m k @ '','' @ [CHR 0x0A] @ encode_entries m (k' # ks)"

definition encode_ManagerMeta :: "ManagerMeta \<Rightarrow> string" where
  "encode_ManagerMeta m =
     (let keys = sorted_list_of_set (dom m)
      in if keys = [] then ''{}''
         else ''{'' @ [CHR 0x0A] @ encode_entries m keys @ [CHR 0x0A] @ ''}'')"

definition MarshalIndent_ManagerMeta :: "ManagerMeta \<Rightarrow> error + bytes" where
  "MarshalIndent_ManagerMeta m = Inr (encode_ManagerMeta m)"

definition member_InstanceMeta :: "string \<Rightarrow> string \<Rightarrow> InstanceMeta \<Rightarrow> (InstanceMeta \<times> string) option" where
  "member_InstanceMeta key s r =
     (if key = ''directory'' then
        map_option (\<lambda>(v, rest). (r\<lparr>Directory := v\<rparr>, rest)) (decode_string (Directory r) s)
      else if key = ''creation_date'' then
        map_option (\<lambda>(v, rest). (r\<lparr>CreationDate := v\<rparr>, rest)) (decode_string (CreationDate r) s)
      else if key = ''wordpress_version'' then
        map_option (\<lambda>(v, rest). (r\<lparr>WordPressVersion := v\<rparr>, rest))
          (decode_string (WordPressVersion r) s)
      else if key = ''db_version'' then
        map_option (\<lambda>(v, rest). (r\<lparr>DBVersion := v\<rparr>, rest)) (decode_string (DBVersion r) s)
      else if key = ''wordpress_port'' then
        map_option (\<lambda>(v, rest). (r\<lparr>WordPressPort := v\<rparr>, rest)) (decode_int (WordPressPort r) s)
      else if key = ''status'' then
        map_option (\<lambda>(v, rest). (r\<lparr>Status := v\<rparr>, rest)) (decode_string (Status r) s)
      else None)"

definition member_ManagerMeta :: "nat \<Rightarrow> string \<Rightarrow> string \<Rightarrow> ManagerMeta \<Rightarrow> (ManagerMeta \<times> string) option" where
  "member_ManagerMeta fuel key s m =
     map_option (\<lambda>(v, rest). (m(key \<mapsto> v), rest))
       (decode_object fuel member_InstanceMeta InstanceMeta_zero s)"

definition Unmarshal_ManagerMeta :: "bytes \<Rightarrow> ManagerMeta \<times> error option" where
  "Unmarshal_ManagerMeta data =
     (case decode_object (length data) (member_ManagerMeta (length data)) Map.empty (skip_space data) of
        None \<Rightarrow> (Map.empty, Some JsonError)
      | Some (m, rest) \<Rightarrow>
          if skip_space rest = [] then (m, None) else (Map.empty, Some JsonError))"

text \<open>A codec whose registry part is the one of Go.\<close>

definition go_json :: "codec \<Rightarrow> codec" where
  "go_json cd = cd\<lparr>marshal_meta := MarshalIndent_ManagerMeta, unmarshal_meta := Unmarshal_ManagerMeta\<rparr>"

section \<open>The instance registry\<close>

text \<open>
  Go visits the keys of a map in an order the runtime chooses.  Each function with a
  \<open>for name, meta := range managerMeta\<close> takes that order as the list \<open>order\<close>; a name of
  the list that is no key of the map is passed over.  The commands return nothing: the
  model returns which of their final messages was printed.
\<close>

subsection \<open>Prune\<close>

datatype prune_outcome =
    PruneReadFailed error
  | PruneNoInstances
  | PruneNothingMissing
  | PruneCancelled "string list"
  | PruneNoChanges
  | PruneWriteFailed "string list" error
  | PruneComplete "string list"

fun pruneInstances_scan :: "os_env \<Rightarrow> ManagerMeta \<Rightarrow> string list \<Rightarrow> string list \<Rightarrow> string list" where
  "pruneInstances_scan env managerMeta [] missingInstances = missingInstances"
| "pruneInstances_scan env managerMeta (name # rest) missingInstances =
     (case managerMeta name of
        None \<Rightarrow> pruneInstances_scan env managerMeta rest missingInstances
      | Some meta \<Rightarrow>
          (case dir_stat env (Directory meta) of
             Some err \<Rightarrow>
               if err = ErrNotExist
               then pruneInstances_scan env managerMeta rest (missingInstances @ [name])
               else pruneInstances_scan env managerMeta rest missingInstances
           | None \<Rightarrow> pruneInstances_scan env managerMeta rest missingInstances))"

fun pruneInstances_delete :: "string list \<Rightarrow> ManagerMeta \<Rightarrow> bool \<Rightarrow> ManagerMeta \<times> bool" where
  "pruneInstances_delete [] managerMeta somethingChanged = (managerMeta, somethingChanged)"
| "pruneInstances_delete (name # rest) managerMeta somethingChanged =
     (case managerMeta name of
        Some _ \<Rightarrow> pruneInstances_delete rest (managerMeta(name := None)) True
      | None \<Rightarrow> pruneInstances_delete rest managerMeta somethingChanged)"

definition pruneInstances ::
  "os_env \<Rightarrow> codec \<Rightarrow> string list \<Rightarrow> bool \<Rightarrow> world \<Rightarrow> prune_outcome \<times> world" where
  "pruneInstances env cd order confirm w =
     (case readManagerMeta env cd w of
        (Inl err, w1) \<Rightarrow> (PruneReadFailed err, w1)
      | (Inr managerMeta, w1) \<Rightarrow>
          if managerMeta = Map.empty then (PruneNoInstances, w1)
          else
            (let missingInstances = pruneInstances_scan env managerMeta order [] in
             if length missingInstances = 0 then (PruneNothingMissing, w1)
             else
               (let w2 = printWarning ''%d Instance(s) Missing Directories:'' w1 in
                if \<not> confirm then (PruneCancelled missingInstances, w2)
                else
                  (case pruneInstances_delete missingInstances managerMeta False of
                     (managerMeta', somethingChanged) \<Rightarrow>
                       if \<not> somethingChanged then (PruneNoChanges, w2)
                       else
                         (case writeManagerMeta env cd managerMeta' w2 of
                            (Some err, w3) \<Rightarrow> (PruneWriteFailed missingInstances err, w3)
                          | (None, w3) \<Rightarrow> (PruneComplete missingInstances, w3))))))"

subsection \<open>Register\<close>

text \<open>
  \<open>registerInstance\<close> is modelled from the point where the path entered has been checked
  and made absolute.  The answers to its later prompts are inputs: the port typed in
  (\<open>None\<close> when the prompt is cancelled), the instance name left in the name field
  (\<open>None\<close> when cancelled) and the answer to "Overwrite existing registration entry?".
\<close>

record register_answers =
  port_answer :: "goint option"
  name_answer :: "string option"
  overwrite_answer :: bool

datatype register_outcome =
    RegisterInputCancelled
  | RegisterNameEmpty
  | RegisterReadFailed error
  | RegisterCancelled
  | RegisterWriteFailed error
  | Registered

text \<open>Steps 2 and 3: the record to be stored, or \<open>None\<close> when the port prompt is cancelled.\<close>

definition registerInstance_localMeta ::
  "os_env \<Rightarrow> codec \<Rightarrow> path \<Rightarrow> register_answers \<Rightarrow> world \<Rightarrow> InstanceMeta option \<times> world" where
  "registerInstance_localMeta env cd instancePath answers w =
     (let (localMeta0, w1) =
            (case readInstanceMeta env cd instancePath w of
               Inl errReadLocal \<Rightarrow>
                 (InstanceMeta_zero,
                  if \<not> is_not_exist errReadLocal
                  then printWarning ''Could Not Read Local Meta'' w else w)
             | Inr meta \<Rightarrow> (meta, w));
          localMeta1 = localMeta0\<lparr>Directory := instancePath\<rparr>;
          setDefaults = (\<lambda>m :: InstanceMeta.
            let m1 = (if CreationDate m = [] then m\<lparr>CreationDate := ''Unknown''\<rparr> else m)
            in if Status m1 = [] then m1\<lparr>Status := ''Unknown''\<rparr> else m1)
      in if WordPressPort localMeta1 = 0 then
           (let port = (case dotenv_port env instancePath of
                          Some p \<Rightarrow> if 0 <s p then p else 0
                        | None \<Rightarrow> 0)
            in if port = 0 then
                 (let w2 = printWarning ''WordPress Port Unknown'' w1 in
                  case port_answer answers of
                    None \<Rightarrow> (None, w2)
                  | Some p \<Rightarrow> (Some (setDefaults (localMeta1\<lparr>WordPressPort := p\<rparr>)), w2))
               else (Some (setDefaults (localMeta1\<lparr>WordPressPort := port\<rparr>)), w1))
         else (Some (setDefaults localMeta1), w1))"

text \<open>The conflict loop; \<open>conflictMessage\<close> only feeds the warning and is left out.\<close>

fun registerInstance_conflict :: "ManagerMeta \<Rightarrow> string list \<Rightarrow> string \<Rightarrow> path \<Rightarrow> bool" where
  "registerInstance_conflict managerMeta [] instanceName instancePath = False"
| "registerInstance_conflict managerMeta (name # rest) instanceName instancePath =
     (case managerMeta name of
        None \<Rightarrow> registerInstance_conflict managerMeta rest instanceName instancePath
      | Some meta \<Rightarrow>
          if name = instanceName then True
          else if Directory meta = instancePath then True
          else registerInstance_conflict managerMeta rest instanceName instancePath)"

definition registerInstance ::
  "os_env \<Rightarrow> codec \<Rightarrow> string list \<Rightarrow> path \<Rightarrow> register_answers \<Rightarrow> world \<Rightarrow> register_outcome \<times> world"
where
  "registerInstance env cd order instancePath answers w =
     (case registerInstance_localMeta env cd instancePath answers w of
        (None, w1) \<Rightarrow> (RegisterInputCancelled, w1)
      | (Some localMeta, w1) \<Rightarrow>
          (case name_answer answers of
             None \<Rightarrow> (RegisterInputCancelled, w1)
           | Some instanceName \<Rightarrow>
               if instanceName = [] then (RegisterNameEmpty, w1)
               else
                 (case readManagerMeta env cd w1 of
                    (Inl err, w2) \<Rightarrow> (RegisterReadFailed err, w2)
                  | (Inr managerMeta, w2) \<Rightarrow>
                      (let conflictFound =
                             registerInstance_conflict managerMeta order instanceName instancePath;
                           w3 = (if conflictFound then printWarning ''Registration Conflict'' w2
                                 else w2)
                       in if conflictFound \<and> \<not> overwrite_answer answers
                          then (RegisterCancelled, w3)
                          else
                            (let w4 = (if conflictFound
                                       then printWarning
                                              ''Overwriting previous registration entry.'' w3
                                       else w3)
                             in case writeManagerMeta env cd
                                       (managerMeta(instanceName \<mapsto> localMeta)) w4 of
                                  (Some err, w5) \<Rightarrow> (RegisterWriteFailed err, w5)
                                | (None, w5) \<Rightarrow> (Registered, w5))))))"

subsection \<open>Status refresh\<close>

datatype status_outcome =
    StatusReadFailed error
  | StatusNoInstances
  | StatusWriteFailed error
  | StatusesUpdated nat
  | StatusesUpToDate

definition updateStatuses_newStatus :: "os_env \<Rightarrow> path \<Rightarrow> string" where
  "updateStatuses_newStatus env instancePath =
     (if dir_stat env instancePath = Some ErrNotExist then ''Directory Missing''
      else
        (let runningServices = docker_ps env instancePath in
         if Contains runningServices ''wordpress'' \<or> Contains runningServices ''wp'' \<or>
            Contains runningServices ''web'' \<or> Contains runningServices ''app''
         then ''Running'' else ''Stopped''))"

text \<open>The update of the instance's own marker file, done when its directory is there.\<close>

definition updateStatuses_local :: "os_env \<Rightarrow> codec \<Rightarrow> path \<Rightarrow> string \<Rightarrow> world \<Rightarrow> world" where
  "updateStatuses_local env cd instancePath newStatus w =
     (if dir_stat env instancePath = None then
        (case readInstanceMeta env cd instancePath w of
           Inl readErr \<Rightarrow> printWarning ''Local Meta Read Error for %s'' w
         | Inr localMeta \<Rightarrow>
             (case writeInstanceMeta env cd instancePath (localMeta\<lparr>Status := newStatus\<rparr>) w of
                (Some writeErr, w1) \<Rightarrow> printWarning ''Local Meta Write Error for %s'' w1
              | (None, w1) \<Rightarrow> w1))
      else w)"

fun updateStatuses_loop ::
  "os_env \<Rightarrow> codec \<Rightarrow> string list \<Rightarrow> ManagerMeta \<times> nat \<times> bool \<times> world \<Rightarrow>
     ManagerMeta \<times> nat \<times> bool \<times> world"
where
  "updateStatuses_loop env cd [] st = st"
| "updateStatuses_loop env cd (instanceName # rest) (managerMeta, updatedCount, somethingChanged, w) =
     (case managerMeta instanceName of
        None \<Rightarrow> updateStatuses_loop env cd rest (managerMeta, updatedCount, somethingChanged, w)
      | Some meta \<Rightarrow>
          (let instancePath = Directory meta;
               originalStatus = Status meta;
               newStatus = updateStatuses_newStatus env instancePath
           in if originalStatus \<noteq> newStatus then
                updateStatuses_loop env cd rest
                  (managerMeta(instanceName \<mapsto> meta\<lparr>Status := newStatus\<rparr>),
                   updatedCount + 1, True,
                   updateStatuses_local env cd instancePath newStatus w)
              else
                updateStatuses_loop env cd rest (managerMeta, updatedCount, somethingChanged, w)))"

definition updateStatuses :: "os_env \<Rightarrow> codec \<Rightarrow> string list \<Rightarrow> world \<Rightarrow> status_outcome \<times> world" where
  "updateStatuses env cd order w =
     (case readManagerMeta env cd w of
        (Inl err, w1) \<Rightarrow> (StatusReadFailed err, w1)
      | (Inr managerMeta, w1) \<Rightarrow>
          if managerMeta = Map.empty
          then (StatusNoInstances, printWarning ''No Instances Found'' w1)
          else
            (case updateStatuses_loop env cd order (managerMeta, 0, False, w1) of
               (managerMeta', updatedCount, somethingChanged, w2) \<Rightarrow>
                 if somethingChanged then
                   (case writeManagerMeta env cd managerMeta' w2 of
                      (Some err, w3) \<Rightarrow> (StatusWriteFailed err, w3)
                    | (None, w3) \<Rightarrow> (StatusesUpdated updatedCount, w3))
                 else (StatusesUpToDate, w2)))"

section \<open>A concrete machine\<close>

text \<open>
  One user, one configuration directory, no faults; \<open>/sites/b\<close> is gone, the containers
  of \<open>/sites/a\<close> are running.  The codec is a toy one: it renders the entries \<open>a\<close>, \<open>b\<close>
  and \<open>c\<close> of a registry and reads back the one document it knows.
\<close>

definition demo_env :: os_env where
  "demo_env =
     \<lparr>user_config_dir = Inr ''/home/dev/.config'',
      mkdir_fault = (\<lambda>p. None),
      dir_stat = (\<lambda>p. if p = ''/sites/b'' then Some ErrNotExist else None),
      read_fault = (\<lambda>p. None),
      open_fault = (\<lambda>p. None),
      create_fault = (\<lambda>p. None),
      temp_names = [''4217''],
      write_fault = (\<lambda>p. None),
      close_fault = (\<lambda>p. None),
      rename_fault = (\<lambda>p. None),
      remove_fault = (\<lambda>p. None),
      docker_ps = (\<lambda>p. if p = ''/sites/a'' then ''wordpress'' else []),
      dotenv_port = (\<lambda>p. None)\<rparr>"

text \<open>The same machine with a disk that fails when a temporary file is closed.\<close>

definition faulty_env :: os_env where
  "faulty_env = demo_env\<lparr>close_fault := (\<lambda>p. if HasSuffix p ''.tmp'' then Some ErrIO else None)\<rparr>"

definition demo_metaPath :: path where
  "demo_metaPath = ''/home/dev/.config/wpid/.wpid-instances.json''"

definition demo_configPath :: path where
  "demo_configPath = ''/home/dev/.config/wpid/.wpid-config.json''"

definition inst_a :: InstanceMeta where
  "inst_a = \<lparr>Directory = ''/sites/a'', CreationDate = ''2025-05-01'', WordPressVersion = ''6.5'',
             DBVersion = ''8.0'', WordPressPort = 11001, Status = ''Stopped''\<rparr>"

definition inst_b :: InstanceMeta where
  "inst_b = \<lparr>Directory = ''/sites/b'', CreationDate = ''2025-05-02'', WordPressVersion = ''6.4'',
             DBVersion = ''8.0'', WordPressPort = 11002, Status = ''Stopped''\<rparr>"

definition inst_c :: InstanceMeta where
  "inst_c = \<lparr>Directory = ''/sites/c'', CreationDate = ''2025-05-03'', WordPressVersion = ''6.5'',
             DBVersion = ''8.4'', WordPressPort = 11003, Status = ''Stopped''\<rparr>"

definition demo_registry :: ManagerMeta where
  "demo_registry = [''a'' \<mapsto> inst_a, ''b'' \<mapsto> inst_b, ''c'' \<mapsto> inst_c]"

definition demo_render :: "ManagerMeta \<Rightarrow> bytes" where
  "demo_render m =
     concat (map (\<lambda>k. case m k of
                         None \<Rightarrow> []
                       | Some r \<Rightarrow> k @ ''='' @ Directory r @ '','' @ Status r @ '';'')
               [''a'', ''b'', ''c''])"

definition demo_codec :: codec where
  "demo_codec =
     \<lparr>marshal_meta = (\<lambda>m. Inr (demo_render m)),
      unmarshal_meta = (\<lambda>d. if d = demo_render demo_registry then (demo_registry, None)
                             else (Map.empty, Some JsonError)),
      unmarshal_empty_object = (\<lambda>d. False),
      marshal_config = (\<lambda>c. Inr (SitesBaseDirectory c @ ''|'' @ Theme c)),
      unmarshal_config = (\<lambda>d. (GlobalManagerConfig_zero, Some JsonError)),
      marshal_instance = (\<lambda>r. Inr (Directory r @ '','' @ Status r)),
      unmarshal_instance = (\<lambda>d. (InstanceMeta_zero, Some JsonError))\<rparr>"

definition demo_world :: world where
  "demo_world = \<lparr>files = [demo_metaPath \<mapsto> demo_render demo_registry], log = []\<rparr>"

definition empty_world :: world where
  "empty_world = \<lparr>files = Map.empty, log = []\<rparr>"

definition corrupt_world :: world where
  "corrupt_world = \<lparr>files = [demo_metaPath \<mapsto> ''{ not json'', demo_configPath \<mapsto> ''{ not json''],
     log = []\<rparr>"

section \<open>Notions used in the statements\<close>

text \<open>
  \<open>persists target w\<close> counts the renames onto \<open>target\<close> in the log; \<open>missing_names\<close> are the
  registered names whose directory \<open>os.Stat\<close> reports as not existing; \<open>refreshed\<close> is a
  record with its status set to the one \<open>updateStatuses\<close> computes for its directory.
\<close>

definition persists :: "path \<Rightarrow> world \<Rightarrow> nat" where
  "persists target w =
     length (filter (\<lambda>ev. case ev of Renamed src dst \<Rightarrow> dst = target | _ \<Rightarrow> False) (log w))"

definition missing_names :: "os_env \<Rightarrow> ManagerMeta \<Rightarrow> string set" where
  "missing_names env managerMeta =
     {name. \<exists>meta. managerMeta name = Some meta \<and> dir_stat env (Directory meta) = Some ErrNotExist}"

definition refreshed :: "os_env \<Rightarrow> InstanceMeta \<Rightarrow> InstanceMeta" where
  "refreshed env meta = meta\<lparr>Status := updateStatuses_newStatus env (Directory meta)\<rparr>"

text \<open>A record whose five strings are well-formed UTF-8.\<close>

definition utf8_InstanceMeta :: "InstanceMeta \<Rightarrow> bool" where
  "utf8_InstanceMeta r \<longleftrightarrow>
     utf8_ValidString (Directory r) \<and> utf8_ValidString (CreationDate r) \<and>
     utf8_ValidString (WordPressVersion r) \<and> utf8_ValidString (DBVersion r) \<and>
     utf8_ValidString (Status r)"

text \<open>Answers to the prompts of \<open>registerInstance\<close>, and the record they lead to.\<close>

definition demo_answers :: register_answers where
  "demo_answers = \<lparr>port_answer = Some 11009, name_answer = Some ''a'', overwrite_answer = True\<rparr>"

definition inst_new :: InstanceMeta where
  "inst_new = \<lparr>Directory = ''/sites/new'', CreationDate = ''Unknown'', WordPressVersion = [],
     DBVersion = [], WordPressPort = 11009, Status = ''Unknown''\<rparr>"


section \<open>Properties of the port allocator\<close>

subsection \<open>Arithmetic of the range\<close>

lemma sint_succ_below:
  fixes i m :: goint
  assumes "i <s m"
  shows "sint (i + 1) = sint i + 1"
proof -
  have "sint m < 2 ^ 63" using sint_lt [of m] by simp
  moreover have "- (2 ^ 63) \<le> sint i" using sint_ge [of i] by simp
  moreover have "sint i < sint m" using assms by (simp add: word_sless_alt)
  ultimately have "signed_take_bit 63 (sint i + 1) = sint i + 1"
    by (simp add: signed_take_bit_int_eq_self)
  then show ?thesis by (simp add: sint_word_ariths)
qed



lemma stb_pos_id:
  fixes D :: int
  assumes "1 \<le> D" "D \<le> 2 ^ 64" "0 < signed_take_bit 63 D"
  shows "signed_take_bit 63 D = D"
proof (cases "D < 2 ^ 63")
  case True
  with assms show ?thesis by (simp add: signed_take_bit_int_eq_self)
next
  case False
  then have "2 ^ 64 \<le> D + 2 ^ 63" by simp
  moreover have "D + 2 ^ 63 < 2 * 2 ^ 64" using assms by simp
  ultimately have "(D + 2 ^ 63) mod 2 ^ 64 = D + 2 ^ 63 - 2 ^ 64"
    by (smt (verit) mod_pos_pos_trivial minus_mod_self2 mod_add_self2)
  then have "signed_take_bit 63 D = D - 2 ^ 64"
    by (simp add: signed_take_bit_eq_take_bit_shift take_bit_eq_mod)
  with assms show ?thesis by simp
qed

lemma span_no_wrap:
  fixes s e :: goint
  assumes "\<not> e <s s" "0 < sint (e - s + 1)"
  shows "sint (e - s + 1) = sint e - sint s + 1"
proof -
  have le: "sint s \<le> sint e" using assms(1) by (simp add: word_sless_alt)
  have b: "sint e < 2 ^ 63" "- (2 ^ 63) \<le> sint s" "- (2 ^ 63) \<le> sint e" "sint s < 2 ^ 63"
    using sint_lt [of e] sint_ge [of s] sint_lt [of s] sint_ge [of e] by simp_all
  have "e - s + 1 = (word_of_int (sint e - sint s + 1) :: goint)" by simp
  then have eq: "sint (e - s + 1) = signed_take_bit 63 (sint e - sint s + 1)"
    by (simp only: sint_sbintrunc') simp
  have "signed_take_bit 63 (sint e - sint s + 1) = sint e - sint s + 1"
    by (rule stb_pos_id) (use le b assms(2) eq in simp_all)
  with eq show ?thesis by simp
qed

lemma drawn_port_in_range:
  fixes s e :: goint
  assumes "\<not> e <s s" "0 < sint (e - s + 1)" "v < nat (sint (e - s + 1))"
  shows "s \<le>s word_of_nat v + s \<and> word_of_nat v + s \<le>s e"
proof -
  have span: "sint (e - s + 1) = sint e - sint s + 1" by (rule span_no_wrap [OF assms(1,2)])
  have b: "sint e < 2 ^ 63" "- (2 ^ 63) \<le> sint s"
    using sint_lt [of e] sint_ge [of s] by simp_all
  have v: "int v \<le> sint e - sint s" using assms(3) span by linarith
  have "word_of_nat v + s = (word_of_int (int v + sint s) :: goint)" by simp
  then have "sint (word_of_nat v + s :: goint) = signed_take_bit 63 (int v + sint s)"
    by (simp only: sint_sbintrunc') simp
  also have "\<dots> = int v + sint s"
    using v b by (simp add: signed_take_bit_int_eq_self)
  finally have "sint (word_of_nat v + s :: goint) = int v + sint s" .
  with v show ?thesis by (simp add: word_sle_eq)
qed



subsection \<open>The search loop\<close>


lemma loop_sound:
  "findAvailablePort_loop env s e m i used tr = (Returned (Inr p), used', tr') \<Longrightarrow> \<not> e <s s \<Longrightarrow>
     s \<le>s p \<and> p \<le>s e \<and> used p = None"
proof (induction env s e m i used tr rule: findAvailablePort_loop.induct)
  case (1 env s e m i used tr)
  let ?n = "sint (e - s + 1)"
  show ?case
  proof (cases "i <s m")
    case False
    with "1.prems"(1) show ?thesis
      by (subst (asm) findAvailablePort_loop.simps) (simp add: Let_def)
  next
    case im: True
    show ?thesis
    proof (cases "rand_Int (rand_src env (unat i)) ?n")
      case RandPanic
      with im "1.prems"(1) show ?thesis
        by (subst (asm) findAvailablePort_loop.simps) (simp add: Let_def)
    next
      case RandErr
      with im "1.prems"(1)
      have "findAvailablePort_loop env s e m (i + 1) used (tr @ [DrawRandom]) =
              (Returned (Inr p), used', tr')"
        by (subst (asm) findAvailablePort_loop.simps) (simp add: Let_def)
      with "1.IH"(1) [OF im RandErr] "1.prems"(2) show ?thesis by simp
    next
      case (RandOk v)
      let ?port = "word_of_nat v + s :: goint"
      from RandOk have npos: "0 < ?n" and vlt: "v < nat ?n"
        by (auto simp: rand_Int_def split: if_splits option.splits)
      have rng: "s \<le>s ?port \<and> ?port \<le>s e"
        by (rule drawn_port_in_range [OF "1.prems"(2) npos vlt])
      show ?thesis
      proof (cases "used ?port")
        case (Some b)
        with im RandOk "1.prems"(1)
        have "findAvailablePort_loop env s e m (i + 1) used (tr @ [DrawRandom]) =
                (Returned (Inr p), used', tr')"
          by (subst (asm) findAvailablePort_loop.simps) (simp add: Let_def)
        with "1.IH"(3) [OF im RandOk refl Some] "1.prems"(2) show ?thesis by simp
      next
        case None
        show ?thesis
        proof (cases "isPortAvailable env (unat i) ?port")
          case True
          with im RandOk None "1.prems"(1) have "p = ?port"
            by (subst (asm) findAvailablePort_loop.simps) (simp add: Let_def)
          with rng None show ?thesis by simp
        next
          case False
          with im RandOk None "1.prems"(1)
          have "findAvailablePort_loop env s e m (i + 1) (used(?port \<mapsto> True))
                  (tr @ [DrawRandom, Probe ?port]) = (Returned (Inr p), used', tr')"
            by (subst (asm) findAvailablePort_loop.simps) (simp add: Let_def)
          then have "s \<le>s p \<and> p \<le>s e \<and> (used(?port \<mapsto> True)) p = None"
            using "1.prems"(2) by (rule "1.IH"(2) [OF im RandOk refl None False])
          then show ?thesis by (auto split: if_splits)
        qed
      qed
    qed
  qed
qed

lemma attempts_snoc [simp]:
  "attempts (tr @ [DrawRandom]) = Suc (attempts tr)"
  "attempts (tr @ [DrawRandom, Probe q]) = Suc (attempts tr)"
  by (simp_all add: attempts_def)

lemma loop_budget:
  "0 < sint (e - s + 1) \<Longrightarrow>
   budget_ok env s e (attempts tr + nat (sint m - sint i))
     (findAvailablePort_loop env s e m i used tr)"
proof (induction env s e m i used tr rule: findAvailablePort_loop.induct)
  case (1 env s e m i used tr)
  let ?n = "sint (e - s + 1)"
  show ?case
  proof (cases "i <s m")
    case False
    then have "nat (sint m - sint i) = 0" by (simp add: word_sless_alt)
    with False show ?thesis
      by (subst findAvailablePort_loop.simps) (simp add: budget_ok_def)
  next
    case im: True
    then have step: "nat (sint m - sint i) = Suc (nat (sint m - sint (i + 1)))"
      by (simp add: sint_succ_below [OF im] word_sless_alt)
    show ?thesis
    proof (cases "rand_Int (rand_src env (unat i)) ?n")
      case RandPanic
      with "1.prems" show ?thesis by (simp add: rand_Int_def split: if_splits option.splits)
    next
      case RandErr
      from "1.IH"(1) [OF im RandErr "1.prems"] im RandErr step show ?thesis
        by (subst findAvailablePort_loop.simps) simp
    next
      case (RandOk v)
      let ?port = "word_of_nat v + s :: goint"
      show ?thesis
      proof (cases "used ?port")
        case (Some b)
        from "1.IH"(3) [OF im RandOk refl Some "1.prems"] im RandOk Some step show ?thesis
          by (subst findAvailablePort_loop.simps) (simp add: Let_def)
      next
        case None
        show ?thesis
        proof (cases "isPortAvailable env (unat i) ?port")
          case True
          with im RandOk None step show ?thesis
            by (subst findAvailablePort_loop.simps)
              (auto simp: Let_def isPortAvailable_def budget_ok_def)
        next
          case False
          have eq: "findAvailablePort_loop env s e m i used tr =
                  findAvailablePort_loop env s e m (i + 1) (used(?port \<mapsto> True))
                    (tr @ [DrawRandom, Probe ?port])"
            using im RandOk None False
            by (subst findAvailablePort_loop.simps) (simp add: Let_def)
          have "budget_ok env s e
                  (attempts (tr @ [DrawRandom, Probe ?port]) + nat (sint m - sint (i + 1)))
                  (findAvailablePort_loop env s e m (i + 1) (used(?port \<mapsto> True))
                    (tr @ [DrawRandom, Probe ?port]))"
            by (rule "1.IH"(2) [OF im RandOk refl None False "1.prems"])
          then show ?thesis unfolding eq step by simp
        qed
      qed
    qed
  qed
qed

lemma stb_le_self:
  fixes x :: int
  assumes "0 \<le> x"
  shows "signed_take_bit 63 x \<le> x"
proof -
  have "(x + 2 ^ 63) mod 2 ^ 64 \<le> x + 2 ^ 63"
    using assms by (intro zmod_le_nonneg_dividend) simp
  then show ?thesis
    by (simp add: signed_take_bit_eq_take_bit_shift take_bit_eq_mod)
qed

lemma doubled_word:
  fixes s e :: goint
  shows "sint ((e - s + 1) * 2) = signed_take_bit 63 (2 * (sint e - sint s + 1))"
proof -
  have "(e - s + 1) * 2 = (word_of_int (2 * (sint e - sint s + 1)) :: goint)" by simp
  then show ?thesis by (simp only: sint_sbintrunc') simp
qed

lemma span_fits:
  fixes s e :: goint
  assumes "s \<le>s e" "sint e - sint s + 1 < 2 ^ 63"
  shows "sint (e - s + 1) = sint e - sint s + 1"
proof -
  have le: "sint s \<le> sint e" using assms(1) by (simp add: word_sle_eq)
  have "e - s + 1 = (word_of_int (sint e - sint s + 1) :: goint)" by simp
  then have "sint (e - s + 1) = signed_take_bit 63 (sint e - sint s + 1)"
    by (simp only: sint_sbintrunc') simp
  also have "\<dots> = sint e - sint s + 1"
    using le assms(2) by (simp add: signed_take_bit_int_eq_self)
  finally show ?thesis .
qed

lemma loop_not_entered:
  "\<not> i <s m \<Longrightarrow>
     findAvailablePort_loop env s e m i used tr = (Returned (Inl (NoAvailablePort s e)), used, tr)"
  by (subst findAvailablePort_loop.simps) simp

text \<open>
  Outside these ranges the arithmetic of \<open>int\<close> wraps: for the range from \<open>-1\<close> to the
  largest \<open>int\<close> the size of the range wraps to a negative number, the attempt budget to
  2, and the first \<open>rand.Int\<close> panics.
\<close>

lemma findAvailablePort_wrapped_range:
  "fst (findAvailablePort env (- 1) 0x7FFFFFFFFFFFFFFF usedPorts) = Panicked"
  by (simp add: findAvailablePort_def findAvailablePort_loop.simps word_sless_alt rand_Int_def)

subsection \<open>Claims about the port allocator\<close>

text \<open>
  Claim C2.  Whenever \<open>findAvailablePort\<close> returns a port, that port lies in the inclusive
  range \<open>[startPort, endPort]\<close> and is not a key of the \<open>usedPorts\<close> map that was passed in.
\<close>

theorem findAvailablePort_in_range_unclaimed: "findAvailablePort env startPort endPort usedPorts = (Returned (Inr port), used', tr) \<Longrightarrow>
   startPort \<le>s port \<and> port \<le>s endPort \<and> usedPorts port = None \<and> port \<notin> dom usedPorts"
  by (auto simp: findAvailablePort_def split: if_splits dest: loop_sound)



theorem findAvailablePort_in_range_unclaimed_witness:
  "findAvailablePort scenario_env 8000 8005 scenario_claimed =
     (Returned (Inr 8004), scenario_claimed(8002 \<mapsto> True, 8003 \<mapsto> True),
      [DrawRandom, Probe 8002, DrawRandom, Probe 8003, DrawRandom, Probe 8004]) \<and>
   (8000 :: goint) \<le>s 8004 \<and> (8004 :: goint) \<le>s 8005 \<and> scenario_claimed 8004 = None \<and>
   8004 \<notin> dom scenario_claimed"
proof -
  have run: "findAvailablePort scenario_env 8000 8005 scenario_claimed =
     (Returned (Inr 8004), scenario_claimed(8002 \<mapsto> True, 8003 \<mapsto> True),
      [DrawRandom, Probe 8002, DrawRandom, Probe 8003, DrawRandom, Probe 8004])"
    by (simp add: findAvailablePort_def findAvailablePort_loop.simps word_sless_alt rand_Int_def
        scenario_env_def scenario_claimed_def isPortAvailable_def)
  from findAvailablePort_in_range_unclaimed [OF run] run show ?thesis by simp
qed

text \<open>
  Claim C3.  For a valid range, \<open>startPort \<le> endPort\<close> with a width \<open>endPort - startPort\<close>
  that fits Go's \<open>int\<close> (every range with \<open>startPort \<ge> 0\<close> is one), \<open>findAvailablePort\<close>
  returns: the loop is a total function and the result is never a panic.  It draws at
  most \<open>(endPort - startPort + 1) * 2\<close> times and returns either a port that a probe
  found bindable or the error "could not find an available port between startPort and
  endPort"; when the budget itself fits \<open>int\<close>, the error comes after exactly that many
  draws.
\<close>

theorem findAvailablePort_bounded:
  assumes ord: "startPort \<le>s endPort" and width: "sint endPort - sint startPort < 2 ^ 63"
  shows "\<exists>r used' tr. findAvailablePort env startPort endPort usedPorts = (Returned r, used', tr) \<and>
     int (attempts tr) \<le> (sint endPort - sint startPort + 1) * 2 \<and>
     (case r of
        Inl err \<Rightarrow> err = NoAvailablePort startPort endPort \<and>
          ((sint endPort - sint startPort + 1) * 2 < 2 ^ 63 \<longrightarrow>
             int (attempts tr) = (sint endPort - sint startPort + 1) * 2)
      | Inr p \<Rightarrow> \<exists>k. listen_ok env k p \<and> last tr = Probe p)"
proof -
  let ?D = "sint endPort - sint startPort + 1"
  let ?m = "(endPort - startPort + 1) * 2"
  let ?res = "findAvailablePort env startPort endPort usedPorts"
  have le: "sint startPort \<le> sint endPort" using ord by (simp add: word_sle_eq)
  have nlt: "\<not> endPort <s startPort" using le by (simp add: word_sless_alt)
  have run: "?res = findAvailablePort_loop env startPort endPort ?m 0 usedPorts []"
    using nlt by (simp add: findAvailablePort_def)
  have m: "sint ?m = signed_take_bit 63 (2 * ?D)" by (rule doubled_word)
  have mle: "sint ?m \<le> 2 * ?D" unfolding m using le by (intro stb_le_self) simp
  have exact: "sint ?m = 2 * ?D" if "?D * 2 < 2 ^ 63"
    unfolding m using le that by (simp add: signed_take_bit_int_eq_self)
  show ?thesis
  proof (cases "0 <s ?m")
    case False
    have "?res = (Returned (Inl (NoAvailablePort startPort endPort)), usedPorts, [])"
      unfolding run by (rule loop_not_entered [OF False])
    moreover have "\<not> ?D * 2 < 2 ^ 63"
    proof
      assume "?D * 2 < 2 ^ 63"
      from exact [OF this] le have "0 < sint ?m" by simp
      with False show False by (simp add: word_sless_alt)
    qed
    ultimately show ?thesis using le by (simp add: attempts_def)
  next
    case True
    then have mpos: "0 < sint ?m" by (simp add: word_sless_alt)
    have "?D \<noteq> 2 ^ 63"
    proof
      assume "?D = 2 ^ 63"
      then have "sint ?m = signed_take_bit 63 (2 ^ 64 :: int)" unfolding m by simp
      also have "\<dots> = 0"
        by (simp add: signed_take_bit_eq_take_bit_shift take_bit_eq_mod)
      finally show False using mpos by simp
    qed
    with width have "?D < 2 ^ 63" by simp
    from span_fits [OF ord this] le have pos: "0 < sint (endPort - startPort + 1)" by simp
    have "budget_ok env startPort endPort (attempts [] + nat (sint ?m - sint (0 :: goint))) ?res"
      unfolding run by (rule loop_budget [OF pos])
    then have ok: "budget_ok env startPort endPort (nat (sint ?m)) ?res"
      by (simp add: attempts_def)
    obtain out used' tr where res: "?res = (out, used', tr)" by (cases ?res)
    from ok res obtain r where out: "out = Returned r"
      by (cases out) (simp_all add: budget_ok_def)
    from ok res out have "int (attempts tr) \<le> int (nat (sint ?m))"
      by (simp only: budget_ok_def fst_conv snd_conv of_nat_le_iff)
    with mpos mle have b: "int (attempts tr) \<le> ?D * 2" by simp
    have c: "(case r of
        Inl err \<Rightarrow> err = NoAvailablePort startPort endPort \<and>
          (?D * 2 < 2 ^ 63 \<longrightarrow> int (attempts tr) = ?D * 2)
      | Inr p \<Rightarrow> \<exists>k. listen_ok env k p \<and> last tr = Probe p)"
    proof (cases r)
      case (Inl err)
      with ok res out have e: "err = NoAvailablePort startPort endPort"
        and a: "attempts tr = nat (sint ?m)"
        by (simp_all add: budget_ok_def)
      have "int (attempts tr) = ?D * 2" if small: "?D * 2 < 2 ^ 63"
      proof -
        have "int (attempts tr) = sint ?m" using a mpos by simp
        also have "\<dots> = 2 * ?D" by (rule exact [OF small])
        finally show ?thesis by (simp only: mult.commute)
      qed
      with Inl e show ?thesis by simp
    next
      case (Inr p)
      with ok res out show ?thesis by (simp add: budget_ok_def)
    qed
    from res out b c show ?thesis by simp
  qed
qed

theorem findAvailablePort_bounded_witness:
  "(8000 :: goint) \<le>s 8001 \<and> sint (8001 :: goint) - sint (8000 :: goint) < 2 ^ 63 \<and>
   fst (findAvailablePort busy_env 8000 8001 Map.empty) = Returned (Inl (NoAvailablePort 8000 8001)) \<and>
   attempts (snd (snd (findAvailablePort busy_env 8000 8001 Map.empty))) = 4"
proof -
  have h1: "(8000 :: goint) \<le>s 8001" by (simp add: word_sle_eq)
  have h2: "sint (8001 :: goint) - sint (8000 :: goint) < 2 ^ 63" by simp
  have run: "fst (findAvailablePort busy_env 8000 8001 Map.empty) =
      Returned (Inl (NoAvailablePort 8000 8001))"
    by (simp add: findAvailablePort_def findAvailablePort_loop.simps word_sless_alt rand_Int_def
        busy_env_def isPortAvailable_def)
  from findAvailablePort_bounded [OF h1 h2, of busy_env Map.empty] run
  have "attempts (snd (snd (findAvailablePort busy_env 8000 8001 Map.empty))) = 4"
    by auto
  with h1 h2 run show ?thesis by simp
qed

text \<open>
  Claim C10.  Called with \<open>startPort > endPort\<close>, \<open>findAvailablePort\<close> returns the error
  "invalid port range" at once: the trace of draws and probes is empty and the
  \<open>usedPorts\<close> map is returned as it was.
\<close>

theorem findAvailablePort_invalid_range: "endPort <s startPort \<Longrightarrow>
   findAvailablePort env startPort endPort usedPorts = (Returned (Inl InvalidPortRange), usedPorts, [])"
  by (simp add: findAvailablePort_def)

theorem findAvailablePort_invalid_range_witness:
  "(8000 :: goint) <s 8005 \<and>
   findAvailablePort scenario_env 8005 8000 scenario_claimed =
     (Returned (Inl InvalidPortRange), scenario_claimed, [])"
proof -
  have h: "(8000 :: goint) <s 8005" by (simp add: word_sless_alt)
  from findAvailablePort_invalid_range [OF h, of scenario_env scenario_claimed] h
  show ?thesis by simp
qed



section \<open>Properties of the persistent store\<close>


lemma temp_name_tmp: "temp_name (base @ ''.*.tmp'') r = base @ ''.'' @ r @ ''.tmp''"
  by (simp add: temp_name_def)

lemma last_Join_temp:
  "last (filepath_Join dir (temp_name (base @ ''.*.tmp'') r)) = CHR ''p''"
  by (simp add: temp_name_tmp filepath_Join_def)

lemma last_Join_managerMeta: "last (filepath_Join d managerMetaFileName) = CHR ''n''"
  by (simp add: filepath_Join_def managerMetaFileName_def)

lemma last_Join_globalConfig: "last (filepath_Join d globalConfigFileName) = CHR ''n''"
  by (simp add: filepath_Join_def globalConfigFileName_def)

lemma CreateTemp_try_Inr:
  "CreateTemp_try dir pattern rs w = (Inr t, w1) \<Longrightarrow>
     (\<exists>r \<in> set rs. t = filepath_Join dir (temp_name pattern r)) \<and> files w t = None \<and>
     w1 = w\<lparr>files := (files w)(t \<mapsto> []), log := log w @ [Created t]\<rparr>"
  by (induction rs) (auto simp: Let_def split: option.splits)

lemma CreateTemp_try_Inl: "CreateTemp_try dir pattern rs w = (Inl e, w1) \<Longrightarrow> w1 = w"
  by (induction rs) (auto simp: Let_def split: option.splits)

lemma os_CreateTemp_Inr:
  "os_CreateTemp env dir pattern w = (Inr t, w1) \<Longrightarrow>
     (\<exists>r \<in> set (temp_names env). t = filepath_Join dir (temp_name pattern r)) \<and>
     files w t = None \<and>
     w1 = w\<lparr>files := (files w)(t \<mapsto> []), log := log w @ [Created t]\<rparr>"
  by (auto simp: os_CreateTemp_def split: option.splits dest: CreateTemp_try_Inr)

lemma os_CreateTemp_Inl: "os_CreateTemp env dir pattern w = (Inl e, w1) \<Longrightarrow> w1 = w"
  by (auto simp: os_CreateTemp_def split: option.splits dest: CreateTemp_try_Inl)

lemma CreateTemp_try_fresh:
  "\<exists>r \<in> set rs. files w (filepath_Join dir (temp_name pattern r)) = None \<Longrightarrow>
     \<exists>t w1. CreateTemp_try dir pattern rs w = (Inr t, w1)"
  by (induction rs) (auto simp: Let_def split: option.splits)

lemma os_CreateTemp_fresh:
  "create_fault env dir = None \<Longrightarrow>
   \<exists>r \<in> set (temp_names env). files w (filepath_Join dir (temp_name pattern r)) = None \<Longrightarrow>
     \<exists>t w1. os_CreateTemp env dir pattern w = (Inr t, w1)"
  by (simp add: os_CreateTemp_def CreateTemp_try_fresh)

lemma os_CreateTemp_Inr_fault:
  "os_CreateTemp env dir pattern w = (Inr t, w1) \<Longrightarrow> create_fault env dir = None"
  by (auto simp: os_CreateTemp_def split: option.splits)

lemma writeManagerMeta_temp_ok:
  assumes "writeManagerMeta_temp env metaPath t data w = (None, w')" "t \<noteq> metaPath"
  shows "files w' = (files w)(metaPath \<mapsto> data, t := None)"
    and "log w' = log w @ [Wrote t data, Closed t, Renamed t metaPath]"
  using assms
  by (auto simp: writeManagerMeta_temp_def file_Write_def file_Close_def os_Rename_def
      split: option.splits prod.splits if_splits)

lemma writeManagerMeta_temp_ok_faults:
  assumes "writeManagerMeta_temp env metaPath t data w = (None, w')"
  shows "write_fault env t = None \<and> close_fault env t = None \<and> rename_fault env metaPath = None"
  using assms
  by (auto simp: writeManagerMeta_temp_def file_Write_def file_Close_def os_Rename_def
      split: option.splits prod.splits if_splits)

lemma writeManagerMeta_temp_succeeds:
  assumes "write_fault env t = None" "close_fault env t = None" "rename_fault env metaPath = None"
  shows "fst (writeManagerMeta_temp env metaPath t data w) = None"
  using assms
  by (auto simp: writeManagerMeta_temp_def file_Write_def file_Close_def os_Rename_def
      split: option.splits prod.splits if_splits)

lemma writeManagerMeta_temp_fail:
  assumes "writeManagerMeta_temp env metaPath t data w = (Some err, w')"
  shows "\<exists>c. files w' = (files w)(t \<mapsto> c)"
  using assms
  by (auto simp: writeManagerMeta_temp_def file_Write_def file_Close_def os_Rename_def
      split: option.splits prod.splits if_splits)

lemma files_remove_temp_other: "p \<noteq> t \<Longrightarrow> files (remove_temp env t w) p = files w p"
  by (auto simp: remove_temp_def os_Stat_ok_def os_Remove_def split: option.splits)

lemma files_remove_temp:
  "remove_fault env t = None \<Longrightarrow> files (remove_temp env t w) = (files w)(t := None)"
  by (auto simp: remove_temp_def os_Stat_ok_def os_Remove_def split: option.splits)

lemma log_remove_temp_absent: "files w t = None \<Longrightarrow> remove_temp env t w = w"
  by (simp add: remove_temp_def os_Stat_ok_def)

lemma writeManagerMeta_locked_ok:
  assumes run: "writeManagerMeta_locked env cd meta metaPath w = (None, w')"
    and tgt: "last metaPath \<noteq> CHR ''p''"
  shows "\<exists>data r. marshal_meta cd meta = Inr data \<and> r \<in> set (temp_names env) \<and>
           files w (filepath_Join (filepath_Dir metaPath)
                      (managerMetaFileName @ ''.'' @ r @ ''.tmp'')) = None \<and>
           create_fault env (filepath_Dir metaPath) = None \<and>
           write_fault env (filepath_Join (filepath_Dir metaPath)
                      (managerMetaFileName @ ''.'' @ r @ ''.tmp'')) = None \<and>
           close_fault env (filepath_Join (filepath_Dir metaPath)
                      (managerMetaFileName @ ''.'' @ r @ ''.tmp'')) = None \<and>
           rename_fault env metaPath = None \<and>
           files w' = (files w)(metaPath \<mapsto> data) \<and>
           log w' = log w @
             [Created (filepath_Join (filepath_Dir metaPath)
                         (managerMetaFileName @ ''.'' @ r @ ''.tmp'')),
              Wrote (filepath_Join (filepath_Dir metaPath)
                       (managerMetaFileName @ ''.'' @ r @ ''.tmp'')) data,
              Closed (filepath_Join (filepath_Dir metaPath)
                        (managerMetaFileName @ ''.'' @ r @ ''.tmp'')),
              Renamed (filepath_Join (filepath_Dir metaPath)
                         (managerMetaFileName @ ''.'' @ r @ ''.tmp'')) metaPath]"
proof -
  from run obtain data where data: "marshal_meta cd meta = Inr data"
    by (auto simp: writeManagerMeta_locked_def split: sum.splits)
  from run data obtain t w1 where
    ct: "os_CreateTemp env (filepath_Dir metaPath) (managerMetaFileName @ ''.*.tmp'') w = (Inr t, w1)"
    by (auto simp: writeManagerMeta_locked_def split: sum.splits prod.splits)
  from run data ct obtain w2 where
    tmp: "writeManagerMeta_temp env metaPath t data w1 = (None, w2)"
    and w': "w' = remove_temp env t w2"
    by (auto simp: writeManagerMeta_locked_def split: prod.splits)
  from os_CreateTemp_Inr [OF ct] obtain r where r: "r \<in> set (temp_names env)"
    and t: "t = filepath_Join (filepath_Dir metaPath) (managerMetaFileName @ ''.'' @ r @ ''.tmp'')"
    and fresh: "files w t = None"
    and w1: "w1 = w\<lparr>files := (files w)(t \<mapsto> []), log := log w @ [Created t]\<rparr>"
    by (auto simp: temp_name_tmp)
  have "last t = CHR ''p''" by (simp add: t filepath_Join_def)
  with tgt have ne: "t \<noteq> metaPath" by auto
  from writeManagerMeta_temp_ok [OF tmp ne] w1
  have f2: "files w2 = (files w)(metaPath \<mapsto> data, t := None)"
    and l2: "log w2 = log w @ [Created t, Wrote t data, Closed t, Renamed t metaPath]"
    using ne by (auto simp: fun_eq_iff)
  from f2 have "files w2 t = None" by simp
  then have "w' = w2" using w' by (simp add: log_remove_temp_absent)
  moreover have "(files w)(metaPath \<mapsto> data, t := None) = (files w)(metaPath \<mapsto> data)"
    using fresh ne by (auto simp: fun_eq_iff)
  moreover note writeManagerMeta_temp_ok_faults [OF tmp] os_CreateTemp_Inr_fault [OF ct]
  ultimately show ?thesis using data r fresh f2 l2 unfolding t by auto
qed

lemma writeManagerMeta_locked_fail:
  assumes run: "writeManagerMeta_locked env cd meta metaPath w = (Some err, w')"
    and tgt: "last metaPath \<noteq> CHR ''p''"
  shows "files w' metaPath = files w metaPath"
    and "remove_fault env p = None \<Longrightarrow> files w' p = files w p"
proof -
  have "files w' metaPath = files w metaPath \<and>
        (remove_fault env p = None \<longrightarrow> files w' p = files w p)"
  proof (cases "marshal_meta cd meta")
    case (Inl e)
    with run show ?thesis by (simp add: writeManagerMeta_locked_def)
  next
    case (Inr data)
    obtain ct w1 where ct: "os_CreateTemp env (filepath_Dir metaPath)
        (managerMetaFileName @ ''.*.tmp'') w = (ct, w1)"
      by (cases "os_CreateTemp env (filepath_Dir metaPath) (managerMetaFileName @ ''.*.tmp'') w")
    show ?thesis
    proof (cases ct)
      case (Inl e)
      from os_CreateTemp_Inl [OF ct [unfolded Inl]] have "w1 = w" .
      with run Inr ct Inl show ?thesis
        by (simp add: writeManagerMeta_locked_def)
    next
      case t: (Inr t)
      from os_CreateTemp_Inr [OF ct [unfolded t]] obtain r where
        tn: "t = filepath_Join (filepath_Dir metaPath) (temp_name (managerMetaFileName @ ''.*.tmp'') r)"
        and fresh: "files w t = None"
        and w1: "files w1 = (files w)(t \<mapsto> [])" by auto
      have "last t = CHR ''p''" unfolding tn by (rule last_Join_temp)
      with tgt have ne: "t \<noteq> metaPath" by auto
      from run Inr ct t obtain w2 where
        tmp: "writeManagerMeta_temp env metaPath t data w1 = (Some err, w2)"
        and w': "w' = remove_temp env t w2"
        by (auto simp: writeManagerMeta_locked_def split: prod.splits)
      from writeManagerMeta_temp_fail [OF tmp] obtain c where
        f2: "files w2 = (files w1)(t \<mapsto> c)" ..
      have a: "files w' metaPath = files w metaPath"
        using w' f2 w1 ne by (simp add: files_remove_temp_other)
      have b: "files w' p = files w p" if rf: "remove_fault env p = None"
      proof (cases "p = t")
        case True
        with rf w' f2 w1 fresh show ?thesis by (simp add: files_remove_temp)
      next
        case False
        with w' f2 w1 show ?thesis by (simp add: files_remove_temp_other)
      qed
      from a b show ?thesis by simp
    qed
  qed
  then show "files w' metaPath = files w metaPath"
    and "remove_fault env p = None \<Longrightarrow> files w' p = files w p" by simp_all
qed

lemma writeManagerMeta_locked_succeeds:
  assumes ff: "fault_free env" and data: "marshal_meta cd meta = Inr data"
    and fresh: "\<exists>r \<in> set (temp_names env).
       files w (filepath_Join (filepath_Dir metaPath)
                  (managerMetaFileName @ ''.'' @ r @ ''.tmp'')) = None"
  shows "fst (writeManagerMeta_locked env cd meta metaPath w) = None"
proof -
  from ff have nf: "create_fault env p = None" "write_fault env p = None"
    "close_fault env p = None" "rename_fault env p = None" for p
    by (simp_all add: fault_free_def)
  from fresh have "\<exists>r \<in> set (temp_names env).
       files w (filepath_Join (filepath_Dir metaPath)
                  (temp_name (managerMetaFileName @ ''.*.tmp'') r)) = None"
    by (simp add: temp_name_tmp)
  from os_CreateTemp_fresh [OF nf(1) this] obtain t w1 where
    ct: "os_CreateTemp env (filepath_Dir metaPath) (managerMetaFileName @ ''.*.tmp'') w = (Inr t, w1)"
    by blast
  have "fst (writeManagerMeta_temp env metaPath t data w1) = None"
    by (rule writeManagerMeta_temp_succeeds) (rule nf)+
  with data ct show ?thesis
    by (auto simp: writeManagerMeta_locked_def split: prod.splits)
qed

lemma files_printWarning [simp]: "files (printWarning t w) = files w"
  by (simp add: printWarning_def)

lemma getConfigStorageDir_files: "getConfigStorageDir env w = (r, w1) \<Longrightarrow> files w1 = files w"
  by (auto simp: getConfigStorageDir_def Let_def split: sum.splits option.splits if_splits)

lemma getManagerMetaPath_files: "getManagerMetaPath env w = (r, w1) \<Longrightarrow> files w1 = files w"
  by (auto simp: getManagerMetaPath_def split: prod.splits option.splits if_splits
      dest: getConfigStorageDir_files)

lemma getManagerMetaPath_last:
  "getManagerMetaPath env w = (Inr metaPath, w1) \<Longrightarrow> last metaPath = CHR ''n''"
  by (auto simp: getManagerMetaPath_def last_Join_managerMeta
      split: prod.splits option.splits if_splits)

lemma getGlobalConfigPath_files: "getGlobalConfigPath env w = (r, w1) \<Longrightarrow> files w1 = files w"
  by (auto simp: getGlobalConfigPath_def split: prod.splits option.splits if_splits
      dest: getConfigStorageDir_files)

lemma getGlobalConfigPath_last:
  "getGlobalConfigPath env w = (Inr configPath, w1) \<Longrightarrow> last configPath = CHR ''n''"
  by (auto simp: getGlobalConfigPath_def last_Join_globalConfig
      split: prod.splits option.splits if_splits)

lemma Lock_ok:
  "Lock env fl w = (None, w1) \<Longrightarrow>
     files w (lock_path fl) = None \<and> files w1 = (files w)(lock_path fl \<mapsto> []) \<and>
     log w1 = log w @ [Created (lock_path fl), Closed (lock_path fl)]"
  by (auto simp: Lock_def os_OpenFile_excl_def file_Close_def split: option.splits prod.splits)

lemma Lock_ok_faults:
  "Lock env fl w = (None, w1) \<Longrightarrow>
     open_fault env (lock_path fl) = None \<and> close_fault env (lock_path fl) = None"
  by (auto simp: Lock_def os_OpenFile_excl_def file_Close_def split: option.splits prod.splits)

lemma Lock_fail:
  "Lock env fl w = (Some e, w1) \<Longrightarrow> p \<noteq> lock_path fl \<Longrightarrow> files w1 p = files w p"
  by (auto simp: Lock_def os_OpenFile_excl_def file_Close_def split: option.splits prod.splits)

lemma files_Unlock: "files (snd (Unlock fl w)) = (files w)(lock_path fl := None)"
  by (auto simp: Unlock_def os_Remove_def split: option.splits)

lemma log_Unlock_held:
  "files w (lock_path fl) \<noteq> None \<Longrightarrow> log (snd (Unlock fl w)) = log w @ [Removed (lock_path fl)]"
  by (auto simp: Unlock_def os_Remove_def split: option.splits)

lemma writeManagerMeta_ok_steps:
  assumes path: "getManagerMetaPath env w = (Inr metaPath, w1)"
    and run: "writeManagerMeta env cd meta w = (None, w')"
  shows "\<exists>data r. marshal_meta cd meta = Inr data \<and> r \<in> set (temp_names env) \<and>
           files w (metaPath @ ''.lock'') = None \<and>
           open_fault env (metaPath @ ''.lock'') = None \<and>
           close_fault env (metaPath @ ''.lock'') = None \<and>
           create_fault env (filepath_Dir metaPath) = None \<and>
           write_fault env (filepath_Join (filepath_Dir metaPath)
                      (managerMetaFileName @ ''.'' @ r @ ''.tmp'')) = None \<and>
           close_fault env (filepath_Join (filepath_Dir metaPath)
                      (managerMetaFileName @ ''.'' @ r @ ''.tmp'')) = None \<and>
           rename_fault env metaPath = None \<and>
           files w' = (files w)(metaPath \<mapsto> data) \<and>
           log w' = log w1 @
             [Created (metaPath @ ''.lock''), Closed (metaPath @ ''.lock''),
              Created (filepath_Join (filepath_Dir metaPath)
                         (managerMetaFileName @ ''.'' @ r @ ''.tmp'')),
              Wrote (filepath_Join (filepath_Dir metaPath)
                       (managerMetaFileName @ ''.'' @ r @ ''.tmp'')) data,
              Closed (filepath_Join (filepath_Dir metaPath)
                        (managerMetaFileName @ ''.'' @ r @ ''.tmp'')),
              Renamed (filepath_Join (filepath_Dir metaPath)
                         (managerMetaFileName @ ''.'' @ r @ ''.tmp'')) metaPath,
              Removed (metaPath @ ''.lock'')]"
proof -
  let ?lock = "metaPath @ ''.lock''"
  let ?fl = "NewFileLock ?lock"
  have lp: "lock_path ?fl = ?lock" by (simp add: NewFileLock_def)
  from run path obtain w2 where lk: "Lock env ?fl w1 = (None, w2)"
    by (auto simp: writeManagerMeta_def Let_def split: prod.splits option.splits)
  from run path lk obtain w3 where
    body: "writeManagerMeta_locked env cd meta metaPath w2 = (None, w3)"
    and w': "w' = snd (Unlock ?fl w3)"
    by (auto simp: writeManagerMeta_def Let_def split: prod.splits option.splits)
  from Lock_ok [OF lk] lp have free: "files w1 ?lock = None"
    and f2: "files w2 = (files w1)(?lock \<mapsto> [])"
    and l2: "log w2 = log w1 @ [Created ?lock, Closed ?lock]" by simp_all
  from Lock_ok_faults [OF lk] lp have lf: "open_fault env ?lock = None"
    "close_fault env ?lock = None" by simp_all
  have f1: "files w1 = files w" by (rule getManagerMetaPath_files [OF path])
  have tgt: "last metaPath \<noteq> CHR ''p''" using getManagerMetaPath_last [OF path] by simp
  from writeManagerMeta_locked_ok [OF body tgt] obtain data r where
    data: "marshal_meta cd meta = Inr data" and r: "r \<in> set (temp_names env)"
    and faults: "create_fault env (filepath_Dir metaPath) = None"
      "write_fault env (filepath_Join (filepath_Dir metaPath)
                      (managerMetaFileName @ ''.'' @ r @ ''.tmp'')) = None"
      "close_fault env (filepath_Join (filepath_Dir metaPath)
                      (managerMetaFileName @ ''.'' @ r @ ''.tmp'')) = None"
      "rename_fault env metaPath = None"
    and f3: "files w3 = (files w2)(metaPath \<mapsto> data)"
    and l3: "log w3 = log w2 @
             [Created (filepath_Join (filepath_Dir metaPath)
                         (managerMetaFileName @ ''.'' @ r @ ''.tmp'')),
              Wrote (filepath_Join (filepath_Dir metaPath)
                       (managerMetaFileName @ ''.'' @ r @ ''.tmp'')) data,
              Closed (filepath_Join (filepath_Dir metaPath)
                        (managerMetaFileName @ ''.'' @ r @ ''.tmp'')),
              Renamed (filepath_Join (filepath_Dir metaPath)
                         (managerMetaFileName @ ''.'' @ r @ ''.tmp'')) metaPath]"
    by blast
  have ne: "?lock \<noteq> metaPath" by simp
  have held: "files w3 (lock_path ?fl) \<noteq> None" using f3 f2 ne lp by simp
  have "files w' = (files w3)(?lock := None)" using w' lp by (simp add: files_Unlock)
  also have "\<dots> = (files w1)(metaPath \<mapsto> data)"
    using f3 f2 free ne by (auto simp: fun_eq_iff)
  finally have fw: "files w' = (files w)(metaPath \<mapsto> data)" using f1 by simp
  have "log w' = log w3 @ [Removed ?lock]"
    using log_Unlock_held [OF held] w' lp by simp
  with l3 l2 have lw: "log w' = log w1 @
             [Created ?lock, Closed ?lock,
              Created (filepath_Join (filepath_Dir metaPath)
                         (managerMetaFileName @ ''.'' @ r @ ''.tmp'')),
              Wrote (filepath_Join (filepath_Dir metaPath)
                       (managerMetaFileName @ ''.'' @ r @ ''.tmp'')) data,
              Closed (filepath_Join (filepath_Dir metaPath)
                        (managerMetaFileName @ ''.'' @ r @ ''.tmp'')),
              Renamed (filepath_Join (filepath_Dir metaPath)
                         (managerMetaFileName @ ''.'' @ r @ ''.tmp'')) metaPath,
              Removed ?lock]" by simp
  from free f1 have "files w ?lock = None" by simp
  with data r lf faults fw lw show ?thesis by blast
qed

lemma writeManagerMeta_ok:
  assumes path: "getManagerMetaPath env w = (Inr metaPath, w1)"
    and run: "writeManagerMeta env cd meta w = (None, w')"
  shows "\<exists>data r. marshal_meta cd meta = Inr data \<and> r \<in> set (temp_names env) \<and>
           files w' = (files w)(metaPath \<mapsto> data) \<and>
           log w' = log w1 @
             [Created (metaPath @ ''.lock''), Closed (metaPath @ ''.lock''),
              Created (filepath_Join (filepath_Dir metaPath)
                         (managerMetaFileName @ ''.'' @ r @ ''.tmp'')),
              Wrote (filepath_Join (filepath_Dir metaPath)
                       (managerMetaFileName @ ''.'' @ r @ ''.tmp'')) data,
              Closed (filepath_Join (filepath_Dir metaPath)
                        (managerMetaFileName @ ''.'' @ r @ ''.tmp'')),
              Renamed (filepath_Join (filepath_Dir metaPath)
                         (managerMetaFileName @ ''.'' @ r @ ''.tmp'')) metaPath,
              Removed (metaPath @ ''.lock'')]"
  using writeManagerMeta_ok_steps [OF path run] by blast

lemma writeManagerMeta_succeeds:
  assumes path: "getManagerMetaPath env w = (Inr metaPath, w1)"
    and ff: "fault_free env" and free: "files w (metaPath @ ''.lock'') = None"
    and data: "marshal_meta cd meta = Inr data"
    and fresh: "\<exists>r \<in> set (temp_names env).
       files w (filepath_Join (filepath_Dir metaPath)
                  (managerMetaFileName @ ''.'' @ r @ ''.tmp'')) = None"
  shows "fst (writeManagerMeta env cd meta w) = None"
proof -
  let ?lock = "metaPath @ ''.lock''"
  let ?fl = "NewFileLock ?lock"
  have lp: "lock_path ?fl = ?lock" by (simp add: NewFileLock_def)
  have f1: "files w1 = files w" by (rule getManagerMetaPath_files [OF path])
  from ff have nf: "open_fault env p = None" "close_fault env p = None" for p
    by (simp_all add: fault_free_def)
  have "fst (Lock env ?fl w1) = None"
    using free f1 nf lp by (simp add: Lock_def os_OpenFile_excl_def file_Close_def)
  then obtain w2 where lk: "Lock env ?fl w1 = (None, w2)"
    by (cases "Lock env ?fl w1") simp
  from Lock_ok [OF lk] lp f1 have f2: "files w2 = (files w)(?lock \<mapsto> [])" by simp
  from fresh obtain r where r: "r \<in> set (temp_names env)"
    and fr: "files w (filepath_Join (filepath_Dir metaPath)
                  (managerMetaFileName @ ''.'' @ r @ ''.tmp'')) = None" by blast
  have "last (filepath_Join (filepath_Dir metaPath)
                  (managerMetaFileName @ ''.'' @ r @ ''.tmp'')) = CHR ''p''"
    by (simp add: filepath_Join_def)
  moreover have "last ?lock = CHR ''k''" by simp
  ultimately have "filepath_Join (filepath_Dir metaPath)
                  (managerMetaFileName @ ''.'' @ r @ ''.tmp'') \<noteq> ?lock" by auto
  with fr f2 have "files w2 (filepath_Join (filepath_Dir metaPath)
                  (managerMetaFileName @ ''.'' @ r @ ''.tmp'')) = None" by simp
  with r have "\<exists>r \<in> set (temp_names env).
       files w2 (filepath_Join (filepath_Dir metaPath)
                  (managerMetaFileName @ ''.'' @ r @ ''.tmp'')) = None" by blast
  from writeManagerMeta_locked_succeeds [OF ff data this]
  have "fst (writeManagerMeta_locked env cd meta metaPath w2) = None" .
  with path lk show ?thesis
    by (auto simp: writeManagerMeta_def Let_def split: prod.splits)
qed

lemma writeManagerMeta_fail:
  assumes path: "getManagerMetaPath env w = (Inr metaPath, w1)"
    and run: "writeManagerMeta env cd meta w = (Some err, w')"
  shows "files w' metaPath = files w metaPath"
    and "p \<noteq> metaPath @ ''.lock'' \<Longrightarrow> remove_fault env p = None \<Longrightarrow> files w' p = files w p"
proof -
  let ?lock = "metaPath @ ''.lock''"
  let ?fl = "NewFileLock ?lock"
  have lp: "lock_path ?fl = ?lock" by (simp add: NewFileLock_def)
  have f1: "files w1 = files w" by (rule getManagerMetaPath_files [OF path])
  have tgt: "last metaPath \<noteq> CHR ''p''" using getManagerMetaPath_last [OF path] by simp
  have gen: "files w' q = files w q"
    if q: "q \<noteq> ?lock" and q': "q = metaPath \<or> remove_fault env q = None" for q
  proof -
    obtain lr w2 where lk: "Lock env ?fl w1 = (lr, w2)" by (cases "Lock env ?fl w1")
    show ?thesis
    proof (cases lr)
      case (Some e)
      with run path lk have "w' = w2"
        by (simp add: writeManagerMeta_def Let_def)
      with Lock_fail [OF lk [unfolded Some], of q] q lp f1 show ?thesis by simp
    next
      case None
      from run path lk None obtain w3 where
        body: "writeManagerMeta_locked env cd meta metaPath w2 = (Some err, w3)"
        and w': "w' = snd (Unlock ?fl w3)"
        by (auto simp: writeManagerMeta_def Let_def split: prod.splits)
      from Lock_ok [OF lk [unfolded None]] lp
      have f2: "files w2 = (files w1)(?lock \<mapsto> [])" by simp
      have "files w3 q = files w2 q"
        using q' writeManagerMeta_locked_fail [OF body tgt] by auto
      with f2 w' q lp f1 show ?thesis by (simp add: files_Unlock)
    qed
  qed
  show "files w' metaPath = files w metaPath" by (rule gen) simp_all
  show "p \<noteq> metaPath @ ''.lock'' \<Longrightarrow> remove_fault env p = None \<Longrightarrow> files w' p = files w p"
    by (rule gen) simp_all
qed

lemma writeManagerMeta_nopath:
  assumes path: "getManagerMetaPath env w = (Inl e, w1)"
  shows "\<exists>err w'. writeManagerMeta env cd meta w = (Some err, w') \<and> files w' = files w"
  using assms getManagerMetaPath_files [OF path] by (simp add: writeManagerMeta_def)


lemma writeGlobalManagerConfig_temp_ok:
  assumes "writeGlobalManagerConfig_temp env configPath t data w = (None, w')" "t \<noteq> configPath"
  shows "files w' = (files w)(configPath \<mapsto> data, t := None)"
    and "log w' = log w @ [Wrote t data, Closed t, Renamed t configPath]"
  using assms
  by (auto simp: writeGlobalManagerConfig_temp_def file_Write_def file_Close_def os_Rename_def
      split: option.splits prod.splits if_splits)

lemma writeGlobalManagerConfig_temp_ok_faults:
  assumes "writeGlobalManagerConfig_temp env configPath t data w = (None, w')"
  shows "write_fault env t = None \<and> close_fault env t = None \<and>
         rename_fault env configPath = None"
  using assms
  by (auto simp: writeGlobalManagerConfig_temp_def file_Write_def file_Close_def os_Rename_def
      split: option.splits prod.splits if_splits)

lemma writeGlobalManagerConfig_temp_succeeds:
  assumes "write_fault env t = None" "close_fault env t = None"
    "rename_fault env configPath = None"
  shows "fst (writeGlobalManagerConfig_temp env configPath t data w) = None"
  using assms
  by (auto simp: writeGlobalManagerConfig_temp_def file_Write_def file_Close_def os_Rename_def
      split: option.splits prod.splits if_splits)

lemma writeGlobalManagerConfig_temp_fail:
  assumes "writeGlobalManagerConfig_temp env configPath t data w = (Some err, w')"
  shows "\<exists>c. files w' = (files w)(t \<mapsto> c)"
  using assms
  by (auto simp: writeGlobalManagerConfig_temp_def file_Write_def file_Close_def os_Rename_def
      split: option.splits prod.splits if_splits)

lemma writeGlobalManagerConfig_ok:
  assumes path: "getGlobalConfigPath env w = (Inr configPath, w1)"
    and run: "writeGlobalManagerConfig env cd config w = (None, w')"
  shows "\<exists>data r. marshal_config cd config = Inr data \<and> r \<in> set (temp_names env) \<and>
           create_fault env (filepath_Dir configPath) = None \<and>
           write_fault env (filepath_Join (filepath_Dir configPath)
                         (filepath_Base configPath @ ''.'' @ r @ ''.tmp'')) = None \<and>
           close_fault env (filepath_Join (filepath_Dir configPath)
                         (filepath_Base configPath @ ''.'' @ r @ ''.tmp'')) = None \<and>
           rename_fault env configPath = None \<and>
           files w' = (files w)(configPath \<mapsto> data) \<and>
           log w' = log w1 @
             [Created (filepath_Join (filepath_Dir configPath)
                         (filepath_Base configPath @ ''.'' @ r @ ''.tmp'')),
              Wrote (filepath_Join (filepath_Dir configPath)
                       (filepath_Base configPath @ ''.'' @ r @ ''.tmp'')) data,
              Closed (filepath_Join (filepath_Dir configPath)
                        (filepath_Base configPath @ ''.'' @ r @ ''.tmp'')),
              Renamed (filepath_Join (filepath_Dir configPath)
                         (filepath_Base configPath @ ''.'' @ r @ ''.tmp'')) configPath]"
proof -
  from run path obtain data where data: "marshal_config cd config = Inr data"
    by (auto simp: writeGlobalManagerConfig_def split: sum.splits)
  from run path data obtain t w2 where
    ct: "os_CreateTemp env (filepath_Dir configPath) (filepath_Base configPath @ ''.*.tmp'') w1 =
           (Inr t, w2)"
    by (auto simp: writeGlobalManagerConfig_def split: sum.splits prod.splits)
  from run path data ct obtain w3 where
    tmp: "writeGlobalManagerConfig_temp env configPath t data w2 = (None, w3)"
    and w': "w' = remove_temp env t w3"
    by (auto simp: writeGlobalManagerConfig_def split: prod.splits)
  from os_CreateTemp_Inr [OF ct] obtain r where r: "r \<in> set (temp_names env)"
    and t: "t = filepath_Join (filepath_Dir configPath) (filepath_Base configPath @ ''.'' @ r @ ''.tmp'')"
    and fresh: "files w1 t = None"
    and w2: "w2 = w1\<lparr>files := (files w1)(t \<mapsto> []), log := log w1 @ [Created t]\<rparr>"
    by (auto simp: temp_name_tmp)
  have "last t = CHR ''p''" by (simp add: t filepath_Join_def)
  with getGlobalConfigPath_last [OF path] have ne: "t \<noteq> configPath" by auto
  from writeGlobalManagerConfig_temp_ok [OF tmp ne] w2
  have f3: "files w3 = (files w1)(configPath \<mapsto> data, t := None)"
    and l3: "log w3 = log w1 @ [Created t, Wrote t data, Closed t, Renamed t configPath]"
    using ne by (auto simp: fun_eq_iff)
  from f3 have "files w3 t = None" by simp
  then have "w' = w3" using w' by (simp add: log_remove_temp_absent)
  moreover have "(files w1)(configPath \<mapsto> data, t := None) = (files w)(configPath \<mapsto> data)"
    using fresh ne getGlobalConfigPath_files [OF path] by (auto simp: fun_eq_iff)
  moreover note writeGlobalManagerConfig_temp_ok_faults [OF tmp] os_CreateTemp_Inr_fault [OF ct]
  ultimately show ?thesis using data r f3 l3 unfolding t by auto
qed

lemma writeGlobalManagerConfig_fail:
  assumes run: "writeGlobalManagerConfig env cd config w = (Some err, w')"
  shows "getGlobalConfigPath env w = (Inr configPath, w1) \<Longrightarrow>
           files w' configPath = files w configPath"
    and "remove_fault env p = None \<Longrightarrow> files w' p = files w p"
proof -
  obtain pr wp where path: "getGlobalConfigPath env w = (pr, wp)"
    by (cases "getGlobalConfigPath env w")
  have f1: "files wp = files w" by (rule getGlobalConfigPath_files [OF path])
  have gen: "files w' q = files w q"
    if q: "pr = Inr q \<or> remove_fault env q = None" for q
  proof (cases pr)
    case (Inl e)
    with run path f1 show ?thesis by (simp add: writeGlobalManagerConfig_def)
  next
    case cp: (Inr configPath)
    show ?thesis
    proof (cases "marshal_config cd config")
      case (Inl e)
      with run path cp f1 show ?thesis by (simp add: writeGlobalManagerConfig_def)
    next
      case (Inr data)
      obtain ct w2 where ct: "os_CreateTemp env (filepath_Dir configPath)
          (filepath_Base configPath @ ''.*.tmp'') wp = (ct, w2)"
        by (cases "os_CreateTemp env (filepath_Dir configPath)
          (filepath_Base configPath @ ''.*.tmp'') wp")
      show ?thesis
      proof (cases ct)
        case (Inl e)
        from os_CreateTemp_Inl [OF ct [unfolded Inl]] have "w2 = wp" .
        with run path cp Inr ct Inl f1 show ?thesis
          by (simp add: writeGlobalManagerConfig_def)
      next
        case t: (Inr t)
        from os_CreateTemp_Inr [OF ct [unfolded t]] obtain r where
          tn: "t = filepath_Join (filepath_Dir configPath)
                 (temp_name (filepath_Base configPath @ ''.*.tmp'') r)"
          and fresh: "files wp t = None"
          and w2: "files w2 = (files wp)(t \<mapsto> [])" by auto
        have "last t = CHR ''p''" unfolding tn by (rule last_Join_temp)
        with getGlobalConfigPath_last [OF path [unfolded cp]] have ne: "t \<noteq> configPath" by auto
        from run path cp Inr ct t obtain w3 where
          tmp: "writeGlobalManagerConfig_temp env configPath t data w2 = (Some err, w3)"
          and w': "w' = remove_temp env t w3"
          by (auto simp: writeGlobalManagerConfig_def split: prod.splits)
        from writeGlobalManagerConfig_temp_fail [OF tmp]
        obtain c where f3: "files w3 = (files w2)(t \<mapsto> c)" ..
        show ?thesis
        proof (cases "q = t")
          case True
          with q cp ne have "remove_fault env t = None" by auto
          with True w' f3 w2 fresh f1 show ?thesis by (simp add: files_remove_temp)
        next
          case False
          with w' f3 w2 f1 show ?thesis by (simp add: files_remove_temp_other)
        qed
      qed
    qed
  qed
  show "getGlobalConfigPath env w = (Inr configPath, w1) \<Longrightarrow>
           files w' configPath = files w configPath"
    using gen [of configPath] path by auto
  show "remove_fault env p = None \<Longrightarrow> files w' p = files w p"
    using gen [of p] by auto
qed

lemma writeGlobalManagerConfig_succeeds:
  assumes path: "getGlobalConfigPath env w = (Inr configPath, w1)"
    and ff: "fault_free env" and data: "marshal_config cd config = Inr data"
    and fresh: "\<exists>r \<in> set (temp_names env).
       files w (filepath_Join (filepath_Dir configPath)
                  (filepath_Base configPath @ ''.'' @ r @ ''.tmp'')) = None"
  shows "fst (writeGlobalManagerConfig env cd config w) = None"
proof -
  from ff have nf: "create_fault env p = None" "write_fault env p = None"
    "close_fault env p = None" "rename_fault env p = None" for p
    by (simp_all add: fault_free_def)
  have f1: "files w1 = files w" by (rule getGlobalConfigPath_files [OF path])
  from fresh f1 have "\<exists>r \<in> set (temp_names env).
       files w1 (filepath_Join (filepath_Dir configPath)
                  (temp_name (filepath_Base configPath @ ''.*.tmp'') r)) = None"
    by (simp add: temp_name_tmp)
  from os_CreateTemp_fresh [OF nf(1) this] obtain t w2 where
    ct: "os_CreateTemp env (filepath_Dir configPath) (filepath_Base configPath @ ''.*.tmp'') w1 =
          (Inr t, w2)"
    by blast
  have "fst (writeGlobalManagerConfig_temp env configPath t data w2) = None"
    by (rule writeGlobalManagerConfig_temp_succeeds) (rule nf)+
  with path data ct show ?thesis
    by (auto simp: writeGlobalManagerConfig_def split: prod.splits)
qed

lemma readManagerMeta_error:
  assumes "readManagerMeta env cd w = (Inl err, w')"
  shows "(\<exists>e. getManagerMetaPath env w = (Inl e, w')) \<or>
         (\<exists>metaPath e. getManagerMetaPath env w = (Inr metaPath, w') \<and>
            os_ReadFile env metaPath w' = Inl e \<and> e \<noteq> ErrNotExist)"
  using assms
  by (auto simp: readManagerMeta_def split: prod.splits sum.splits if_splits option.splits)

lemma readGlobalManagerConfig_error:
  assumes "readGlobalManagerConfig env cd w = ((config, Some err), w')"
  shows "(\<exists>e. getGlobalConfigPath env w = (Inl e, w')) \<or>
         (\<exists>configPath e. getGlobalConfigPath env w = (Inr configPath, w') \<and>
            os_ReadFile env configPath w' = Inl e \<and> e \<noteq> ErrNotExist)"
  using assms
  by (auto simp: readGlobalManagerConfig_def split: prod.splits sum.splits if_splits option.splits)

lemma getConfigStorageDir_fst:
  "fst (getConfigStorageDir env w) = fst (getConfigStorageDir env w')"
  by (auto simp: getConfigStorageDir_def Let_def split: sum.splits option.splits)

lemma getManagerMetaPath_fst:
  "fst (getManagerMetaPath env w) = fst (getManagerMetaPath env w')"
  using getConfigStorageDir_fst [of env w w']
  by (auto simp: getManagerMetaPath_def split: prod.splits option.splits)

lemma Lock_held_fails:
  "files w (lock_path fl) \<noteq> None \<Longrightarrow>
     Lock env fl w = (Some (Wrap ''lock exists or creation failed'' (Os ErrExist)), w)"
  by (auto simp: Lock_def os_OpenFile_excl_def)

lemma Lock_free_succeeds:
  "files w (lock_path fl) = None \<Longrightarrow> open_fault env (lock_path fl) = None \<Longrightarrow>
   close_fault env (lock_path fl) = None \<Longrightarrow> fst (Lock env fl w) = None"
  by (auto simp: Lock_def os_OpenFile_excl_def file_Close_def)

lemma writeManagerMeta_releases:
  assumes path: "getManagerMetaPath env w = (Inr metaPath, w1)"
    and lk: "Lock env (NewFileLock (metaPath @ ''.lock'')) w1 = (None, w2)"
  shows "files (snd (writeManagerMeta env cd meta w)) (metaPath @ ''.lock'') = None"
proof -
  obtain res w3 where
    body: "writeManagerMeta_locked env cd meta metaPath w2 = (res, w3)"
    by (cases "writeManagerMeta_locked env cd meta metaPath w2")
  with path lk have "snd (writeManagerMeta env cd meta w) =
      snd (Unlock (NewFileLock (metaPath @ ''.lock'')) w3)"
    by (simp add: writeManagerMeta_def Let_def)
  then show ?thesis by (simp add: files_Unlock NewFileLock_def)
qed


subsection \<open>The JSON codec reads what it writes\<close>

text \<open>Strings: \<open>unquote\<close> undoes \<open>appendString\<close> on well-formed UTF-8.\<close>

lemma utf8_first_Some:
  "utf8_first c = Some (n, lo, hi) \<Longrightarrow> 2 \<le> n \<and> \<not> of_char c < (0x80 :: nat)"
  by (simp add: utf8_first_def in_range_def split: if_splits)

lemma utf8_size_cases:
  assumes "utf8_size s \<noteq> 0"
  obtains c c1 cs1 n lo hi where "s = c # c1 # cs1" "utf8_first c = Some (n, lo, hi)"
    "n \<le> length s" "in_range lo hi c1" "list_all (in_range 0x80 0xBF) (take (n - 2) cs1)"
    "utf8_size s = n"
proof -
  from assms obtain c cs where s: "s = c # cs"
    by (cases s) (simp_all add: utf8_size_def)
  with assms obtain n lo hi where f: "utf8_first c = Some (n, lo, hi)"
    by (cases "utf8_first c") (auto simp: utf8_size_def)
  with assms s obtain c1 cs1 where cs: "cs = c1 # cs1"
    by (cases cs) (simp_all add: utf8_size_def)
  with assms s f have "n \<le> length s \<and> in_range lo hi c1 \<and>
      list_all (in_range 0x80 0xBF) (take (n - 2) cs1) \<and> utf8_size s = n"
    by (simp add: utf8_size_def split: if_splits)
  with s cs f that show thesis by blast
qed

lemma utf8_size_le: "utf8_size s \<le> length s"
proof (cases "utf8_size s = 0")
  case True
  then show ?thesis by simp
next
  case False
  then show ?thesis by (rule utf8_size_cases) simp
qed

lemma utf8_size_ge: "utf8_size s \<noteq> 0 \<Longrightarrow> 2 \<le> utf8_size s"
  by (erule utf8_size_cases) (simp add: utf8_first_Some)

lemma utf8_size_head: "utf8_size (c # cs) \<noteq> 0 \<Longrightarrow> \<not> of_char c < (0x80 :: nat)"
  by (erule utf8_size_cases) (simp add: utf8_first_Some)

lemma utf8_size_prefix:
  assumes "utf8_size s \<noteq> 0"
  shows "utf8_size (take (utf8_size s) s @ t) = utf8_size s"
proof -
  from assms obtain c c1 cs1 n lo hi where s: "s = c # c1 # cs1"
    and f: "utf8_first c = Some (n, lo, hi)"
    and ok: "n \<le> length s" "in_range lo hi c1" "list_all (in_range 0x80 0xBF) (take (n - 2) cs1)"
    and sz: "utf8_size s = n"
    by (rule utf8_size_cases)
  from f have n2: "2 \<le> n" by (simp add: utf8_first_Some)
  then obtain k where k: "n = Suc (Suc k)" by (metis Suc_le_D numeral_2_eq_2 Suc_le_mono)
  from ok(1) s k have len: "k \<le> length cs1" by simp
  have "utf8_size (take n s @ t) = n"
    using f ok len by (simp add: s k utf8_size_def min_def)
  with sz show ?thesis by simp
qed

lemma utf8_size_E2:
  assumes "utf8_size (CHR 0xE2 # cs) \<noteq> 0"
  shows "utf8_size (CHR 0xE2 # cs) = 3"
proof -
  have "utf8_first (CHR 0xE2) = Some (3, 0x80, 0xBF)" by (simp add: utf8_first_def in_range_def)
  with assms show ?thesis by - (erule utf8_size_cases, simp)
qed

lemma hex_value_hex: "n < 16 \<Longrightarrow> hex_value (hex n) = Some n"
proof -
  assume "n < 16"
  then have "n \<in> set [0, 1, 2, 3, 4, 5, 6, 7, 8, 9, 10, 11, 12, 13, 14, 15]"
    by simp arith
  then show ?thesis by (auto simp: hex_def hex_value_def in_range_def)
qed

lemma emit_Some [simp]: "emit out (Some (s, rest)) = Some (out @ s, rest)"
  by (simp add: emit_def)

lemma utf8_EncodeRune_2028: "utf8_EncodeRune 8232 = [CHR 0xE2, CHR 0x80, CHR 0xA8]"
  and utf8_EncodeRune_2029: "utf8_EncodeRune 8233 = [CHR 0xE2, CHR 0x80, CHR 0xA9]"
  by (simp_all add: utf8_EncodeRune_def char_of_eq_iff take_bit_eq_mod)

lemma unquote_escape:
  assumes "of_char c < (0x80 :: nat)" "\<not> htmlSafeSet c"
  shows "unquote (escape c @ t) = emit [c] (unquote t)"
proof -
  have h1: "hex_value (hex (of_char c div 16)) = Some (of_char c div 16)"
    using assms(1) by (intro hex_value_hex) simp
  have h2: "hex_value (hex (of_char c mod 16)) = Some (of_char c mod 16)"
    by (intro hex_value_hex) simp
  have z: "hex_value CHR ''0'' = Some 0" by (simp add: hex_value_def in_range_def)
  have u: "getu4 (CHR ''0'' # CHR ''0'' # hex (of_char c div 16) # hex (of_char c mod 16) # t) =
             Some (of_char c)"
    by (simp add: getu4_def h1 h2 z)
  show ?thesis
    using assms(1)
    by (simp add: escape_def unquote.simps unescape_def u utf8_EncodeRune_def)
qed

lemma unquote_appendString_body:
  "utf8_ValidString s \<Longrightarrow> unquote (appendString_body s @ CHR 0x22 # rest) = Some (s, rest)"
proof (induction s rule: appendString_body.induct)
  case 1
  show ?case by (simp add: appendString_body.simps unquote.simps)
next
  case (2 c cs)
  show ?case
  proof (cases "of_char c < (0x80 :: nat)")
    case True
    with "2.prems" have v: "utf8_ValidString cs" by (simp add: utf8_ValidString.simps)
    note IH = "2.IH"(1) [OF True v]
    show ?thesis
    proof (cases "htmlSafeSet c")
      case safe: True
      then have "c \<noteq> CHR 0x22" "c \<noteq> CHR 0x5C" "\<not> of_char c < (0x20 :: nat)"
        by (auto simp: htmlSafeSet_def in_range_def)
      with True safe IH show ?thesis
        by (simp add: appendString_body.simps(2) [of c cs] unquote.simps(2) [of c])
    next
      case False
      with True IH show ?thesis
        by (simp add: appendString_body.simps(2) [of c cs] unquote_escape)
    qed
  next
    case False
    let ?n = "utf8_size (c # cs)"
    from False "2.prems" have n0: "?n \<noteq> 0" and v: "utf8_ValidString (drop ?n (c # cs))"
      by (auto simp: utf8_ValidString.simps(2) [of c cs] split: if_splits)
    have c: "c \<noteq> CHR 0x22" "c \<noteq> CHR 0x5C" "\<not> of_char c < (0x20 :: nat)"
      using False by auto
    have td: "take ?n (c # cs) @ drop ?n (c # cs) = c # cs" by (rule append_take_drop_id)
    show ?thesis
    proof (cases "take 3 (c # cs) = [CHR 0xE2, CHR 0x80, CHR 0xA8]")
      case a: True
      note IH = "2.IH"(3) [OF False n0 a v]
      from a obtain cs' where cs: "c # cs = [CHR 0xE2, CHR 0x80, CHR 0xA8] @ cs'"
        by (metis append_take_drop_id)
      then have n3: "?n = 3"
        using n0 utf8_size_E2 by simp
      have "unquote (CHR 0x5C # ''u2028'' @ t) = emit [CHR 0xE2, CHR 0x80, CHR 0xA8] (unquote t)" for t
        by (simp add: unquote.simps getu4_def hex_value_def in_range_def utf8_EncodeRune_2028)
      moreover have "appendString_body (c # cs) =
          CHR 0x5C # ''u2028'' @ appendString_body (drop ?n (c # cs))"
        using False n0 a by (subst appendString_body.simps(2)) simp
      moreover have "drop ?n (c # cs) = cs'" "c # cs = [CHR 0xE2, CHR 0x80, CHR 0xA8] @ cs'"
        using cs n3 by simp_all
      ultimately show ?thesis using IH by simp
    next
      case na: False
      show ?thesis
      proof (cases "take 3 (c # cs) = [CHR 0xE2, CHR 0x80, CHR 0xA9]")
        case b: True
        note IH = "2.IH"(4) [OF False n0 na b v]
        from b obtain cs' where cs: "c # cs = [CHR 0xE2, CHR 0x80, CHR 0xA9] @ cs'"
          by (metis append_take_drop_id)
        then have n3: "?n = 3"
          using n0 utf8_size_E2 by simp
        have "unquote (CHR 0x5C # ''u2029'' @ t) = emit [CHR 0xE2, CHR 0x80, CHR 0xA9] (unquote t)" for t
          by (simp add: unquote.simps getu4_def hex_value_def in_range_def utf8_EncodeRune_2029)
        moreover have "appendString_body (c # cs) =
            CHR 0x5C # ''u2029'' @ appendString_body (drop ?n (c # cs))"
          using False n0 na b by (subst appendString_body.simps(2)) simp
        moreover have "drop ?n (c # cs) = cs'" "c # cs = [CHR 0xE2, CHR 0x80, CHR 0xA9] @ cs'"
          using cs n3 by simp_all
        ultimately show ?thesis using IH by simp
      next
        case nb: False
        note IH = "2.IH"(5) [OF False n0 na nb v]
        let ?t = "appendString_body (drop ?n (c # cs)) @ CHR 0x22 # rest"
        from n0 utf8_size_ge [of "c # cs"] utf8_size_le [of "c # cs"]
        obtain k where k: "?n = Suc k" "k \<le> length cs" by (cases ?n) auto
        then have tk: "take ?n (c # cs) @ ?t = c # take k cs @ ?t" by simp
        have sz: "utf8_size (c # take k cs @ ?t) = ?n"
          using utf8_size_prefix [OF n0, of ?t] tk by simp
        have dr: "drop ?n (c # take k cs @ ?t) = ?t"
          using k by simp
        have tk2: "take ?n (c # take k cs @ ?t) = take ?n (c # cs)"
          using k by simp
        have "unquote (c # take k cs @ ?t) = emit (take ?n (c # cs)) (unquote ?t)"
          using c False n0 by (simp add: unquote.simps(2) [of c] sz dr tk2)
        with IH have "unquote (take ?n (c # cs) @ ?t) = Some (take ?n (c # cs) @ drop ?n (c # cs), rest)"
          by (simp add: tk)
        moreover have "appendString_body (c # cs) =
            take ?n (c # cs) @ appendString_body (drop ?n (c # cs))"
          by (subst appendString_body.simps(2)) (simp only: False n0 na nb if_False)
        ultimately show ?thesis
          by (simp only: td append_assoc)
      qed
    qed
  qed
qed

text \<open>Integers: \<open>scan_integer\<close> undoes \<open>strconv_FormatInt\<close>.\<close>

lemma digit_props:
  assumes "n < 10"
  shows "is_digit (digit n)" "of_char (digit n) - (0x30 :: nat) = n" "digit n = CHR ''0'' \<longleftrightarrow> n = 0"
    "digit n \<noteq> CHR ''-''" "digit n \<noteq> CHR ''n''"
proof -
  from assms have "n \<in> set [0, 1, 2, 3, 4, 5, 6, 7, 8, 9]"
    by simp arith
  then show "is_digit (digit n)" "of_char (digit n) - (0x30 :: nat) = n"
    "digit n = CHR ''0'' \<longleftrightarrow> n = 0" "digit n \<noteq> CHR ''-''" "digit n \<noteq> CHR ''n''"
    by (auto simp: digit_def is_digit_def in_range_def)
qed

lemma is_digit_not: "is_digit c \<Longrightarrow> c \<noteq> CHR ''-'' \<and> c \<noteq> CHR ''n'' \<and> \<not> is_space c"
  by (auto simp: is_digit_def in_range_def is_space_def)

lemma formatBits_digits: "list_all is_digit (formatBits n)"
proof (induction n rule: formatBits.induct)
  case (1 n)
  then show ?case by (subst formatBits.simps) (simp add: digit_props)
qed

lemma formatBits_value: "foldl (\<lambda>a c. 10 * a + (of_char c - 0x30)) 0 (formatBits n) = n"
proof (induction n rule: formatBits.induct)
  case (1 n)
  then show ?case by (subst formatBits.simps) (simp add: digit_props)
qed

lemma formatBits_head:
  "\<exists>d ds. formatBits n = d # ds \<and> is_digit d \<and> (d = CHR ''0'' \<longrightarrow> n = 0 \<and> ds = [])"
proof (induction n rule: formatBits.induct)
  case (1 n)
  show ?case
  proof (cases "n < 10")
    case True
    then show ?thesis by (subst formatBits.simps) (simp add: digit_props)
  next
    case False
    with 1 obtain d ds where "formatBits (n div 10) = d # ds" "is_digit d" "d \<noteq> CHR ''0''"
      by fastforce
    with False show ?thesis by (subst formatBits.simps) simp
  qed
qed

lemma scan_digits_append:
  "list_all is_digit ds \<Longrightarrow>
   scan_digits acc (ds @ rest) = scan_digits (foldl (\<lambda>a c. 10 * a + (of_char c - 0x30)) acc ds) rest"
  by (induction ds arbitrary: acc) simp_all

lemma scan_digits_formatBits:
  "scan_digits 0 (formatBits n @ CHR '','' # r) = (n, CHR '','' # r)"
  by (simp add: scan_digits_append formatBits_digits formatBits_value is_digit_def in_range_def)

lemma scan_integer_formatBits:
  "scan_integer (formatBits n @ CHR '','' # r) = Some (int n, CHR '','' # r)"
proof -
  obtain d ds where f: "formatBits n = d # ds" and d: "is_digit d"
    and z: "d = CHR ''0'' \<longrightarrow> n = 0 \<and> ds = []"
    using formatBits_head by blast
  from d have nd: "d \<noteq> CHR ''-''" by (simp add: is_digit_not)
  have c: "\<not> is_digit CHR '',''" "CHR '','' \<noteq> CHR ''.''" by (simp_all add: is_digit_def in_range_def)
  show ?thesis
  proof (cases "d = CHR ''0''")
    case True
    with z f d show ?thesis by (simp add: scan_integer_def c)
  next
    case False
    have "scan_digits 0 (d # ds @ CHR '','' # r) = (n, CHR '','' # r)"
      using scan_digits_formatBits [of n r] f by simp
    with False d nd show ?thesis
      by (simp add: scan_integer_def f c Let_def del: scan_digits.simps)
  qed
qed

lemma scan_integer_FormatInt:
  "scan_integer (strconv_FormatInt i @ CHR '','' # r) = Some (i, CHR '','' # r)"
proof (cases "i < 0")
  case False
  then show ?thesis using scan_integer_formatBits [of "nat i" r] by (simp add: strconv_FormatInt_def)
next
  case True
  let ?n = "nat (- i)"
  obtain d ds where f: "formatBits ?n = d # ds" and d: "is_digit d"
    and z: "d = CHR ''0'' \<longrightarrow> ?n = 0 \<and> ds = []"
    using formatBits_head by blast
  from True z have nz: "d \<noteq> CHR ''0''" by auto
  have c: "\<not> is_digit CHR '',''" "CHR '','' \<noteq> CHR ''.''" by (simp_all add: is_digit_def in_range_def)
  have "scan_digits 0 (d # ds @ CHR '','' # r) = (?n, CHR '','' # r)"
    using scan_digits_formatBits [of ?n r] f by simp
  with True nz d show ?thesis
    by (simp add: strconv_FormatInt_def scan_integer_def f c Let_def del: scan_digits.simps)
qed

lemma FormatInt_head: "\<exists>d ds. strconv_FormatInt i = d # ds \<and> d \<noteq> CHR ''n'' \<and> \<not> is_space d"
proof (cases "i < 0")
  case True
  then show ?thesis by (simp add: strconv_FormatInt_def is_space_def)
next
  case False
  obtain d ds where "formatBits (nat i) = d # ds" "is_digit d"
    using formatBits_head by blast
  with False show ?thesis by (simp add: strconv_FormatInt_def is_digit_not)
qed

lemma decode_int_FormatInt:
  "decode_int old (strconv_FormatInt (sint w) @ CHR '','' # r) = Some (w, CHR '','' # r)"
proof -
  obtain d ds where h: "strconv_FormatInt (sint w) = d # ds" "d \<noteq> CHR ''n''"
    using FormatInt_head by blast
  have b: "- (2 ^ 63) \<le> sint w" "sint w < 2 ^ 63"
    using sint_ge [of w] sint_lt [of w] by simp_all
  have "scan_integer (d # ds @ CHR '','' # r) = Some (sint w, CHR '','' # r)"
    using scan_integer_FormatInt [of "sint w" r] h by simp
  with h b show ?thesis by (simp add: decode_int_def)
qed

lemma skip_space_simps [simp]:
  "skip_space [] = []"
  "skip_space (c # s) = (if is_space c then skip_space s else c # s)"
  by (simp_all add: skip_space_def)

lemma skip_space_appendString: "skip_space (appendString v @ t) = appendString v @ t"
  by (simp add: appendString_def is_space_def)

lemma skip_space_FormatInt: "skip_space (strconv_FormatInt i @ t) = strconv_FormatInt i @ t"
proof -
  obtain d ds where "strconv_FormatInt i = d # ds" "\<not> is_space d"
    using FormatInt_head by blast
  then show ?thesis by simp
qed

lemma decode_string_appendString:
  "utf8_ValidString v \<Longrightarrow> decode_string old (appendString v @ t) = Some (v, t)"
  by (simp add: decode_string_def appendString_def unquote_appendString_body)

lemma unquote_names:
  "unquote (''directory'' @ CHR 0x22 # t) = Some (''directory'', t)"
  "unquote (''creation_date'' @ CHR 0x22 # t) = Some (''creation_date'', t)"
  "unquote (''wordpress_version'' @ CHR 0x22 # t) = Some (''wordpress_version'', t)"
  "unquote (''db_version'' @ CHR 0x22 # t) = Some (''db_version'', t)"
  "unquote (''wordpress_port'' @ CHR 0x22 # t) = Some (''wordpress_port'', t)"
  "unquote (''status'' @ CHR 0x22 # t) = Some (''status'', t)"
  by (simp_all add: unquote.simps)

lemma appendString_names:
  "appendString ''directory'' = CHR 0x22 # ''directory'' @ [CHR 0x22]"
  "appendString ''creation_date'' = CHR 0x22 # ''creation_date'' @ [CHR 0x22]"
  "appendString ''wordpress_version'' = CHR 0x22 # ''wordpress_version'' @ [CHR 0x22]"
  "appendString ''db_version'' = CHR 0x22 # ''db_version'' @ [CHR 0x22]"
  "appendString ''wordpress_port'' = CHR 0x22 # ''wordpress_port'' @ [CHR 0x22]"
  "appendString ''status'' = CHR 0x22 # ''status'' @ [CHR 0x22]"
  by (simp_all add: appendString_def appendString_body.simps htmlSafeSet_def in_range_def)

text \<open>Records, entries and the whole document.\<close>

lemma decode_InstanceMeta:
  assumes v: "utf8_InstanceMeta r" and fuel: "6 \<le> fuel"
  shows "decode_object fuel member_InstanceMeta InstanceMeta_zero (encode_InstanceMeta r @ rest) =
           Some (r, rest)"
proof -
  from fuel obtain k where "fuel = 6 + k"
    using le_Suc_ex by blast
  then have k: "fuel = Suc (Suc (Suc (Suc (Suc (Suc k)))))" by simp
  have r: "\<lparr>Directory = Directory r, CreationDate = CreationDate r,
      WordPressVersion = WordPressVersion r, DBVersion = DBVersion r,
      WordPressPort = WordPressPort r, Status = Status r\<rparr> = r"
    by simp
  from v show ?thesis
    by (simp add: k decode_object_def encode_InstanceMeta_def encode_field_def is_space_def
        appendString_names unquote_names [simplified] member_InstanceMeta_def
        skip_space_appendString skip_space_FormatInt decode_string_appendString
        decode_int_FormatInt utf8_InstanceMeta_def InstanceMeta_zero_def r)
qed


lemma member_ManagerMeta_entry:
  assumes "utf8_InstanceMeta r" "6 \<le> F"
  shows "member_ManagerMeta F k (encode_InstanceMeta r @ rest) m = Some (m(k \<mapsto> r), rest)"
  using assms by (simp add: member_ManagerMeta_def decode_InstanceMeta)

lemma encode_InstanceMeta_head: "\<exists>t. encode_InstanceMeta r = CHR ''{'' # t"
  by (simp add: encode_InstanceMeta_def)

lemma object_members_entry:
  assumes r: "m k = Some r" and v: "utf8_ValidString k" "utf8_InstanceMeta r" and F: "6 \<le> F"
  shows "object_members (Suc n) (member_ManagerMeta F) (CHR 0x0A # encode_entry m k @ c # rest) acc =
           (if c = CHR '','' then object_members n (member_ManagerMeta F) rest (acc(k \<mapsto> r))
            else if c = CHR ''}'' then Some (acc(k \<mapsto> r), rest)
            else if is_space c then
              (case skip_space rest of
                 [] \<Rightarrow> None
               | c3 # s5 \<Rightarrow>
                   if c3 = CHR '','' then object_members n (member_ManagerMeta F) s5 (acc(k \<mapsto> r))
                   else if c3 = CHR ''}'' then Some (acc(k \<mapsto> r), s5)
                   else None)
            else None)"
proof -
  obtain t where t: "encode_InstanceMeta r = CHR ''{'' # t"
    using encode_InstanceMeta_head by blast
  have sk: "skip_space (encode_InstanceMeta r @ u) = encode_InstanceMeta r @ u" for u
    by (simp add: t is_space_def)
  show ?thesis
    using v(1)
    by (simp add: encode_entry_def r appendString_def is_space_def unquote_appendString_body sk
        member_ManagerMeta_entry [OF v(2) F])
qed

lemma object_members_entries:
  assumes "\<And>k. k \<in> set ks \<Longrightarrow> \<exists>r. m k = Some r \<and> utf8_ValidString k \<and> utf8_InstanceMeta r"
    and "ks \<noteq> []" and "length ks \<le> fuel" and "6 \<le> F"
  shows "object_members fuel (member_ManagerMeta F)
           (CHR 0x0A # encode_entries m ks @ CHR 0x0A # CHR ''}'' # rest) acc =
         Some (foldl (\<lambda>a k. a(k \<mapsto> the (m k))) acc ks, rest)"
  using assms
proof (induction m ks arbitrary: fuel acc rule: encode_entries.induct)
  case (1 m)
  then show ?case by simp
next
  case (2 m k)
  from "2.prems"(1) [of k] obtain r where r: "m k = Some r" "utf8_ValidString k" "utf8_InstanceMeta r"
    by auto
  from "2.prems"(3) obtain n where n: "fuel = Suc n" by (cases fuel) auto
  note step = object_members_entry [where m = m and k = k and r = r and F = F, OF r "2.prems"(4)]
  have "object_members (Suc n) (member_ManagerMeta F)
          (CHR 0x0A # encode_entry m k @ CHR 0x0A # CHR ''}'' # rest) acc = Some (acc(k \<mapsto> r), rest)"
    by (simp add: step is_space_def del: object_members.simps)
  moreover have "foldl (\<lambda>a k. a(k \<mapsto> the (m k))) acc [k] = acc(k \<mapsto> r)"
    by (simp add: r)
  ultimately show ?case
    by (simp only: n encode_entries.simps)
next
  case (3 m k k' ks)
  from "3.prems"(1) [of k] obtain r where r: "m k = Some r" "utf8_ValidString k" "utf8_InstanceMeta r"
    by auto
  from "3.prems"(3) obtain n where n: "fuel = Suc n" by (cases fuel) auto
  have IH: "object_members n (member_ManagerMeta F)
              (CHR 0x0A # encode_entries m (k' # ks) @ CHR 0x0A # CHR ''}'' # rest) (acc(k \<mapsto> r)) =
            Some (foldl (\<lambda>a k. a(k \<mapsto> the (m k))) (acc(k \<mapsto> r)) (k' # ks), rest)"
    using "3.prems" n by (intro "3.IH") auto
  note step = object_members_entry [where m = m and k = k and r = r and F = F, OF r "3.prems"(4)]
  have "object_members (Suc n) (member_ManagerMeta F)
          (CHR 0x0A # encode_entry m k @
           CHR '','' # CHR 0x0A # encode_entries m (k' # ks) @ CHR 0x0A # CHR ''}'' # rest) acc =
        Some (foldl (\<lambda>a k. a(k \<mapsto> the (m k))) (acc(k \<mapsto> r)) (k' # ks), rest)"
    by (simp only: step IH simp_thms if_True)
  moreover have "foldl (\<lambda>a k. a(k \<mapsto> the (m k))) acc (k # k' # ks) =
      foldl (\<lambda>a k. a(k \<mapsto> the (m k))) (acc(k \<mapsto> r)) (k' # ks)"
    by (simp add: r)
  ultimately show ?case
    by (simp only: n encode_entries.simps append_assoc append_Cons append_Nil)
qed

lemma foldl_entries:
  "foldl (\<lambda>a k. a(k \<mapsto> the (m k))) acc ks = (\<lambda>x. if x \<in> set ks then Some (the (m x)) else acc x)"
  by (induction ks arbitrary: acc) (auto simp: fun_eq_iff)

lemma encode_entry_length: "6 \<le> length (encode_entry m k)"
  by (simp add: encode_entry_def appendString_def)

lemma encode_entries_length: "ks \<noteq> [] \<Longrightarrow> 6 \<le> length (encode_entries m ks) \<and> length ks \<le> length (encode_entries m ks)"
proof (induction m ks rule: encode_entries.induct)
  case (1 m)
  then show ?case by simp
next
  case (2 m k)
  then show ?case using encode_entry_length [of m k] by simp
next
  case (3 m k k' ks)
  then show ?case using encode_entry_length [of m k] by simp
qed

lemma encode_entries_head:
  "ks \<noteq> [] \<Longrightarrow> \<exists>t. skip_space (CHR 0x0A # encode_entries m ks @ u) = CHR 0x22 # t"
  by (induction m ks rule: encode_entries.induct)
    (simp_all add: encode_entry_def appendString_def is_space_def)

lemma Unmarshal_MarshalIndent:
  assumes fin: "finite (dom m)"
    and v: "\<And>k r. m k = Some r \<Longrightarrow> utf8_ValidString k \<and> utf8_InstanceMeta r"
    and enc: "MarshalIndent_ManagerMeta m = Inr data"
  shows "data \<noteq> [] \<and> Unmarshal_ManagerMeta data = (m, None)"
proof (cases "sorted_list_of_set (dom m) = []")
  case True
  with fin have "dom m = {}" by simp
  then have "m = Map.empty" by simp
  with True enc show ?thesis
    by (auto simp: MarshalIndent_ManagerMeta_def encode_ManagerMeta_def Unmarshal_ManagerMeta_def
        decode_object_def is_space_def)
next
  case False
  let ?ks = "sorted_list_of_set (dom m)"
  let ?body = "CHR 0x0A # encode_entries m ?ks @ [CHR 0x0A, CHR ''}'']"
  define F where "F = length data"
  from False enc have data: "data = CHR ''{'' # ?body"
    by (auto simp: MarshalIndent_ManagerMeta_def encode_ManagerMeta_def)
  from fin have ks: "set ?ks = dom m" by simp
  have keys: "\<exists>r. m k = Some r \<and> utf8_ValidString k \<and> utf8_InstanceMeta r" if "k \<in> set ?ks" for k
    using that ks v by auto
  from encode_entries_length [OF False, of m]
  have len: "length ?ks \<le> F" "6 \<le> F" by (simp_all add: F_def data)
  have "object_members F (member_ManagerMeta F)
          (CHR 0x0A # encode_entries m ?ks @ CHR 0x0A # CHR ''}'' # []) Map.empty =
        Some (foldl (\<lambda>a k. a(k \<mapsto> the (m k))) Map.empty ?ks, [])"
    using keys False len by (rule object_members_entries)
  moreover have "foldl (\<lambda>a k. a(k \<mapsto> the (m k))) Map.empty ?ks = m"
    by (auto simp: foldl_entries ks fun_eq_iff domIff)
  ultimately have mem: "object_members F (member_ManagerMeta F) ?body Map.empty = Some (m, [])"
    by simp
  obtain t where t: "skip_space ?body = CHR 0x22 # t"
    using encode_entries_head [OF False] by blast
  have sk: "skip_space data = data"
    by (simp add: data is_space_def)
  have "decode_object F (member_ManagerMeta F) Map.empty data = Some (m, [])"
    by (simp add: data decode_object_def t mem del: skip_space_simps(2) object_members.simps)
  then have "Unmarshal_ManagerMeta data = (m, None)"
    by (simp add: Unmarshal_ManagerMeta_def F_def [symmetric] sk)
  with data show ?thesis by simp
qed

text \<open>
  The two directions on concrete data: a registry whose name and directory need escapes,
  and a document with its members out of order, an escape in a value and a \<open>null\<close> record.
  The last lemma is the limit of the round trip: a byte that is not UTF-8 comes back as
  U+FFFD.
\<close>

lemmas json_simps = encode_ManagerMeta_def encode_entry_def encode_InstanceMeta_def encode_field_def
  appendString_def appendString_body.simps htmlSafeSet_def escape_def hex_def in_range_def
  utf8_size_def utf8_first_def strconv_FormatInt_def formatBits.simps digit_def
  Unmarshal_ManagerMeta_def decode_object_def is_space_def unquote.simps unescape_def getu4_def
  hex_value_def utf16_DecodeRune_def utf8_EncodeRune_def member_ManagerMeta_def
  member_InstanceMeta_def decode_string_def decode_int_def scan_integer_def is_digit_def
  literal_null_def InstanceMeta_zero_def

lemma encode_ManagerMeta_example:
  "encode_ManagerMeta
     [''b&b'' \<mapsto> \<lparr>Directory = ''/sites/'' @ [CHR 0xC3, CHR 0xA9, CHR 0x22, CHR 0x09],
                    CreationDate = ''2025-05-01'', WordPressVersion = ''6.5'', DBVersion = [],
                    WordPressPort = - 1, Status = ''Up''\<rparr>] =
   ''{'' @ CHR 0x0A #
   ''  '' @ CHR 0x22 # ''b'' @ CHR 0x5C # ''u0026b'' @ CHR 0x22 # '': {'' @ CHR 0x0A #
   ''    '' @ CHR 0x22 # ''directory'' @ CHR 0x22 # '': '' @
       CHR 0x22 # ''/sites/'' @ CHR 0xC3 # CHR 0xA9 # CHR 0x5C # CHR 0x22 # CHR 0x5C # ''t'' @
       CHR 0x22 # '','' @ CHR 0x0A #
   ''    '' @ CHR 0x22 # ''creation_date'' @ CHR 0x22 # '': '' @ CHR 0x22 # ''2025-05-01'' @
       CHR 0x22 # '','' @ CHR 0x0A #
   ''    '' @ CHR 0x22 # ''wordpress_version'' @ CHR 0x22 # '': '' @ CHR 0x22 # ''6.5'' @
       CHR 0x22 # '','' @ CHR 0x0A #
   ''    '' @ CHR 0x22 # ''db_version'' @ CHR 0x22 # '': '' @ CHR 0x22 # CHR 0x22 # '','' @ CHR 0x0A #
   ''    '' @ CHR 0x22 # ''wordpress_port'' @ CHR 0x22 # '': -1,'' @ CHR 0x0A #
   ''    '' @ CHR 0x22 # ''status'' @ CHR 0x22 # '': '' @ CHR 0x22 # ''Up'' @ CHR 0x22 # CHR 0x0A #
   ''  }'' @ CHR 0x0A #
   ''}''"
  by (simp add: json_simps)

lemma Unmarshal_ManagerMeta_example:
  "Unmarshal_ManagerMeta
     (''{ '' @ CHR 0x22 # ''a'' @ CHR 0x22 # '':{'' @ CHR 0x22 # ''status'' @ CHR 0x22 # '' : '' @
      CHR 0x22 # ''U'' @ CHR 0x5C # ''u0070'' @ CHR 0x22 # '', '' @
      CHR 0x22 # ''wordpress_port'' @ CHR 0x22 # '':-12}, '' @
      CHR 0x22 # ''b'' @ CHR 0x22 # '':null } '') =
   ([''a'' \<mapsto> InstanceMeta_zero\<lparr>WordPressPort := - 12, Status := ''Up''\<rparr>,
     ''b'' \<mapsto> InstanceMeta_zero], None)"
  by (simp add: json_simps char_of_def bit_iff_odd)

lemma Unmarshal_MarshalIndent_invalid_utf8:
  "Unmarshal_ManagerMeta (encode_ManagerMeta [''a'' \<mapsto> inst_a\<lparr>Directory := [CHR 0xFF]\<rparr>]) =
     ([''a'' \<mapsto> inst_a\<lparr>Directory := [CHR 0xEF, CHR 0xBF, CHR 0xBD]\<rparr>], None)"
  by (simp add: json_simps inst_a_def char_of_def bit_iff_odd)

subsection \<open>Evaluation on the concrete machine\<close>

lemmas demo_simps = demo_env_def faulty_env_def demo_codec_def demo_world_def empty_world_def
  demo_registry_def demo_render_def inst_a_def inst_b_def inst_c_def
  demo_metaPath_def demo_configPath_def

lemmas store_simps = writeManagerMeta_def getManagerMetaPath_def getConfigStorageDir_def
  filepath_Join_def filepath_Dir_def filepath_Base_def managerMetaFileName_def
  globalConfigFileName_def NewFileLock_def Lock_def Unlock_def
  os_OpenFile_excl_def file_Close_def file_Write_def os_Remove_def os_Rename_def
  os_CreateTemp_def temp_name_def writeManagerMeta_locked_def writeManagerMeta_temp_def
  remove_temp_def os_Stat_ok_def Let_def HasSuffix_def os_ReadFile_def
  writeGlobalManagerConfig_def writeGlobalManagerConfig_temp_def getGlobalConfigPath_def
  readManagerMeta_def readGlobalManagerConfig_def printWarning_def


subsection \<open>Claims about the store\<close>

text \<open>
  Claim C1.  For \<open>writeManagerMeta\<close> and for \<open>writeGlobalManagerConfig\<close>, whatever the
  record and wherever the target:
  \<^item> when no operation faults, the record serializes, a temporary name is free (and, for
    \<open>writeManagerMeta\<close>, the lock is free), the write succeeds;
  \<^item> when it succeeds, the log shows exactly these steps in this order: the temporary file
    is created in the directory of the target (\<open>filepath.Dir\<close> of the target path), the
    serialized record is written to it, it is closed, it is renamed onto the target; no
    step had faulted, and afterwards the target holds the serialized record and every
    other file is as before;
  \<^item> when it returns an error (so whenever a step before the rename, or the rename,
    fails), the target is as it was, and so is every other file that the clean-up was
    able to remove: the temporary file is gone unless its removal itself failed (for
    \<open>writeManagerMeta\<close>, the lock file aside).
\<close>

theorem store_write_atomic:
  assumes run: "writeManagerMeta env cd meta w = (res, w')"
    and grun: "writeGlobalManagerConfig env cd config w = (gres, gw')"
  shows
   "(\<forall>metaPath w1. getManagerMetaPath env w = (Inr metaPath, w1) \<longrightarrow>
       (fault_free env \<and> files w (metaPath @ ''.lock'') = None \<and>
        (\<exists>data. marshal_meta cd meta = Inr data) \<and>
        (\<exists>r \<in> set (temp_names env).
           files w (filepath_Join (filepath_Dir metaPath)
                      (managerMetaFileName @ ''.'' @ r @ ''.tmp'')) = None) \<longrightarrow>
        res = None) \<and>
       (res = None \<longrightarrow>
          (\<exists>data r. marshal_meta cd meta = Inr data \<and> r \<in> set (temp_names env) \<and>
             files w (metaPath @ ''.lock'') = None \<and>
             open_fault env (metaPath @ ''.lock'') = None \<and>
             close_fault env (metaPath @ ''.lock'') = None \<and>
             create_fault env (filepath_Dir metaPath) = None \<and>
             write_fault env (filepath_Join (filepath_Dir metaPath)
                        (managerMetaFileName @ ''.'' @ r @ ''.tmp'')) = None \<and>
             close_fault env (filepath_Join (filepath_Dir metaPath)
                        (managerMetaFileName @ ''.'' @ r @ ''.tmp'')) = None \<and>
             rename_fault env metaPath = None \<and>
             files w' = (files w)(metaPath \<mapsto> data) \<and>
             log w' = log w1 @
               [Created (metaPath @ ''.lock''), Closed (metaPath @ ''.lock''),
                Created (filepath_Join (filepath_Dir metaPath)
                           (managerMetaFileName @ ''.'' @ r @ ''.tmp'')),
                Wrote (filepath_Join (filepath_Dir metaPath)
                         (managerMetaFileName @ ''.'' @ r @ ''.tmp'')) data,
                Closed (filepath_Join (filepath_Dir metaPath)
                          (managerMetaFileName @ ''.'' @ r @ ''.tmp'')),
                Renamed (filepath_Join (filepath_Dir metaPath)
                           (managerMetaFileName @ ''.'' @ r @ ''.tmp'')) metaPath,
                Removed (metaPath @ ''.lock'')])) \<and>
       (res \<noteq> None \<longrightarrow>
          files w' metaPath = files w metaPath \<and>
          (\<forall>p. p \<noteq> metaPath @ ''.lock'' \<and> remove_fault env p = None \<longrightarrow>
             files w' p = files w p))) \<and>
    (\<forall>e w1. getManagerMetaPath env w = (Inl e, w1) \<longrightarrow> res \<noteq> None \<and> files w' = files w) \<and>
    (\<forall>configPath w1. getGlobalConfigPath env w = (Inr configPath, w1) \<longrightarrow>
       (fault_free env \<and> (\<exists>data. marshal_config cd config = Inr data) \<and>
        (\<exists>r \<in> set (temp_names env).
           files w (filepath_Join (filepath_Dir configPath)
                      (filepath_Base configPath @ ''.'' @ r @ ''.tmp'')) = None) \<longrightarrow>
        gres = None) \<and>
       (gres = None \<longrightarrow>
          (\<exists>data r. marshal_config cd config = Inr data \<and> r \<in> set (temp_names env) \<and>
             create_fault env (filepath_Dir configPath) = None \<and>
             write_fault env (filepath_Join (filepath_Dir configPath)
                           (filepath_Base configPath @ ''.'' @ r @ ''.tmp'')) = None \<and>
             close_fault env (filepath_Join (filepath_Dir configPath)
                           (filepath_Base configPath @ ''.'' @ r @ ''.tmp'')) = None \<and>
             rename_fault env configPath = None \<and>
             files gw' = (files w)(configPath \<mapsto> data) \<and>
             log gw' = log w1 @
               [Created (filepath_Join (filepath_Dir configPath)
                           (filepath_Base configPath @ ''.'' @ r @ ''.tmp'')),
                Wrote (filepath_Join (filepath_Dir configPath)
                         (filepath_Base configPath @ ''.'' @ r @ ''.tmp'')) data,
                Closed (filepath_Join (filepath_Dir configPath)
                          (filepath_Base configPath @ ''.'' @ r @ ''.tmp'')),
                Renamed (filepath_Join (filepath_Dir configPath)
                           (filepath_Base configPath @ ''.'' @ r @ ''.tmp'')) configPath])) \<and>
       (gres \<noteq> None \<longrightarrow>
          files gw' configPath = files w configPath \<and>
          (\<forall>p. remove_fault env p = None \<longrightarrow> files gw' p = files w p))) \<and>
    (\<forall>e w1. getGlobalConfigPath env w = (Inl e, w1) \<longrightarrow> gres \<noteq> None \<and> files gw' = files w)"
proof (intro conjI allI impI)
  fix metaPath w1
  assume path: "getManagerMetaPath env w = (Inr metaPath, w1)"
  {
    assume "fault_free env \<and> files w (metaPath @ ''.lock'') = None \<and>
        (\<exists>data. marshal_meta cd meta = Inr data) \<and>
        (\<exists>r \<in> set (temp_names env).
           files w (filepath_Join (filepath_Dir metaPath)
                      (managerMetaFileName @ ''.'' @ r @ ''.tmp'')) = None)"
    then obtain data where "fault_free env" "files w (metaPath @ ''.lock'') = None"
      "marshal_meta cd meta = Inr data"
      "\<exists>r \<in> set (temp_names env).
           files w (filepath_Join (filepath_Dir metaPath)
                      (managerMetaFileName @ ''.'' @ r @ ''.tmp'')) = None"
      by blast
    from writeManagerMeta_succeeds [OF path this] run show "res = None" by simp
  }
  {
    assume "res = None"
    with run have "writeManagerMeta env cd meta w = (None, w')" by simp
    from writeManagerMeta_ok_steps [OF path this]
    show "\<exists>data r. marshal_meta cd meta = Inr data \<and> r \<in> set (temp_names env) \<and>
             files w (metaPath @ ''.lock'') = None \<and>
             open_fault env (metaPath @ ''.lock'') = None \<and>
             close_fault env (metaPath @ ''.lock'') = None \<and>
             create_fault env (filepath_Dir metaPath) = None \<and>
             write_fault env (filepath_Join (filepath_Dir metaPath)
                        (managerMetaFileName @ ''.'' @ r @ ''.tmp'')) = None \<and>
             close_fault env (filepath_Join (filepath_Dir metaPath)
                        (managerMetaFileName @ ''.'' @ r @ ''.tmp'')) = None \<and>
             rename_fault env metaPath = None \<and>
             files w' = (files w)(metaPath \<mapsto> data) \<and>
             log w' = log w1 @
               [Created (metaPath @ ''.lock''), Closed (metaPath @ ''.lock''),
                Created (filepath_Join (filepath_Dir metaPath)
                           (managerMetaFileName @ ''.'' @ r @ ''.tmp'')),
                Wrote (filepath_Join (filepath_Dir metaPath)
                         (managerMetaFileName @ ''.'' @ r @ ''.tmp'')) data,
                Closed (filepath_Join (filepath_Dir metaPath)
                          (managerMetaFileName @ ''.'' @ r @ ''.tmp'')),
                Renamed (filepath_Join (filepath_Dir metaPath)
                           (managerMetaFileName @ ''.'' @ r @ ''.tmp'')) metaPath,
                Removed (metaPath @ ''.lock'')]" .
  }
  {
    assume "res \<noteq> None"
    then obtain err where "res = Some err" by auto
    with run have bad: "writeManagerMeta env cd meta w = (Some err, w')" by simp
    show "files w' metaPath = files w metaPath"
      by (rule writeManagerMeta_fail(1) [OF path bad])
    fix p
    assume "p \<noteq> metaPath @ ''.lock'' \<and> remove_fault env p = None"
    then show "files w' p = files w p"
      using writeManagerMeta_fail(2) [OF path bad] by blast
  }
next
  fix e w1
  assume path: "getManagerMetaPath env w = (Inl e, w1)"
  from writeManagerMeta_nopath [OF path, of cd meta] run
  show "res \<noteq> None" and "files w' = files w" by auto
next
  fix configPath w1
  assume path: "getGlobalConfigPath env w = (Inr configPath, w1)"
  {
    assume "fault_free env \<and> (\<exists>data. marshal_config cd config = Inr data) \<and>
        (\<exists>r \<in> set (temp_names env).
           files w (filepath_Join (filepath_Dir configPath)
                      (filepath_Base configPath @ ''.'' @ r @ ''.tmp'')) = None)"
    then obtain data where "fault_free env" "marshal_config cd config = Inr data"
      "\<exists>r \<in> set (temp_names env).
           files w (filepath_Join (filepath_Dir configPath)
                      (filepath_Base configPath @ ''.'' @ r @ ''.tmp'')) = None"
      by blast
    from writeGlobalManagerConfig_succeeds [OF path this] grun show "gres = None" by simp
  }
  {
    assume "gres = None"
    with grun have "writeGlobalManagerConfig env cd config w = (None, gw')" by simp
    from writeGlobalManagerConfig_ok [OF path this]
    show "\<exists>data r. marshal_config cd config = Inr data \<and> r \<in> set (temp_names env) \<and>
             create_fault env (filepath_Dir configPath) = None \<and>
             write_fault env (filepath_Join (filepath_Dir configPath)
                           (filepath_Base configPath @ ''.'' @ r @ ''.tmp'')) = None \<and>
             close_fault env (filepath_Join (filepath_Dir configPath)
                           (filepath_Base configPath @ ''.'' @ r @ ''.tmp'')) = None \<and>
             rename_fault env configPath = None \<and>
             files gw' = (files w)(configPath \<mapsto> data) \<and>
             log gw' = log w1 @
               [Created (filepath_Join (filepath_Dir configPath)
                           (filepath_Base configPath @ ''.'' @ r @ ''.tmp'')),
                Wrote (filepath_Join (filepath_Dir configPath)
                         (filepath_Base configPath @ ''.'' @ r @ ''.tmp'')) data,
                Closed (filepath_Join (filepath_Dir configPath)
                          (filepath_Base configPath @ ''.'' @ r @ ''.tmp'')),
                Renamed (filepath_Join (filepath_Dir configPath)
                           (filepath_Base configPath @ ''.'' @ r @ ''.tmp'')) configPath]" .
  }
  {
    assume "gres \<noteq> None"
    then obtain err where "gres = Some err" by auto
    with grun have bad: "writeGlobalManagerConfig env cd config w = (Some err, gw')" by simp
    show "files gw' configPath = files w configPath"
      by (rule writeGlobalManagerConfig_fail(1) [OF bad path])
    fix p
    assume "remove_fault env p = None"
    then show "files gw' p = files w p"
      by (rule writeGlobalManagerConfig_fail(2) [OF bad])
  }
next
  fix e w1
  assume path: "getGlobalConfigPath env w = (Inl e, w1)"
  with grun getGlobalConfigPath_files [OF path]
  show "gres \<noteq> None" and "files gw' = files w"
    by (auto simp: writeGlobalManagerConfig_def)
qed

theorem store_write_atomic_witness:
  "fst (writeManagerMeta demo_env demo_codec (demo_registry(''b'' := None)) demo_world) = None \<and>
   files (snd (writeManagerMeta demo_env demo_codec (demo_registry(''b'' := None)) demo_world)) =
     [demo_metaPath \<mapsto> ''a=/sites/a,Stopped;c=/sites/c,Stopped;''] \<and>
   fst (writeGlobalManagerConfig demo_env demo_codec
          \<lparr>SitesBaseDirectory = ''/sites'', Theme = ''dark''\<rparr> demo_world) = None \<and>
   files (snd (writeGlobalManagerConfig demo_env demo_codec
          \<lparr>SitesBaseDirectory = ''/sites'', Theme = ''dark''\<rparr> demo_world)) =
     (files demo_world)(demo_configPath \<mapsto> ''/sites|dark'') \<and>
   fst (writeManagerMeta faulty_env demo_codec (demo_registry(''b'' := None)) demo_world) =
     Some (Wrap ''failed to close temp metadata file'' (Os ErrIO)) \<and>
   files (snd (writeManagerMeta faulty_env demo_codec (demo_registry(''b'' := None)) demo_world)) =
     files demo_world \<and>
   fst (writeGlobalManagerConfig faulty_env demo_codec
          \<lparr>SitesBaseDirectory = ''/sites'', Theme = ''dark''\<rparr> demo_world) =
     Some (Wrap ''failed to close temp global config file'' (Os ErrIO)) \<and>
   files (snd (writeGlobalManagerConfig faulty_env demo_codec
          \<lparr>SitesBaseDirectory = ''/sites'', Theme = ''dark''\<rparr> demo_world)) = files demo_world"
proof -
  let ?m = "demo_registry(''b'' := None)"
  let ?c = "\<lparr>SitesBaseDirectory = ''/sites'', Theme = ''dark''\<rparr>"
  let ?s = "writeManagerMeta demo_env demo_codec ?m demo_world"
  let ?sg = "writeGlobalManagerConfig demo_env demo_codec ?c demo_world"
  let ?r = "writeManagerMeta faulty_env demo_codec ?m demo_world"
  let ?g = "writeGlobalManagerConfig faulty_env demo_codec ?c demo_world"
  have p: "getManagerMetaPath demo_env demo_world = (Inr demo_metaPath, demo_world)"
    and p': "getManagerMetaPath faulty_env demo_world = (Inr demo_metaPath, demo_world)"
    by (simp_all add: demo_simps store_simps)
  have gp: "getGlobalConfigPath demo_env demo_world = (Inr demo_configPath, demo_world)"
    and gp': "getGlobalConfigPath faulty_env demo_world = (Inr demo_configPath, demo_world)"
    by (simp_all add: demo_simps store_simps)
  have ff: "fault_free demo_env" by (simp add: fault_free_def demo_env_def)
  have free: "files demo_world (demo_metaPath @ ''.lock'') = None"
    by (simp add: demo_simps)
  have enc: "marshal_meta demo_codec ?m = Inr ''a=/sites/a,Stopped;c=/sites/c,Stopped;''"
    and genc: "marshal_config demo_codec ?c = Inr ''/sites|dark''"
    by (simp_all add: demo_simps)
  have tmp: "\<exists>r \<in> set (temp_names demo_env).
           files demo_world (filepath_Join (filepath_Dir demo_metaPath)
                      (managerMetaFileName @ ''.'' @ r @ ''.tmp'')) = None"
    and gtmp: "\<exists>r \<in> set (temp_names demo_env).
           files demo_world (filepath_Join (filepath_Dir demo_configPath)
                      (filepath_Base demo_configPath @ ''.'' @ r @ ''.tmp'')) = None"
    by (simp_all add: demo_simps store_simps)
  have s': "?s = (fst ?s, snd ?s)" and sg': "?sg = (fst ?sg, snd ?sg)"
    and r': "?r = (fst ?r, snd ?r)" and g': "?g = (fst ?g, snd ?g)" by simp_all
  note ok = store_write_atomic [OF s' sg']
  from ok p ff free enc tmp have s0: "fst ?s = None" by blast
  from ok gp ff genc gtmp have sg0: "fst ?sg = None" by blast
  from ok p s0 enc have s1: "files (snd ?s) =
      (files demo_world)(demo_metaPath \<mapsto> ''a=/sites/a,Stopped;c=/sites/c,Stopped;'')"
    by fastforce
  from ok gp sg0 genc have sg1: "files (snd ?sg) =
      (files demo_world)(demo_configPath \<mapsto> ''/sites|dark'')"
    by fastforce
  have r0: "fst ?r = Some (Wrap ''failed to close temp metadata file'' (Os ErrIO))"
    by (simp add: demo_simps store_simps)
  have g0: "fst ?g = Some (Wrap ''failed to close temp global config file'' (Os ErrIO))"
    by (simp add: demo_simps store_simps)
  have nrf: "remove_fault faulty_env q = None" for q
    by (simp add: faulty_env_def demo_env_def)
  have lockfree: "files (snd ?r) (demo_metaPath @ ''.lock'') =
      files demo_world (demo_metaPath @ ''.lock'')"
    by (simp add: demo_simps store_simps)
  note bad = store_write_atomic [OF r' g']
  from bad p' r0 nrf have "\<forall>q. q \<noteq> demo_metaPath @ ''.lock'' \<longrightarrow>
      files (snd ?r) q = files demo_world q"
    by simp
  with lockfree have r1: "files (snd ?r) = files demo_world" by (metis ext)
  from bad gp' g0 nrf have "\<forall>q. files (snd ?g) q = files demo_world q" by simp
  then have g1: "files (snd ?g) = files demo_world" by (simp add: fun_eq_iff)
  from s0 s1 sg0 sg1 r0 r1 g0 g1 show ?thesis by (simp add: demo_world_def)
qed

text \<open>
  Claim C6.  Both readers return the empty value, no error and no warning when the file
  does not exist (and likewise when it has no bytes, which the code takes for "no
  settings", not for a malformed file); they return the empty value, no error and the
  warning "... might be corrupt" when the contents do not decode (for \<open>readManagerMeta\<close>:
  and are not an empty JSON object, which \<open>encoding/json\<close> never fails to decode into a
  map); and when they return an error, either the storage directory could not be made or
  \<open>os.ReadFile\<close> failed with an error other than "does not exist".
\<close>

theorem store_read_defaults:
  "(\<forall>metaPath w1. getManagerMetaPath env w = (Inr metaPath, w1) \<longrightarrow>
      (os_ReadFile env metaPath w1 = Inl ErrNotExist \<longrightarrow>
         readManagerMeta env cd w = (Inr Map.empty, w1)) \<and>
      (os_ReadFile env metaPath w1 = Inr [] \<longrightarrow>
         readManagerMeta env cd w = (Inr Map.empty, w1)) \<and>
      (\<forall>data partial err.
         os_ReadFile env metaPath w1 = Inr data \<and> data \<noteq> [] \<and>
         unmarshal_meta cd data = (partial, Some err) \<and> \<not> unmarshal_empty_object cd data \<longrightarrow>
         readManagerMeta env cd w =
           (Inr Map.empty, printWarning ''Manager metadata file might be corrupt.'' w1))) \<and>
   (\<forall>err w'. readManagerMeta env cd w = (Inl err, w') \<longrightarrow>
      (\<exists>e. getManagerMetaPath env w = (Inl e, w')) \<or>
      (\<exists>metaPath e. getManagerMetaPath env w = (Inr metaPath, w') \<and>
         os_ReadFile env metaPath w' = Inl e \<and> e \<noteq> ErrNotExist)) \<and>
   (\<forall>configPath w1. getGlobalConfigPath env w = (Inr configPath, w1) \<longrightarrow>
      (os_ReadFile env configPath w1 = Inl ErrNotExist \<longrightarrow>
         readGlobalManagerConfig env cd w = ((GlobalManagerConfig_zero, None), w1)) \<and>
      (os_ReadFile env configPath w1 = Inr [] \<longrightarrow>
         readGlobalManagerConfig env cd w = ((GlobalManagerConfig_zero, None), w1)) \<and>
      (\<forall>data partial err.
         os_ReadFile env configPath w1 = Inr data \<and> data \<noteq> [] \<and>
         unmarshal_config cd data = (partial, Some err) \<longrightarrow>
         readGlobalManagerConfig env cd w =
           ((GlobalManagerConfig_zero, None),
            printWarning ''Global configuration file might be corrupt.'' w1))) \<and>
   (\<forall>config err w'. readGlobalManagerConfig env cd w = ((config, Some err), w') \<longrightarrow>
      (\<exists>e. getGlobalConfigPath env w = (Inl e, w')) \<or>
      (\<exists>configPath e. getGlobalConfigPath env w = (Inr configPath, w') \<and>
         os_ReadFile env configPath w' = Inl e \<and> e \<noteq> ErrNotExist))"
proof (intro conjI allI impI)
  fix metaPath w1
  assume p: "getManagerMetaPath env w = (Inr metaPath, w1)"
  {
    assume "os_ReadFile env metaPath w1 = Inl ErrNotExist"
    with p show "readManagerMeta env cd w = (Inr Map.empty, w1)"
      by (simp add: readManagerMeta_def)
  }
  {
    assume "os_ReadFile env metaPath w1 = Inr []"
    with p show "readManagerMeta env cd w = (Inr Map.empty, w1)"
      by (simp add: readManagerMeta_def)
  }
  {
    fix data partial err
    assume "os_ReadFile env metaPath w1 = Inr data \<and> data \<noteq> [] \<and>
      unmarshal_meta cd data = (partial, Some err) \<and> \<not> unmarshal_empty_object cd data"
    with p show "readManagerMeta env cd w =
        (Inr Map.empty, printWarning ''Manager metadata file might be corrupt.'' w1)"
      by (simp add: readManagerMeta_def)
  }
next
  fix err w'
  assume "readManagerMeta env cd w = (Inl err, w')"
  then show "(\<exists>e. getManagerMetaPath env w = (Inl e, w')) \<or>
      (\<exists>metaPath e. getManagerMetaPath env w = (Inr metaPath, w') \<and>
         os_ReadFile env metaPath w' = Inl e \<and> e \<noteq> ErrNotExist)"
    by (rule readManagerMeta_error)
next
  fix configPath w1
  assume p: "getGlobalConfigPath env w = (Inr configPath, w1)"
  {
    assume "os_ReadFile env configPath w1 = Inl ErrNotExist"
    with p show "readGlobalManagerConfig env cd w = ((GlobalManagerConfig_zero, None), w1)"
      by (simp add: readGlobalManagerConfig_def)
  }
  {
    assume "os_ReadFile env configPath w1 = Inr []"
    with p show "readGlobalManagerConfig env cd w = ((GlobalManagerConfig_zero, None), w1)"
      by (simp add: readGlobalManagerConfig_def)
  }
  {
    fix data partial err
    assume "os_ReadFile env configPath w1 = Inr data \<and> data \<noteq> [] \<and>
      unmarshal_config cd data = (partial, Some err)"
    with p show "readGlobalManagerConfig env cd w =
        ((GlobalManagerConfig_zero, None),
         printWarning ''Global configuration file might be corrupt.'' w1)"
      by (simp add: readGlobalManagerConfig_def)
  }
next
  fix config err w'
  assume "readGlobalManagerConfig env cd w = ((config, Some err), w')"
  then show "(\<exists>e. getGlobalConfigPath env w = (Inl e, w')) \<or>
      (\<exists>configPath e. getGlobalConfigPath env w = (Inr configPath, w') \<and>
         os_ReadFile env configPath w' = Inl e \<and> e \<noteq> ErrNotExist)"
    by (rule readGlobalManagerConfig_error)
qed

theorem store_read_defaults_witness:
  "readManagerMeta demo_env demo_codec empty_world = (Inr Map.empty, empty_world) \<and>
   readManagerMeta demo_env demo_codec corrupt_world =
     (Inr Map.empty, corrupt_world\<lparr>log := [Warning ''Manager metadata file might be corrupt.'']\<rparr>) \<and>
   readGlobalManagerConfig demo_env demo_codec empty_world =
     ((GlobalManagerConfig_zero, None), empty_world) \<and>
   readGlobalManagerConfig demo_env demo_codec corrupt_world =
     ((GlobalManagerConfig_zero, None),
      corrupt_world\<lparr>log := [Warning ''Global configuration file might be corrupt.'']\<rparr>)"
proof -
  have p: "getManagerMetaPath demo_env w = (Inr demo_metaPath, w)" for w
    by (simp add: demo_simps store_simps)
  have gp: "getGlobalConfigPath demo_env w = (Inr demo_configPath, w)" for w
    by (simp add: demo_simps store_simps)
  have e1: "os_ReadFile demo_env demo_metaPath empty_world = Inl ErrNotExist"
    and e2: "os_ReadFile demo_env demo_configPath empty_world = Inl ErrNotExist"
    by (simp_all add: demo_simps os_ReadFile_def)
  have c1: "os_ReadFile demo_env demo_metaPath corrupt_world = Inr ''{ not json''"
    and c2: "os_ReadFile demo_env demo_configPath corrupt_world = Inr ''{ not json''"
    by (simp_all add: demo_simps os_ReadFile_def corrupt_world_def)
  have u1: "unmarshal_meta demo_codec ''{ not json'' = (Map.empty, Some JsonError)"
    and u2: "\<not> unmarshal_empty_object demo_codec ''{ not json''"
    and u3: "unmarshal_config demo_codec ''{ not json'' = (GlobalManagerConfig_zero, Some JsonError)"
    by (simp_all add: demo_simps)
  have pw: "printWarning t corrupt_world = corrupt_world\<lparr>log := [Warning t]\<rparr>" for t
    by (simp add: printWarning_def corrupt_world_def)
  from store_read_defaults [of demo_env empty_world demo_codec] p gp e1 e2
  have A: "readManagerMeta demo_env demo_codec empty_world = (Inr Map.empty, empty_world) \<and>
     readGlobalManagerConfig demo_env demo_codec empty_world =
       ((GlobalManagerConfig_zero, None), empty_world)"
    by simp
  from store_read_defaults [of demo_env corrupt_world demo_codec] p gp c1 c2 u1 u2 u3
  have B: "readManagerMeta demo_env demo_codec corrupt_world =
     (Inr Map.empty, printWarning ''Manager metadata file might be corrupt.'' corrupt_world) \<and>
     readGlobalManagerConfig demo_env demo_codec corrupt_world =
     ((GlobalManagerConfig_zero, None),
      printWarning ''Global configuration file might be corrupt.'' corrupt_world)"
    by simp
  from A B show ?thesis by (simp add: pw)
qed

text \<open>
  Claim C7.  The codec is the one of Go: \<open>MarshalIndent_ManagerMeta\<close> writes and
  \<open>Unmarshal_ManagerMeta\<close> reads.  For every registry (a finite map, as every Go map is)
  whose names and string fields are well-formed UTF-8, with any ports and any characters,
  a successful \<open>writeManagerMeta\<close> followed by \<open>readManagerMeta\<close> on the same machine, with
  no read fault, returns the registry that was written: the same names, and under each name
  the same record, field by field.
\<close>

theorem store_round_trip:
  assumes wr: "writeManagerMeta env cd meta w = (None, w')"
    and json: "marshal_meta cd = MarshalIndent_ManagerMeta" "unmarshal_meta cd = Unmarshal_ManagerMeta"
    and fin: "finite (dom meta)"
    and utf8: "\<And>name r. meta name = Some r \<Longrightarrow> utf8_ValidString name \<and> utf8_InstanceMeta r"
    and nofault: "\<And>p. read_fault env p = None"
  shows "fst (readManagerMeta env cd w') = Inr meta"
proof -
  obtain pr w1 where path: "getManagerMetaPath env w = (pr, w1)"
    by (cases "getManagerMetaPath env w")
  from wr path obtain metaPath where pr: "pr = Inr metaPath"
    by (cases pr) (auto simp: writeManagerMeta_def)
  from writeManagerMeta_ok [OF path [unfolded pr] wr] obtain data where
    data: "marshal_meta cd meta = Inr data" and f: "files w' = (files w)(metaPath \<mapsto> data)"
    by blast
  from data json(1) have "MarshalIndent_ManagerMeta meta = Inr data" by simp
  from Unmarshal_MarshalIndent [OF fin utf8 this] json(2)
  have codec: "data \<noteq> []" "unmarshal_meta cd data = (meta, None)" by simp_all
  obtain w1' where path': "getManagerMetaPath env w' = (Inr metaPath, w1')"
    using getManagerMetaPath_fst [of env w' w] path pr
    by (cases "getManagerMetaPath env w'") simp
  have "files w1' metaPath = Some data"
    using getManagerMetaPath_files [OF path'] f by simp
  then have rd: "os_ReadFile env metaPath w1' = Inr data"
    by (simp add: os_ReadFile_def nofault)
  from codec path' rd show ?thesis
    by (simp add: readManagerMeta_def)
qed

theorem store_round_trip_witness:
  "fst (writeManagerMeta demo_env (go_json demo_codec) demo_registry empty_world) = None \<and>
   fst (readManagerMeta demo_env (go_json demo_codec)
          (snd (writeManagerMeta demo_env (go_json demo_codec) demo_registry empty_world))) =
     Inr demo_registry"
proof -
  let ?r = "writeManagerMeta demo_env (go_json demo_codec) demo_registry empty_world"
  have r0: "fst ?r = None"
    by (simp add: demo_simps store_simps go_json_def MarshalIndent_ManagerMeta_def)
  then have wr: "?r = (None, snd ?r)" by (simp add: prod_eq_iff)
  have json: "marshal_meta (go_json demo_codec) = MarshalIndent_ManagerMeta"
    "unmarshal_meta (go_json demo_codec) = Unmarshal_ManagerMeta"
    by (simp_all add: go_json_def)
  have fin: "finite (dom demo_registry)" by (simp add: demo_registry_def)
  have utf8: "utf8_ValidString name \<and> utf8_InstanceMeta r" if "demo_registry name = Some r" for name r
    using that
    by (auto simp: demo_registry_def inst_a_def inst_b_def inst_c_def utf8_InstanceMeta_def
        utf8_ValidString.simps split: if_splits)
  have nofault: "read_fault demo_env p = None" for p by (simp add: demo_env_def)
  from store_round_trip [OF wr json fin utf8 nofault] r0 show ?thesis by simp
qed

text \<open>
  Claim C8.  While a lock is held, a second \<open>Lock\<close> fails whatever the operating system
  does; \<open>Unlock\<close> then succeeds and a \<open>Lock\<close> after it succeeds (no fault on the
  sentinel path).  \<open>Unlock\<close> always leaves the sentinel absent, a second \<open>Unlock\<close> changes
  no file, and \<open>writeManagerMeta\<close>, once it has taken the lock, leaves the sentinel absent
  whether the write in the critical section succeeded or failed.
\<close>

theorem lock_mutual_exclusion:
  "(\<forall>w1. Lock env fl w = (None, w1) \<longrightarrow>
      (\<forall>env2 :: os_env. \<exists>err. Lock env2 fl w1 = (Some err, w1)) \<and>
      fst (Unlock fl w1) = None \<and>
      (\<forall>env2 :: os_env. open_fault env2 (lock_path fl) = None \<and> close_fault env2 (lock_path fl) = None \<longrightarrow>
         fst (Lock env2 fl (snd (Unlock fl w1))) = None)) \<and>
   files (snd (Unlock fl w)) (lock_path fl) = None \<and>
   files (snd (Unlock fl (snd (Unlock fl w)))) = files (snd (Unlock fl w)) \<and>
   (\<forall>metaPath w1 w2 cd meta.
      getManagerMetaPath env w = (Inr metaPath, w1) \<and>
      Lock env (NewFileLock (metaPath @ ''.lock'')) w1 = (None, w2) \<longrightarrow>
      files (snd (writeManagerMeta env cd meta w)) (metaPath @ ''.lock'') = None)"
proof (intro conjI allI impI)
  fix w1 and env2 :: os_env
  assume lk: "Lock env fl w = (None, w1)"
  from Lock_ok [OF lk] have held: "files w1 (lock_path fl) \<noteq> None" by simp
  from Lock_held_fails [OF held] show "\<exists>err. Lock env2 fl w1 = (Some err, w1)" by blast
next
  fix w1
  assume lk: "Lock env fl w = (None, w1)"
  from Lock_ok [OF lk] have held: "files w1 (lock_path fl) \<noteq> None" by simp
  then show "fst (Unlock fl w1) = None"
    by (auto simp: Unlock_def os_Remove_def split: option.splits)
next
  fix w1 and env2 :: os_env
  assume "Lock env fl w = (None, w1)"
    and "open_fault env2 (lock_path fl) = None \<and> close_fault env2 (lock_path fl) = None"
  then show "fst (Lock env2 fl (snd (Unlock fl w1))) = None"
    by (intro Lock_free_succeeds) (simp_all add: files_Unlock)
next
  show "files (snd (Unlock fl w)) (lock_path fl) = None" by (simp add: files_Unlock)
next
  show "files (snd (Unlock fl (snd (Unlock fl w)))) = files (snd (Unlock fl w))"
    by (simp add: files_Unlock)
next
  fix metaPath w1 w2 cd meta
  assume "getManagerMetaPath env w = (Inr metaPath, w1) \<and>
      Lock env (NewFileLock (metaPath @ ''.lock'')) w1 = (None, w2)"
  then show "files (snd (writeManagerMeta env cd meta w)) (metaPath @ ''.lock'') = None"
    by (auto intro: writeManagerMeta_releases)
qed

theorem lock_mutual_exclusion_witness:
  "fst (Lock demo_env (NewFileLock ''/tmp/x.lock'') empty_world) = None \<and>
   fst (Lock demo_env (NewFileLock ''/tmp/x.lock'')
          (snd (Lock demo_env (NewFileLock ''/tmp/x.lock'') empty_world))) \<noteq> None \<and>
   fst (Lock demo_env (NewFileLock ''/tmp/x.lock'')
          (snd (Unlock (NewFileLock ''/tmp/x.lock'')
             (snd (Lock demo_env (NewFileLock ''/tmp/x.lock'') empty_world))))) = None \<and>
   files (snd (writeManagerMeta faulty_env demo_codec demo_registry demo_world))
     (demo_metaPath @ ''.lock'') = None"
proof -
  let ?fl = "NewFileLock ''/tmp/x.lock''"
  let ?w1 = "snd (Lock demo_env ?fl empty_world)"
  have lk0: "fst (Lock demo_env ?fl empty_world) = None"
    by (simp add: demo_simps store_simps)
  then have lk: "Lock demo_env ?fl empty_world = (None, ?w1)" by (simp add: prod_eq_iff)
  have nf: "open_fault demo_env (lock_path ?fl) = None \<and> close_fault demo_env (lock_path ?fl) = None"
    by (simp add: demo_env_def)
  have p: "getManagerMetaPath faulty_env demo_world = (Inr demo_metaPath, demo_world)"
    by (simp add: demo_simps store_simps)
  let ?w2 = "snd (Lock faulty_env (NewFileLock (demo_metaPath @ ''.lock'')) demo_world)"
  have lk2: "Lock faulty_env (NewFileLock (demo_metaPath @ ''.lock'')) demo_world = (None, ?w2)"
    by (rule prod_eqI) (simp_all add: demo_simps store_simps)
  from lock_mutual_exclusion [of demo_env "?fl" empty_world] lk nf have "(\<exists>err. Lock demo_env ?fl ?w1 = (Some err, ?w1)) \<and>
      fst (Lock demo_env ?fl (snd (Unlock ?fl ?w1))) = None"
    by blast
  moreover from lock_mutual_exclusion [of faulty_env "?fl" demo_world] p lk2
  have "files (snd (writeManagerMeta faulty_env demo_codec demo_registry demo_world))
     (demo_metaPath @ ''.lock'') = None"
    by blast
  ultimately show ?thesis using lk0 by auto
qed


section \<open>Properties of the instance registry\<close>

lemma persists_printWarning [simp]: "persists t (printWarning title w) = persists t w"
  by (simp add: persists_def printWarning_def)

lemma getConfigStorageDir_persists:
  "getConfigStorageDir env w = (r, w1) \<Longrightarrow> persists t w1 = persists t w"
  by (auto simp: getConfigStorageDir_def Let_def split: sum.splits option.splits if_splits)

lemma getManagerMetaPath_persists:
  "getManagerMetaPath env w = (r, w1) \<Longrightarrow> persists t w1 = persists t w"
  by (auto simp: getManagerMetaPath_def split: prod.splits option.splits if_splits
      dest: getConfigStorageDir_persists)

lemma readManagerMeta_files: "readManagerMeta env cd w = (r, w1) \<Longrightarrow> files w1 = files w"
  by (auto simp: readManagerMeta_def split: prod.splits sum.splits option.splits if_splits
      dest: getManagerMetaPath_files)

lemma readManagerMeta_persists:
  "readManagerMeta env cd w = (r, w1) \<Longrightarrow> persists t w1 = persists t w"
  by (auto simp: readManagerMeta_def split: prod.splits sum.splits option.splits if_splits
      dest: getManagerMetaPath_persists)

lemma writeManagerMeta_ok_persists:
  assumes path: "getManagerMetaPath env w = (Inr metaPath, w1)"
    and run: "writeManagerMeta env cd meta w = (None, w')"
  shows "persists metaPath w' = Suc (persists metaPath w)"
proof -
  from writeManagerMeta_ok [OF path run] obtain data r where
    "log w' = log w1 @
             [Created (metaPath @ ''.lock''), Closed (metaPath @ ''.lock''),
              Created (filepath_Join (filepath_Dir metaPath)
                         (managerMetaFileName @ ''.'' @ r @ ''.tmp'')),
              Wrote (filepath_Join (filepath_Dir metaPath)
                       (managerMetaFileName @ ''.'' @ r @ ''.tmp'')) data,
              Closed (filepath_Join (filepath_Dir metaPath)
                        (managerMetaFileName @ ''.'' @ r @ ''.tmp'')),
              Renamed (filepath_Join (filepath_Dir metaPath)
                         (managerMetaFileName @ ''.'' @ r @ ''.tmp'')) metaPath,
              Removed (metaPath @ ''.lock'')]"
    by blast
  then have "persists metaPath w' = Suc (persists metaPath w1)"
    by (simp add: persists_def)
  with getManagerMetaPath_persists [OF path] show ?thesis by simp
qed

lemma persists_no_rename:
  "log w' = log w @ evs \<Longrightarrow> \<forall>ev \<in> set evs. \<forall>s d. ev \<noteq> Renamed s d \<Longrightarrow>
     persists t w' = persists t w"
proof -
  assume l: "log w' = log w @ evs" and n: "\<forall>ev \<in> set evs. \<forall>s d. ev \<noteq> Renamed s d"
  have "filter (\<lambda>ev. case ev of Renamed src dst \<Rightarrow> dst = t | _ \<Rightarrow> False) evs = []"
    using n by (auto simp: filter_empty_conv split: event.splits)
  with l show ?thesis by (simp add: persists_def)
qed

lemma writeManagerMeta_temp_fail_persists:
  assumes "writeManagerMeta_temp env metaPath t data w = (Some err, w')"
  shows "\<forall>p. persists p w' = persists p w"
  using assms
  by (auto simp: writeManagerMeta_temp_def file_Write_def file_Close_def os_Rename_def
      persists_def split: option.splits prod.splits if_splits)

lemma persists_remove_temp [simp]: "persists p (remove_temp env t w) = persists p w"
  by (auto simp: remove_temp_def os_Remove_def persists_def split: option.splits)

lemma persists_Unlock [simp]: "persists p (snd (Unlock fl w)) = persists p w"
  by (auto simp: Unlock_def os_Remove_def persists_def split: option.splits)

lemma Lock_persists: "Lock env fl w = (r, w1) \<Longrightarrow> \<forall>p. persists p w1 = persists p w"
  by (auto simp: Lock_def os_OpenFile_excl_def file_Close_def persists_def
      split: option.splits prod.splits)

lemma os_CreateTemp_persists:
  "os_CreateTemp env dir pattern w = (r, w1) \<Longrightarrow> \<forall>p. persists p w1 = persists p w"
  by (cases r) (auto dest!: os_CreateTemp_Inr os_CreateTemp_Inl simp: persists_def)

lemma getManagerMetaPath_persists_all:
  "getManagerMetaPath env w = (r, w1) \<Longrightarrow> \<forall>p. persists p w1 = persists p w"
  by (auto dest: getManagerMetaPath_persists)

lemma writeManagerMeta_locked_fail_persists:
  assumes run: "writeManagerMeta_locked env cd meta metaPath w = (Some err, w')"
  shows "\<forall>p. persists p w' = persists p w"
  using run
  by (auto simp: writeManagerMeta_locked_def split: sum.splits prod.splits
      dest!: os_CreateTemp_persists writeManagerMeta_temp_fail_persists)

lemma writeManagerMeta_fail_persists:
  assumes run: "writeManagerMeta env cd meta w = (Some err, w')"
  shows "persists p w' = persists p w"
  using run
  by (auto simp: writeManagerMeta_def Let_def split: sum.splits prod.splits option.splits
      dest!: getManagerMetaPath_persists_all Lock_persists writeManagerMeta_locked_fail_persists)

lemma set_pruneInstances_scan:
  "set (pruneInstances_scan env m order acc) = set acc \<union> (set order \<inter> missing_names env m)"
  by (induction order arbitrary: acc)
    (auto simp: missing_names_def split: option.splits)

lemma pruneInstances_delete_eq:
  "pruneInstances_delete ms m ch =
     (m |` (- set ms), ch \<or> (\<exists>k \<in> set ms. m k \<noteq> None))"
proof (induction ms arbitrary: m ch)
  case Nil
  show ?case by simp
next
  case (Cons k ms)
  have a: "(m(k := None)) |` (- set ms) = m |` (- set (k # ms))"
    by (auto simp: restrict_map_def fun_eq_iff)
  have b: "m k = None \<Longrightarrow> m |` (- set ms) = m |` (- set (k # ms))"
    by (auto simp: restrict_map_def fun_eq_iff)
  show ?case
  proof (cases "m k")
    case None
    then have "pruneInstances_delete (k # ms) m ch = pruneInstances_delete ms m ch" by simp
    also have "\<dots> = (m |` (- set ms), ch \<or> (\<exists>k \<in> set ms. m k \<noteq> None))" by (rule Cons.IH)
    also have "\<dots> = (m |` (- set (k # ms)), ch \<or> (\<exists>j \<in> set (k # ms). m j \<noteq> None))"
      using None b by simp
    finally show ?thesis .
  next
    case (Some v)
    then have "pruneInstances_delete (k # ms) m ch = pruneInstances_delete ms (m(k := None)) True"
      by simp
    also have "\<dots> = ((m(k := None)) |` (- set ms),
        True \<or> (\<exists>j \<in> set ms. (m(k := None)) j \<noteq> None))" by (rule Cons.IH)
    also have "\<dots> = (m |` (- set (k # ms)), ch \<or> (\<exists>j \<in> set (k # ms). m j \<noteq> None))"
      using Some by (simp only: a) simp
    finally show ?thesis .
  qed
qed

lemma registerInstance_conflict_iff:
  "registerInstance_conflict m order n p \<longleftrightarrow>
     (\<exists>k \<in> set order. \<exists>meta. m k = Some meta \<and> (k = n \<or> Directory meta = p))"
  by (induction order) (auto split: option.splits)

lemma registerInstance_localMeta_files:
  "registerInstance_localMeta env cd instancePath answers w = (r, w1) \<Longrightarrow> files w1 = files w"
  by (auto simp: registerInstance_localMeta_def Let_def
      split: sum.splits option.splits if_splits prod.splits)

lemma refreshed_idem [simp]: "refreshed env (refreshed env meta) = refreshed env meta"
  by (simp add: refreshed_def)

lemma refreshed_same: "Status meta = updateStatuses_newStatus env (Directory meta) \<Longrightarrow>
   refreshed env meta = meta"
  by (simp add: refreshed_def)

lemma updateStatuses_loop_map:
  "updateStatuses_loop env cd order (m, n, ch, w) = (m', n', ch', w') \<Longrightarrow>
     m' = (\<lambda>k. if k \<in> set order then map_option (refreshed env) (m k) else m k) \<and>
     (ch' \<longleftrightarrow> ch \<or> (\<exists>k \<in> set order. \<exists>meta. m k = Some meta \<and> refreshed env meta \<noteq> meta)) \<and>
     (\<not> ch' \<longrightarrow> w' = w)"
proof (induction order arbitrary: m n ch w)
  case Nil
  then show ?case by simp
next
  case (Cons k order)
  show ?case
  proof (cases "m k")
    case None
    with Cons.prems have "updateStatuses_loop env cd order (m, n, ch, w) = (m', n', ch', w')"
      by simp
    from Cons.IH [OF this] None show ?thesis by (auto simp: fun_eq_iff)
  next
    case (Some meta)
    show ?thesis
    proof (cases "Status meta = updateStatuses_newStatus env (Directory meta)")
      case True
      with Some Cons.prems
      have "updateStatuses_loop env cd order (m, n, ch, w) = (m', n', ch', w')"
        by (simp add: Let_def)
      from Cons.IH [OF this] Some refreshed_same [OF True] show ?thesis
        by (auto simp: fun_eq_iff)
    next
      case False
      let ?m1 = "m(k \<mapsto> refreshed env meta)"
      have neq: "refreshed env meta \<noteq> meta"
        using False by (auto simp: refreshed_def dest: arg_cong [where f = Status])
      from False Some Cons.prems
      have "updateStatuses_loop env cd order (?m1, n + 1, True,
              updateStatuses_local env cd (Directory meta)
                (updateStatuses_newStatus env (Directory meta)) w) = (m', n', ch', w')"
        by (simp add: Let_def refreshed_def)
      from Cons.IH [OF this]
      have m': "m' = (\<lambda>j. if j \<in> set order then map_option (refreshed env) (?m1 j) else ?m1 j)"
        and ch': "ch'" by auto
      have "m' = (\<lambda>j. if j \<in> set (k # order) then map_option (refreshed env) (m j) else m j)"
        unfolding m' using Some by (auto simp: fun_eq_iff)
      with ch' neq Some show ?thesis by auto
    qed
  qed
qed


lemmas registry_simps = pruneInstances_def registerInstance_def registerInstance_localMeta_def
  updateStatuses_def updateStatuses_newStatus_def updateStatuses_local_def
  readInstanceMeta_def writeInstanceMeta_def os_WriteFile_def metaFileName_def
  InstanceMeta_zero_def

lemma demo_read: "readManagerMeta demo_env demo_codec demo_world = (Inr demo_registry, demo_world)"
  by (simp add: demo_simps store_simps)

lemma demo_path: "getManagerMetaPath demo_env w = (Inr demo_metaPath, w)"
  by (simp add: demo_simps store_simps)

lemma demo_dom: "set [''c'', ''a'', ''b''] = dom demo_registry"
  by (auto simp: demo_registry_def)

lemma demo_missing: "missing_names demo_env demo_registry = {''b''}"
  by (auto simp: missing_names_def demo_simps split: if_splits)


subsection \<open>Claims about the registry\<close>

text \<open>
  Claim C4.  Given the registry read from disk and any order of iteration over its keys,
  the names \<open>pruneInstances\<close> lists are exactly those whose directory does not exist.
  After confirmation it persists, with one rename onto the registry file, the registry
  without exactly these names; every entry whose directory is there (or whose \<open>os.Stat\<close>
  fails otherwise) is in the persisted mapping as it was.  Without completion (no
  confirmation, nothing missing, a failed write) the registry file is untouched.
\<close>

theorem prune_exact:
  assumes rd: "readManagerMeta env cd w = (Inr managerMeta, w1)"
    and ord: "set order = dom managerMeta"
    and run: "pruneInstances env cd order confirm w = (out, w')"
  shows
    "(\<forall>ms. out = PruneCancelled ms \<or> out = PruneComplete ms \<or> (\<exists>e. out = PruneWriteFailed ms e) \<longrightarrow>
        set ms = missing_names env managerMeta) \<and>
     (\<forall>ms. out = PruneComplete ms \<longrightarrow>
        confirm \<and>
        (\<exists>metaPath data.
           fst (getManagerMetaPath env w) = Inr metaPath \<and>
           marshal_meta cd (managerMeta |` (- missing_names env managerMeta)) = Inr data \<and>
           files w' = (files w)(metaPath \<mapsto> data) \<and>
           persists metaPath w' = Suc (persists metaPath w))) \<and>
     (\<forall>name meta. managerMeta name = Some meta \<and>
        dir_stat env (Directory meta) \<noteq> Some ErrNotExist \<longrightarrow>
        (managerMeta |` (- missing_names env managerMeta)) name = Some meta) \<and>
     (\<forall>name \<in> missing_names env managerMeta.
        (managerMeta |` (- missing_names env managerMeta)) name = None) \<and>
     (confirm \<and> missing_names env managerMeta \<noteq> {} \<longrightarrow>
        (\<exists>ms. out = PruneComplete ms) \<or> (\<exists>ms e. out = PruneWriteFailed ms e)) \<and>
     ((\<forall>ms. out \<noteq> PruneComplete ms) \<longrightarrow>
        (\<forall>metaPath. fst (getManagerMetaPath env w) = Inr metaPath \<longrightarrow>
           files w' metaPath = files w metaPath \<and> persists metaPath w' = persists metaPath w))"
proof -
  let ?M = "missing_names env managerMeta"
  let ?ms = "pruneInstances_scan env managerMeta order []"
  have MS: "?M \<subseteq> dom managerMeta" by (auto simp: missing_names_def)
  have ms: "set ?ms = ?M" using MS ord by (auto simp: set_pruneInstances_scan)
  have del: "pruneInstances_delete ?ms managerMeta False = (managerMeta |` (- ?M), ?M \<noteq> {})"
    using MS by (auto simp: pruneInstances_delete_eq ms)
  have f1: "files w1 = files w" by (rule readManagerMeta_files [OF rd])
  have p1: "persists t w1 = persists t w" for t by (rule readManagerMeta_persists [OF rd])
  have ne: "managerMeta \<noteq> Map.empty" if "?M \<noteq> {}" using that MS by auto
  let ?w2 = "printWarning ''%d Instance(s) Missing Directories:'' w1"
  obtain wres w3 where wr: "writeManagerMeta env cd (managerMeta |` (- ?M)) ?w2 = (wres, w3)"
    by (cases "writeManagerMeta env cd (managerMeta |` (- ?M)) ?w2")
  have fstpath: "fst (getManagerMetaPath env ?w2) = fst (getManagerMetaPath env w)"
    by (rule getManagerMetaPath_fst)
  have out_cases:
    "(managerMeta = Map.empty \<and> out = PruneNoInstances \<and> w' = w1) \<or>
     (managerMeta \<noteq> Map.empty \<and> ?M = {} \<and> out = PruneNothingMissing \<and> w' = w1) \<or>
     (?M \<noteq> {} \<and> \<not> confirm \<and> out = PruneCancelled ?ms \<and> w' = ?w2) \<or>
     (?M \<noteq> {} \<and> confirm \<and> (\<exists>e. wres = Some e \<and> out = PruneWriteFailed ?ms e) \<and> w' = w3) \<or>
     (?M \<noteq> {} \<and> confirm \<and> wres = None \<and> out = PruneComplete ?ms \<and> w' = w3)"
    using run rd ms del wr ne
    by (cases wres) (auto simp: pruneInstances_def Let_def split: if_splits)
  have complete: "\<exists>metaPath data.
           fst (getManagerMetaPath env w) = Inr metaPath \<and>
           marshal_meta cd (managerMeta |` (- ?M)) = Inr data \<and>
           files w3 = (files w)(metaPath \<mapsto> data) \<and>
           persists metaPath w3 = Suc (persists metaPath w)" if ok: "wres = None"
  proof -
    obtain pr wp where path: "getManagerMetaPath env ?w2 = (pr, wp)"
      by (cases "getManagerMetaPath env ?w2")
    from wr ok path obtain metaPath where pr: "pr = Inr metaPath"
      by (cases pr) (auto simp: writeManagerMeta_def)
    note path' = path [unfolded pr]
    from writeManagerMeta_ok [OF path' wr [unfolded ok]] obtain data where
      "marshal_meta cd (managerMeta |` (- ?M)) = Inr data"
      "files w3 = (files ?w2)(metaPath \<mapsto> data)" by blast
    moreover from writeManagerMeta_ok_persists [OF path' wr [unfolded ok]]
    have "persists metaPath w3 = Suc (persists metaPath w)" by (simp add: p1)
    moreover have "fst (getManagerMetaPath env w) = Inr metaPath"
      using fstpath path' by simp
    ultimately show ?thesis using f1 by auto
  qed
  have failed: "files w3 metaPath = files w metaPath \<and> persists metaPath w3 = persists metaPath w"
    if bad: "wres = Some e" and mp: "fst (getManagerMetaPath env w) = Inr metaPath" for e metaPath
  proof -
    obtain wp where path: "getManagerMetaPath env ?w2 = (Inr metaPath, wp)"
      using fstpath mp by (cases "getManagerMetaPath env ?w2") simp
    from writeManagerMeta_fail(1) [OF path wr [unfolded bad]] f1
    have "files w3 metaPath = files w metaPath" by simp
    moreover from writeManagerMeta_fail_persists [OF wr [unfolded bad]]
    have "persists metaPath w3 = persists metaPath w" by (simp add: p1)
    ultimately show ?thesis ..
  qed
  have c1: "\<forall>ms. out = PruneCancelled ms \<or> out = PruneComplete ms \<or> (\<exists>e. out = PruneWriteFailed ms e) \<longrightarrow>
        set ms = ?M"
    using out_cases ms by auto
  have c2: "\<forall>ms. out = PruneComplete ms \<longrightarrow>
        confirm \<and>
        (\<exists>metaPath data.
           fst (getManagerMetaPath env w) = Inr metaPath \<and>
           marshal_meta cd (managerMeta |` (- ?M)) = Inr data \<and>
           files w' = (files w)(metaPath \<mapsto> data) \<and>
           persists metaPath w' = Suc (persists metaPath w))"
    using out_cases complete by auto
  have c3: "\<forall>name meta. managerMeta name = Some meta \<and>
        dir_stat env (Directory meta) \<noteq> Some ErrNotExist \<longrightarrow>
        (managerMeta |` (- ?M)) name = Some meta"
    by (auto simp: missing_names_def restrict_map_def)
  have c4: "\<forall>name \<in> ?M. (managerMeta |` (- ?M)) name = None"
    by (simp add: restrict_map_def)
  have c5: "confirm \<and> ?M \<noteq> {} \<longrightarrow>
        (\<exists>ms. out = PruneComplete ms) \<or> (\<exists>ms e. out = PruneWriteFailed ms e)"
    using out_cases ne by auto
  have c6: "(\<forall>ms. out \<noteq> PruneComplete ms) \<longrightarrow>
        (\<forall>metaPath. fst (getManagerMetaPath env w) = Inr metaPath \<longrightarrow>
           files w' metaPath = files w metaPath \<and> persists metaPath w' = persists metaPath w)"
    using out_cases failed f1 p1 by auto
  from c1 c2 c3 c4 c5 c6 show ?thesis by blast
qed


theorem prune_exact_witness:
  "fst (pruneInstances demo_env demo_codec [''c'', ''a'', ''b''] True demo_world) =
     PruneComplete [''b''] \<and>
   missing_names demo_env demo_registry = {''b''} \<and>
   files (snd (pruneInstances demo_env demo_codec [''c'', ''a'', ''b''] True demo_world)) =
     [demo_metaPath \<mapsto> ''a=/sites/a,Stopped;c=/sites/c,Stopped;''] \<and>
   persists demo_metaPath
     (snd (pruneInstances demo_env demo_codec [''c'', ''a'', ''b''] True demo_world)) = 1"
proof -
  let ?r = "pruneInstances demo_env demo_codec [''c'', ''a'', ''b''] True demo_world"
  have out: "fst ?r = PruneComplete [''b'']"
    by (simp add: demo_simps store_simps registry_simps)
  have run: "?r = (fst ?r, snd ?r)" by simp
  have r: "demo_render (demo_registry |` (- {''b''})) = ''a=/sites/a,Stopped;c=/sites/c,Stopped;''"
    by (simp add: demo_simps restrict_map_def)
  have p0: "persists demo_metaPath demo_world = 0"
    by (simp add: persists_def demo_world_def)
  from prune_exact [OF demo_read demo_dom run] out
  have "\<exists>metaPath data.
           fst (getManagerMetaPath demo_env demo_world) = Inr metaPath \<and>
           marshal_meta demo_codec (demo_registry |` (- missing_names demo_env demo_registry)) =
             Inr data \<and>
           files (snd ?r) = (files demo_world)(metaPath \<mapsto> data) \<and>
           persists metaPath (snd ?r) = Suc (persists metaPath demo_world)"
    by simp
  then have "files (snd ?r) = (files demo_world)(demo_metaPath \<mapsto>
        demo_render (demo_registry |` (- {''b''}))) \<and>
      persists demo_metaPath (snd ?r) = Suc (persists demo_metaPath demo_world)"
    by (auto simp: demo_path demo_missing demo_codec_def)
  with out demo_missing r p0 show ?thesis by (simp add: demo_world_def)
qed


text \<open>
  Claim C5.  When the requested name is a key of the registry, or the requested directory
  is registered under another name, \<open>registerInstance\<close> without the override answer ends
  with "Registration Cancelled." and changes no file.  With the override answer it
  persists the registry in which the requested name maps to the new record (built from
  the instance's own marker file and the prompts, not from the old entry) and every other
  name is as before; or the write fails and the registry file is unchanged.
\<close>

theorem register_conflict:
  assumes lm: "registerInstance_localMeta env cd instancePath answers w = (Some localMeta, w1)"
    and nm: "name_answer answers = Some instanceName" and nonempty: "instanceName \<noteq> []"
    and rd: "readManagerMeta env cd w1 = (Inr managerMeta, w2)"
    and ord: "set order = dom managerMeta"
    and conflict: "managerMeta instanceName \<noteq> None \<or>
       (\<exists>name meta. name \<noteq> instanceName \<and> managerMeta name = Some meta \<and>
          Directory meta = instancePath)"
    and run: "registerInstance env cd order instancePath answers w = (out, w')"
  shows
    "(\<not> overwrite_answer answers \<longrightarrow> out = RegisterCancelled \<and> files w' = files w) \<and>
     (overwrite_answer answers \<longrightarrow>
        (out = Registered \<and>
         (\<exists>metaPath data.
            fst (getManagerMetaPath env w) = Inr metaPath \<and>
            marshal_meta cd (managerMeta(instanceName \<mapsto> localMeta)) = Inr data \<and>
            files w' = (files w)(metaPath \<mapsto> data))) \<or>
        (\<exists>e. out = RegisterWriteFailed e \<and>
           (\<forall>metaPath. fst (getManagerMetaPath env w) = Inr metaPath \<longrightarrow>
              files w' metaPath = files w metaPath))) \<and>
     (managerMeta(instanceName \<mapsto> localMeta)) instanceName = Some localMeta \<and>
     (\<forall>name. name \<noteq> instanceName \<longrightarrow>
        (managerMeta(instanceName \<mapsto> localMeta)) name = managerMeta name)"
proof -
  have cf: "registerInstance_conflict managerMeta order instanceName instancePath"
    using conflict ord by (auto simp: registerInstance_conflict_iff dom_def)
  have f2: "files w2 = files w"
    using registerInstance_localMeta_files [OF lm] readManagerMeta_files [OF rd] by simp
  let ?w3 = "printWarning ''Registration Conflict'' w2"
  let ?w4 = "printWarning ''Overwriting previous registration entry.'' ?w3"
  let ?m' = "managerMeta(instanceName \<mapsto> localMeta)"
  have no: "out = RegisterCancelled \<and> files w' = files w" if "\<not> overwrite_answer answers"
    using that run lm nm nonempty rd cf f2 by (auto simp: registerInstance_def Let_def)
  have yes: "(out = Registered \<and>
         (\<exists>metaPath data.
            fst (getManagerMetaPath env w) = Inr metaPath \<and>
            marshal_meta cd ?m' = Inr data \<and>
            files w' = (files w)(metaPath \<mapsto> data))) \<or>
        (\<exists>e. out = RegisterWriteFailed e \<and>
           (\<forall>metaPath. fst (getManagerMetaPath env w) = Inr metaPath \<longrightarrow>
              files w' metaPath = files w metaPath))" if ov: "overwrite_answer answers"
  proof -
    obtain wres w5 where wr: "writeManagerMeta env cd ?m' ?w4 = (wres, w5)"
      by (cases "writeManagerMeta env cd ?m' ?w4")
    have fstpath: "fst (getManagerMetaPath env ?w4) = fst (getManagerMetaPath env w)"
      by (rule getManagerMetaPath_fst)
    show ?thesis
    proof (cases wres)
      case None
      with run lm nm nonempty rd cf ov wr have o: "out = Registered" "w' = w5"
        by (auto simp: registerInstance_def Let_def)
      obtain pr wp where path: "getManagerMetaPath env ?w4 = (pr, wp)"
        by (cases "getManagerMetaPath env ?w4")
      from wr None path obtain metaPath where pr: "pr = Inr metaPath"
        by (cases pr) (auto simp: writeManagerMeta_def)
      from writeManagerMeta_ok [OF path [unfolded pr] wr [unfolded None]] obtain data where
        "marshal_meta cd ?m' = Inr data" "files w5 = (files ?w4)(metaPath \<mapsto> data)" by blast
      moreover have "fst (getManagerMetaPath env w) = Inr metaPath"
        using fstpath path pr by simp
      ultimately show ?thesis using o f2 by auto
    next
      case (Some e)
      with run lm nm nonempty rd cf ov wr have o: "out = RegisterWriteFailed e" "w' = w5"
        by (auto simp: registerInstance_def Let_def)
      have "files w5 metaPath = files w metaPath"
        if mp: "fst (getManagerMetaPath env w) = Inr metaPath" for metaPath
      proof -
        obtain wp where path: "getManagerMetaPath env ?w4 = (Inr metaPath, wp)"
          using fstpath mp by (cases "getManagerMetaPath env ?w4") simp
        from writeManagerMeta_fail(1) [OF path wr [unfolded Some]] f2 show ?thesis by simp
      qed
      with o show ?thesis by auto
    qed
  qed
  from no yes show ?thesis by simp
qed

theorem register_conflict_witness:
  "fst (registerInstance demo_env demo_codec [''c'', ''a'', ''b''] ''/sites/new'' demo_answers
          demo_world) = Registered \<and>
   files (snd (registerInstance demo_env demo_codec [''c'', ''a'', ''b''] ''/sites/new''
                 demo_answers demo_world)) =
     [demo_metaPath \<mapsto> ''a=/sites/new,Unknown;b=/sites/b,Stopped;c=/sites/c,Stopped;''] \<and>
   fst (registerInstance demo_env demo_codec [''c'', ''a'', ''b''] ''/sites/new''
          (demo_answers\<lparr>overwrite_answer := False\<rparr>) demo_world) = RegisterCancelled \<and>
   files (snd (registerInstance demo_env demo_codec [''c'', ''a'', ''b''] ''/sites/new''
                 (demo_answers\<lparr>overwrite_answer := False\<rparr>) demo_world)) = files demo_world"
proof -
  let ?yes = "registerInstance demo_env demo_codec [''c'', ''a'', ''b''] ''/sites/new'' demo_answers
                demo_world"
  let ?no = "registerInstance demo_env demo_codec [''c'', ''a'', ''b''] ''/sites/new''
               (demo_answers\<lparr>overwrite_answer := False\<rparr>) demo_world"
  let ?w1 = "printWarning ''WordPress Port Unknown'' demo_world"
  have lm: "registerInstance_localMeta demo_env demo_codec ''/sites/new'' ans demo_world =
      (Some inst_new, ?w1)" if "port_answer ans = Some 11009" for ans
    using that
    by (simp add: demo_simps store_simps registry_simps inst_new_def)
  have rd: "readManagerMeta demo_env demo_codec ?w1 = (Inr demo_registry, ?w1)"
    by (simp add: demo_simps store_simps)
  have conflict: "demo_registry ''a'' \<noteq> None \<or>
       (\<exists>name meta. name \<noteq> ''a'' \<and> demo_registry name = Some meta \<and>
          Directory meta = ''/sites/new'')"
    by (simp add: demo_registry_def)
  have ryes: "?yes = (fst ?yes, snd ?yes)" and rno: "?no = (fst ?no, snd ?no)" by simp_all
  have oyes: "fst ?yes = Registered"
    by (simp add: demo_simps store_simps registry_simps demo_answers_def)
  have r: "demo_render (demo_registry(''a'' \<mapsto> inst_new)) =
      ''a=/sites/new,Unknown;b=/sites/b,Stopped;c=/sites/c,Stopped;''"
    by (simp add: demo_simps inst_new_def)
  have lmy: "registerInstance_localMeta demo_env demo_codec ''/sites/new'' demo_answers
      demo_world = (Some inst_new, ?w1)"
    by (rule lm) (simp add: demo_answers_def)
  have lmn: "registerInstance_localMeta demo_env demo_codec ''/sites/new''
      (demo_answers\<lparr>overwrite_answer := False\<rparr>) demo_world = (Some inst_new, ?w1)"
    by (rule lm) (simp add: demo_answers_def)
  have nmy: "name_answer demo_answers = Some ''a''"
    and nmn: "name_answer (demo_answers\<lparr>overwrite_answer := False\<rparr>) = Some ''a''"
    and ne: "''a'' \<noteq> []"
    by (simp_all add: demo_answers_def)
  from register_conflict [OF lmy nmy ne rd demo_dom conflict ryes] oyes
  have "\<exists>metaPath data.
            fst (getManagerMetaPath demo_env demo_world) = Inr metaPath \<and>
            marshal_meta demo_codec (demo_registry(''a'' \<mapsto> inst_new)) = Inr data \<and>
            files (snd ?yes) = (files demo_world)(metaPath \<mapsto> data)"
    by (simp add: demo_answers_def)
  then have A: "files (snd ?yes) =
      (files demo_world)(demo_metaPath \<mapsto> demo_render (demo_registry(''a'' \<mapsto> inst_new)))"
    by (auto simp: demo_path demo_codec_def)
  from register_conflict [OF lmn nmn ne rd demo_dom conflict rno]
  have B: "fst ?no = RegisterCancelled \<and> files (snd ?no) = files demo_world"
    by (simp add: demo_answers_def)
  from A B oyes r show ?thesis by (simp add: demo_world_def)
qed

text \<open>
  Claim C9.  When \<open>updateStatuses\<close> reports statuses updated, the registry file holds the
  encoding of a mapping with the same names in which every record has the status computed
  for its directory and its directory, creation date, versions and port as before.  When
  it reports everything up to date, every stored status already was the computed one and
  no file changed.
\<close>

theorem refresh_status_frame:
  assumes rd: "readManagerMeta env cd w = (Inr managerMeta, w1)"
    and ord: "set order = dom managerMeta"
    and run: "updateStatuses env cd order w = (out, w')"
  shows
   "(\<forall>n. out = StatusesUpdated n \<longrightarrow>
       (\<exists>metaPath data m'.
          fst (getManagerMetaPath env w) = Inr metaPath \<and>
          marshal_meta cd m' = Inr data \<and> files w' metaPath = Some data \<and>
          dom m' = dom managerMeta \<and>
          (\<forall>name meta. managerMeta name = Some meta \<longrightarrow>
             (\<exists>meta'. m' name = Some meta' \<and>
                Status meta' = updateStatuses_newStatus env (Directory meta) \<and>
                Directory meta' = Directory meta \<and> CreationDate meta' = CreationDate meta \<and>
                WordPressVersion meta' = WordPressVersion meta \<and>
                DBVersion meta' = DBVersion meta \<and>
                WordPressPort meta' = WordPressPort meta)))) \<and>
    (out = StatusesUpToDate \<longrightarrow>
       files w' = files w \<and>
       (\<forall>name meta. managerMeta name = Some meta \<longrightarrow>
          Status meta = updateStatuses_newStatus env (Directory meta))) \<and>
    (managerMeta \<noteq> Map.empty \<longrightarrow>
       (\<exists>n. out = StatusesUpdated n) \<or> out = StatusesUpToDate \<or> (\<exists>e. out = StatusWriteFailed e))"
proof (cases "managerMeta = Map.empty")
  case True
  with run rd show ?thesis by (auto simp: updateStatuses_def)
next
  case ne: False
  obtain m' n' ch' w2 where
    loop: "updateStatuses_loop env cd order (managerMeta, 0, False, w1) = (m', n', ch', w2)"
    by (cases "updateStatuses_loop env cd order (managerMeta, 0, False, w1)")
  from updateStatuses_loop_map [OF loop] ord
  have m': "m' = (\<lambda>k. map_option (refreshed env) (managerMeta k))"
    and ch': "ch' \<longleftrightarrow> (\<exists>k meta. managerMeta k = Some meta \<and> refreshed env meta \<noteq> meta)"
    and same: "\<not> ch' \<longrightarrow> w2 = w1"
    by (auto simp: fun_eq_iff dom_def)
  have frame: "\<exists>meta'. m' name = Some meta' \<and>
                Status meta' = updateStatuses_newStatus env (Directory meta) \<and>
                Directory meta' = Directory meta \<and> CreationDate meta' = CreationDate meta \<and>
                WordPressVersion meta' = WordPressVersion meta \<and>
                DBVersion meta' = DBVersion meta \<and>
                WordPressPort meta' = WordPressPort meta"
    if "managerMeta name = Some meta" for name meta
    using that by (simp add: m' refreshed_def)
  have dm: "dom m' = dom managerMeta" by (auto simp: m' dom_def)
  obtain wres w3 where wr: "writeManagerMeta env cd m' w2 = (wres, w3)"
    by (cases "writeManagerMeta env cd m' w2")
  have out_cases:
    "(\<not> ch' \<and> out = StatusesUpToDate \<and> w' = w1) \<or>
     (ch' \<and> (\<exists>e. wres = Some e \<and> out = StatusWriteFailed e) \<and> w' = w3) \<or>
     (ch' \<and> wres = None \<and> out = StatusesUpdated n' \<and> w' = w3)"
  proof (cases ch')
    case True
    with run rd ne loop wr show ?thesis by (cases wres) (auto simp: updateStatuses_def)
  next
    case False
    with same have "w2 = w1" by simp
    with False run rd ne loop show ?thesis by (auto simp: updateStatuses_def)
  qed
  have updated: "\<exists>metaPath data.
          fst (getManagerMetaPath env w) = Inr metaPath \<and>
          marshal_meta cd m' = Inr data \<and> files w3 metaPath = Some data" if ok: "wres = None"
  proof -
    obtain pr wp where path: "getManagerMetaPath env w2 = (pr, wp)"
      by (cases "getManagerMetaPath env w2")
    from wr ok path obtain metaPath where pr: "pr = Inr metaPath"
      by (cases pr) (auto simp: writeManagerMeta_def)
    from writeManagerMeta_ok [OF path [unfolded pr] wr [unfolded ok]] obtain data where
      "marshal_meta cd m' = Inr data" "files w3 = (files w2)(metaPath \<mapsto> data)" by blast
    moreover have "fst (getManagerMetaPath env w) = Inr metaPath"
      using getManagerMetaPath_fst [of env w w2] path pr by simp
    ultimately show ?thesis by auto
  qed
  have uptodate: "Status meta = updateStatuses_newStatus env (Directory meta)"
    if "\<not> ch'" "managerMeta name = Some meta" for name meta
  proof -
    from that ch' have "refreshed env meta = meta" by blast
    then have "Status (refreshed env meta) = Status meta" by simp
    then show ?thesis by (simp add: refreshed_def)
  qed
  have c1: "\<forall>n. out = StatusesUpdated n \<longrightarrow>
       (\<exists>metaPath data m'.
          fst (getManagerMetaPath env w) = Inr metaPath \<and>
          marshal_meta cd m' = Inr data \<and> files w' metaPath = Some data \<and>
          dom m' = dom managerMeta \<and>
          (\<forall>name meta. managerMeta name = Some meta \<longrightarrow>
             (\<exists>meta'. m' name = Some meta' \<and>
                Status meta' = updateStatuses_newStatus env (Directory meta) \<and>
                Directory meta' = Directory meta \<and> CreationDate meta' = CreationDate meta \<and>
                WordPressVersion meta' = WordPressVersion meta \<and>
                DBVersion meta' = DBVersion meta \<and>
                WordPressPort meta' = WordPressPort meta)))"
  proof (intro allI impI)
    fix n
    assume "out = StatusesUpdated n"
    with out_cases have ok: "wres = None" and w': "w' = w3" by auto
    from updated [OF ok] obtain metaPath data where
      "fst (getManagerMetaPath env w) = Inr metaPath" "marshal_meta cd m' = Inr data"
      "files w3 metaPath = Some data" by blast
    with w' dm frame show "\<exists>metaPath data m'.
          fst (getManagerMetaPath env w) = Inr metaPath \<and>
          marshal_meta cd m' = Inr data \<and> files w' metaPath = Some data \<and>
          dom m' = dom managerMeta \<and>
          (\<forall>name meta. managerMeta name = Some meta \<longrightarrow>
             (\<exists>meta'. m' name = Some meta' \<and>
                Status meta' = updateStatuses_newStatus env (Directory meta) \<and>
                Directory meta' = Directory meta \<and> CreationDate meta' = CreationDate meta \<and>
                WordPressVersion meta' = WordPressVersion meta \<and>
                DBVersion meta' = DBVersion meta \<and>
                WordPressPort meta' = WordPressPort meta))"
      by blast
  qed
  have c2: "out = StatusesUpToDate \<longrightarrow>
       files w' = files w \<and>
       (\<forall>name meta. managerMeta name = Some meta \<longrightarrow>
          Status meta = updateStatuses_newStatus env (Directory meta))"
    using out_cases uptodate readManagerMeta_files [OF rd] by auto
  have c3: "(\<exists>n. out = StatusesUpdated n) \<or> out = StatusesUpToDate \<or> (\<exists>e. out = StatusWriteFailed e)"
    using out_cases by auto
  from c1 c2 c3 show ?thesis by blast
qed

theorem refresh_status_frame_witness:
  "fst (updateStatuses demo_env demo_codec [''c'', ''a'', ''b''] demo_world) = StatusesUpdated 2 \<and>
   files (snd (updateStatuses demo_env demo_codec [''c'', ''a'', ''b''] demo_world)) demo_metaPath =
     Some ''a=/sites/a,Running;b=/sites/b,Directory Missing;c=/sites/c,Stopped;''"
proof -
  let ?r = "updateStatuses demo_env demo_codec [''c'', ''a'', ''b''] demo_world"
  have out: "fst ?r = StatusesUpdated 2"
    by (simp add: demo_simps store_simps registry_simps)
  have run: "?r = (fst ?r, snd ?r)" by simp
  have st: "updateStatuses_newStatus demo_env ''/sites/a'' = ''Running''"
    "updateStatuses_newStatus demo_env ''/sites/b'' = ''Directory Missing''"
    "updateStatuses_newStatus demo_env ''/sites/c'' = ''Stopped''"
    by (simp_all add: demo_simps registry_simps)
  from refresh_status_frame [OF demo_read demo_dom run] out obtain metaPath data m' where
    mp: "fst (getManagerMetaPath demo_env demo_world) = Inr metaPath"
    and data: "marshal_meta demo_codec m' = Inr data"
    and f: "files (snd ?r) metaPath = Some data"
    and fr: "\<forall>name meta. demo_registry name = Some meta \<longrightarrow>
             (\<exists>meta'. m' name = Some meta' \<and>
                Status meta' = updateStatuses_newStatus demo_env (Directory meta) \<and>
                Directory meta' = Directory meta \<and> CreationDate meta' = CreationDate meta \<and>
                WordPressVersion meta' = WordPressVersion meta \<and>
                DBVersion meta' = DBVersion meta \<and>
                WordPressPort meta' = WordPressPort meta)"
    by auto
  from mp have mp': "metaPath = demo_metaPath" by (simp add: demo_path)
  from fr [rule_format, of "''a''" inst_a] st obtain ma where
    a: "m' ''a'' = Some ma" "Status ma = ''Running''" "Directory ma = ''/sites/a''"
    by (auto simp: demo_registry_def inst_a_def)
  from fr [rule_format, of "''b''" inst_b] st obtain mb where
    b: "m' ''b'' = Some mb" "Status mb = ''Directory Missing''" "Directory mb = ''/sites/b''"
    by (auto simp: demo_registry_def inst_b_def)
  from fr [rule_format, of "''c''" inst_c] st obtain mc where
    c: "m' ''c'' = Some mc" "Status mc = ''Stopped''" "Directory mc = ''/sites/c''"
    by (auto simp: demo_registry_def inst_c_def)
  from data a b c have "data = ''a=/sites/a,Running;b=/sites/b,Directory Missing;c=/sites/c,Stopped;''"
    by (auto simp: demo_codec_def demo_render_def)
  with f mp' out show ?thesis by simp
qed



end
